(* ===== verification/Prelude.thy ===== *)
theory Prelude
  imports Main "HOL-Library.Word" "HOL-Library.Sublist"
begin

text \<open>
  Shared vocabulary of the development: Go's errors as values, machine integers, the
  string functions of the standard library that the operator calls, decimal printing and
  parsing, and the generic list and map lemmas the component proofs use.

  A Go \<open>string\<close> is a sequence of bytes, here a \<^typ>\<open>string\<close> (a list of
  \<^typ>\<open>char\<close>, which are bytes). \<open>strings.ToLower\<close> and \<open>strings.TrimSpace\<close>
  also know letters and spaces beyond ASCII; the models below follow them on ASCII text and
  leave bytes from 128 on alone. Integers that the code keeps in 32 or 64 bits are words,
  read as signed by \<^const>\<open>sint\<close>.
\<close>

named_theorems status_simps
named_theorems manager_simps
named_theorems frame_simps

type_synonym int32 = "32 word"
type_synonym int64 = "64 word"

text \<open>Nanoseconds since the Unix epoch, the resolution of Go's \<open>time.Time\<close>.\<close>

type_synonym time = int

definition second :: time where
  "second = 1000000000"

text \<open>The zero value of \<open>time.Time\<close>: January 1, year 1, UTC.\<close>

definition zero_time :: time where
  "zero_time = - 62135596800 * second"

text \<open>\<open>Time.Unix()\<close>: whole seconds since the epoch, rounded towards minus infinity.\<close>

definition unix_seconds :: "time \<Rightarrow> int" where
  "unix_seconds t = t div second"

section \<open>Errors\<close>

text \<open>
  \<open>ErrNotFound\<close> and \<open>ErrConflict\<close> are the API server's status errors the code tells
  apart; \<open>ErrOther\<close> is any other error of a call; \<open>ErrMsg\<close> is \<open>fmt.Errorf\<close> without a
  \<open>%w\<close> verb and \<open>ErrWrap\<close> is \<open>fmt.Errorf("...: %w", err)\<close>. The API machinery's
  \<open>IsNotFound\<close> and \<open>IsConflict\<close> look through wrapped errors.
\<close>

datatype go_error =
    ErrNotFound string
  | ErrConflict string
  | ErrOther string
  | ErrMsg string
  | ErrWrap string go_error

fun is_not_found :: "go_error \<Rightarrow> bool" where
  "is_not_found (ErrNotFound _) = True"
| "is_not_found (ErrWrap _ e) = is_not_found e"
| "is_not_found _ = False"

fun is_conflict :: "go_error \<Rightarrow> bool" where
  "is_conflict (ErrConflict _) = True"
| "is_conflict (ErrWrap _ e) = is_conflict e"
| "is_conflict _ = False"

fun error_text :: "go_error \<Rightarrow> string" where
  "error_text (ErrNotFound s) = s"
| "error_text (ErrConflict s) = s"
| "error_text (ErrOther s) = s"
| "error_text (ErrMsg s) = s"
| "error_text (ErrWrap s e) = s @ '': '' @ error_text e"

lemma conflict_not_missing: "is_conflict e \<Longrightarrow> \<not> is_not_found e"
  by (induction e) auto

section \<open>The standard library's string functions\<close>

fun strings_Contains :: "string \<Rightarrow> string \<Rightarrow> bool" where
  "strings_Contains [] sub = (sub = [])"
| "strings_Contains (c # cs) sub = (take (length sub) (c # cs) = sub \<or> strings_Contains cs sub)"

definition strings_HasPrefix :: "string \<Rightarrow> string \<Rightarrow> bool" where
  "strings_HasPrefix s p \<longleftrightarrow> take (length p) s = p"

text \<open>\<open>strings.ReplaceAll\<close> with one-byte arguments, the only way it is called.\<close>

definition replace_char :: "char \<Rightarrow> char \<Rightarrow> string \<Rightarrow> string" where
  "replace_char a b = map (\<lambda>c. if c = a then b else c)"

definition lower_char :: "char \<Rightarrow> char" where
  "lower_char c = (if 65 \<le> (of_char c :: nat) \<and> of_char c \<le> (90 :: nat)
     then char_of (of_char c + 32 :: nat) else c)"

definition strings_ToLower :: "string \<Rightarrow> string" where
  "strings_ToLower = map lower_char"

definition is_space :: "char \<Rightarrow> bool" where
  "is_space c \<longleftrightarrow> (of_char c :: nat) \<in> {9, 10, 11, 12, 13, 32}"

definition strings_TrimSpace :: "string \<Rightarrow> string" where
  "strings_TrimSpace s = rev (dropWhile is_space (rev (dropWhile is_space s)))"

text \<open>\<open>strings.Split(s, sep)\<close> with a one-byte separator: never empty.\<close>

fun strings_Split :: "char \<Rightarrow> string \<Rightarrow> string list" where
  "strings_Split sep [] = [[]]"
| "strings_Split sep (c # cs) =
     (if c = sep then [] # strings_Split sep cs
      else (case strings_Split sep cs of [] \<Rightarrow> [[c]] | w # ws \<Rightarrow> (c # w) # ws))"

text \<open>\<open>strings.SplitN(s, sep, 2)\<close>: at most one cut, at the first separator.\<close>

definition strings_SplitN2 :: "char \<Rightarrow> string \<Rightarrow> string list" where
  "strings_SplitN2 sep s =
     (case dropWhile (\<lambda>c. c \<noteq> sep) s of
        [] \<Rightarrow> [s]
      | _ # rest \<Rightarrow> [takeWhile (\<lambda>c. c \<noteq> sep) s, rest])"

fun strings_Join :: "string list \<Rightarrow> string \<Rightarrow> string" where
  "strings_Join [] sep = []"
| "strings_Join [w] sep = w"
| "strings_Join (w # ws) sep = w @ sep @ strings_Join ws sep"

lemma strings_Contains_iff: "strings_Contains s sub \<longleftrightarrow> sublist sub s"
proof (induction s)
  case Nil
  then show ?case by simp
next
  case (Cons c cs)
  have "take (length sub) (c # cs) = sub \<longleftrightarrow> prefix sub (c # cs)"
    by (metis append_eq_conv_conj append_take_drop_id prefix_def)
  with Cons show ?case
    by (simp add: sublist_Cons_right)
qed

lemma strings_HasPrefix_iff: "strings_HasPrefix s p \<longleftrightarrow> prefix p s"
  unfolding strings_HasPrefix_def by (metis append_eq_conv_conj append_take_drop_id prefix_def)

lemma length_replace_char [simp]: "length (replace_char a b s) = length s"
  by (simp add: replace_char_def)

lemma set_replace_char: "set (replace_char a b s) \<subseteq> (set s - {a}) \<union> {b}"
  by (auto simp: replace_char_def)

lemma length_ToLower [simp]: "length (strings_ToLower s) = length s"
  by (simp add: strings_ToLower_def)

lemma lower_char_idem [simp]: "lower_char (lower_char c) = lower_char c"
proof -
  have "of_char (char_of (of_char c + 32 :: nat)) = (of_char c + 32 :: nat)"
    if "(of_char c :: nat) \<le> 90"
    using that by (simp add: of_char_of)
  then show ?thesis by (auto simp: lower_char_def)
qed

lemma ToLower_idem [simp]: "strings_ToLower (strings_ToLower s) = strings_ToLower s"
  by (simp add: strings_ToLower_def)

lemma Split_not_Nil [simp]: "strings_Split sep s \<noteq> []"
  by (induction s) (auto split: list.splits)

lemma Join_Cons: "ws \<noteq> [] \<Longrightarrow> strings_Join (w # ws) sep = w @ sep @ strings_Join ws sep"
  by (cases ws) auto

lemma Join_Split: "strings_Join (strings_Split sep s) [sep] = s"
proof (induction s)
  case Nil
  then show ?case by simp
next
  case (Cons c cs)
  obtain w ws where ws: "strings_Split sep cs = w # ws"
    by (meson Split_not_Nil neq_Nil_conv)
  with Cons show ?case
    by (cases ws) (auto simp: Join_Cons)
qed

lemma Split_snoc: "strings_Split sep (xs @ [sep]) = strings_Split sep xs @ [[]]"
proof (induction xs)
  case Nil
  then show ?case by simp
next
  case (Cons x xs)
  then show ?case by (cases "strings_Split sep xs") auto
qed

lemma Split_no_sep: "w \<in> set (strings_Split sep s) \<Longrightarrow> sep \<notin> set w"
proof (induction s arbitrary: w)
  case Nil
  then show ?case by simp
next
  case (Cons c cs)
  then show ?case by (auto split: if_splits list.splits)
qed

section \<open>Decimal numbers\<close>

definition digit_char :: "nat \<Rightarrow> char" where
  "digit_char n = ''0123456789'' ! n"

fun show_nat :: "nat \<Rightarrow> string" where
  "show_nat n = (if n < 10 then [digit_char n]
     else show_nat (n div 10) @ [digit_char (n mod 10)])"

declare show_nat.simps [simp del]

text \<open>The verb \<open>%d\<close>.\<close>

definition show_int :: "int \<Rightarrow> string" where
  "show_int i = (if i < 0 then ''-'' @ show_nat (nat (- i)) else show_nat (nat i))"

definition is_digit :: "char \<Rightarrow> bool" where
  "is_digit c \<longleftrightarrow> 48 \<le> (of_char c :: nat) \<and> of_char c \<le> (57 :: nat)"

fun dec_value :: "nat \<Rightarrow> string \<Rightarrow> nat option" where
  "dec_value a [] = Some a"
| "dec_value a (c # cs) =
     (if is_digit c then dec_value (10 * a + (of_char c - 48)) cs else None)"

text \<open>
  \<open>strconv.ParseInt(s, 10, bits)\<close>: an optional sign, at least one digit, and the value
  within the signed range; everything else is an error (\<^const>\<open>None\<close>).
\<close>

definition in_range :: "nat \<Rightarrow> int \<Rightarrow> bool" where
  "in_range bits i \<longleftrightarrow> - (2 ^ (bits - 1)) \<le> i \<and> i < 2 ^ (bits - 1)"

definition ParseInt :: "nat \<Rightarrow> string \<Rightarrow> int option" where
  "ParseInt bits s =
     (let (neg, ds) = (case s of [] \<Rightarrow> (False, [])
                       | c # cs \<Rightarrow> if c = CHR ''-'' then (True, cs)
                                  else if c = CHR ''+'' then (False, cs) else (False, s))
      in if ds = [] then None
         else (case dec_value 0 ds of
                 None \<Rightarrow> None
               | Some n \<Rightarrow> let i = (if neg then - int n else int n)
                          in if in_range bits i then Some i else None))"

lemma digit_char_props:
  assumes "n < 10"
  shows "is_digit (digit_char n)" and "of_char (digit_char n) = 48 + n"
    and "digit_char n \<noteq> CHR ''-''" and "digit_char n \<noteq> CHR ''+''"
proof -
  have "n \<in> {0, 1, 2, 3, 4, 5, 6, 7, 8, 9}"
    using assms by auto
  then show "is_digit (digit_char n)" and "of_char (digit_char n) = 48 + n"
    and "digit_char n \<noteq> CHR ''-''" and "digit_char n \<noteq> CHR ''+''"
    by (auto simp: digit_char_def is_digit_def)
qed

lemma dec_value_append:
  "dec_value a (xs @ ys) = (case dec_value a xs of None \<Rightarrow> None | Some b \<Rightarrow> dec_value b ys)"
  by (induction xs arbitrary: a) auto

lemma dec_value_show_nat: "dec_value 0 (show_nat n) = Some n"
proof (induction n rule: show_nat.induct)
  case (1 n)
  show ?case
  proof (cases "n < 10")
    case True
    then show ?thesis
      by (simp add: show_nat.simps [of n] digit_char_props)
  next
    case False
    with 1 have "dec_value 0 (show_nat (n div 10)) = Some (n div 10)" by simp
    moreover have "n mod 10 < 10" by simp
    ultimately show ?thesis
      using False by (simp add: show_nat.simps [of n] dec_value_append digit_char_props)
  qed
qed

lemma show_nat_not_Nil [simp]: "show_nat n \<noteq> []"
  by (subst show_nat.simps) simp

lemma show_nat_hd: "hd (show_nat n) \<noteq> CHR ''-'' \<and> hd (show_nat n) \<noteq> CHR ''+''"
proof (induction n rule: show_nat.induct)
  case (1 n)
  show ?case
  proof (cases "n < 10")
    case True
    then show ?thesis by (simp add: show_nat.simps [of n] digit_char_props)
  next
    case False
    with 1 show ?thesis by (simp add: show_nat.simps [of n])
  qed
qed

lemma ParseInt_show_int:
  assumes "in_range bits i"
  shows "ParseInt bits (show_int i) = Some i"
proof (cases "i < 0")
  case True
  with assms show ?thesis
    by (simp add: ParseInt_def show_int_def dec_value_show_nat)
next
  case False
  obtain c cs where c: "show_nat (nat i) = c # cs"
    by (meson neq_Nil_conv show_nat_not_Nil)
  with show_nat_hd [of "nat i"] have "c \<noteq> CHR ''-''" "c \<noteq> CHR ''+''" by auto
  with False c assms dec_value_show_nat [of "nat i"] show ?thesis
    by (simp add: ParseInt_def show_int_def)
qed

lemma ParseInt_in_range: "ParseInt bits s = Some i \<Longrightarrow> in_range bits i"
  by (auto simp: ParseInt_def Let_def split: prod.splits option.splits if_splits)

section \<open>Lists and maps\<close>

text \<open>The first index at which a loop with a \<open>break\<close> stops.\<close>

fun find_index :: "('a \<Rightarrow> bool) \<Rightarrow> 'a list \<Rightarrow> nat option" where
  "find_index P [] = None"
| "find_index P (x # xs) = (if P x then Some 0 else map_option Suc (find_index P xs))"

lemma find_index_None: "find_index P xs = None \<longleftrightarrow> (\<forall>x \<in> set xs. \<not> P x)"
  by (induction xs) auto

lemma find_index_Some:
  "find_index P xs = Some i \<Longrightarrow> i < length xs \<and> P (xs ! i) \<and> (\<forall>j < i. \<not> P (xs ! j))"
  by (induction xs arbitrary: i) (auto split: if_splits simp: nth_Cons' less_Suc_eq_0_disj)

text \<open>Changing the first element that satisfies a predicate.\<close>

fun map_first :: "('a \<Rightarrow> bool) \<Rightarrow> ('a \<Rightarrow> 'a) \<Rightarrow> 'a list \<Rightarrow> 'a list" where
  "map_first P f [] = []"
| "map_first P f (x # xs) = (if P x then f x # xs else x # map_first P f xs)"

lemma list_update_find_index:
  "find_index P xs = Some i \<Longrightarrow> xs[i := f (xs ! i)] = map_first P f xs"
  by (induction xs arbitrary: i) (auto split: if_splits)

lemma length_map_first [simp]: "length (map_first P f xs) = length xs"
  by (induction xs) auto

lemma map_map_first:
  "(\<And>x. g (f x) = g x) \<Longrightarrow> map g (map_first P f xs) = map g xs"
  by (induction xs) auto

lemma map_first_id: "(\<forall>x \<in> set xs. \<not> P x) \<Longrightarrow> map_first P f xs = xs"
  by (induction xs) auto

lemma map_first_distinct:
  "distinct (map k xs) \<Longrightarrow>
   map_first (\<lambda>x. k x = a) f xs = map (\<lambda>x. if k x = a then f x else x) xs"
proof (induction xs)
  case Nil
  then show ?case by simp
next
  case (Cons x xs)
  then show ?case
    by (auto simp: image_iff intro!: map_idI [symmetric])
qed

lemma length_filter_map_le:
  "(\<And>x. Q (f x) \<Longrightarrow> P x) \<Longrightarrow> length (filter Q (map f xs)) \<le> length (filter P xs)"
  by (induction xs) (auto intro: le_SucI)

lemma map_of_map_key:
  "distinct (map k xs) \<Longrightarrow> x \<in> set xs \<Longrightarrow> map_of (map (\<lambda>y. (k y, y)) xs) (k x) = Some x"
  by (induction xs) (auto simp: image_iff)

lemma sort_key_filter_prefix:
  "filter P (sort_key f xs) = sort_key f (filter P xs)"
  by (rule filter_sort)

end
