(* ===== verification/Json.thy ===== *)
theory Json
  imports Prelude
begin

text \<open>
  JSON as \<open>encoding/json\<close> reads it, byte by byte. \<open>json_step\<close> is the scanner: a mode and a
  stack of open arrays and objects; running it needs no fuel. \<open>json_unmarshal\<close> reads a whole
  text and \<open>json_decode_first\<close> the first value of a stream, as \<open>json.Decoder\<close> does. The
  decoders at the end fill the fields of a Go value from a JSON value: a member name matches a
  field up to letter case, \<open>null\<close> leaves the field alone, a value of another type is an error,
  and a repeated member is decoded again into what the first one left.
\<close>

text \<open>
  A number keeps its literal text and an object keeps its members in order, duplicates
  included.
\<close>

datatype json =
    JNull
  | JBool bool
  | JNum string
  | JStr string
  | JArr "json list"
  | JObj "(string \<times> json) list"

section \<open>Strings\<close>

text \<open>UTF-8: the bytes of a code point.\<close>

definition utf8_encode :: "nat \<Rightarrow> nat list" where
  "utf8_encode r =
     (if r < 128 then [r]
      else if r < 2048 then [192 + r div 64, 128 + r mod 64]
      else if r < 65536 then [224 + r div 4096, 128 + r div 64 mod 64, 128 + r mod 64]
      else [240 + r div 262144, 128 + r div 4096 mod 64, 128 + r div 64 mod 64, 128 + r mod 64])"

definition replacement_char :: nat where
  "replacement_char = 65533"

text \<open>
  \<open>utf8.DecodeRune\<close> on a byte from 128 on: the number of bytes of the well-formed sequence at
  the front, or 0 if there is none; over-long forms and surrogates are not well-formed.
\<close>

definition continuation :: "nat \<Rightarrow> bool" where
  "continuation b \<longleftrightarrow> 128 \<le> b \<and> b \<le> 191"

fun utf8_length :: "nat list \<Rightarrow> nat" where
  "utf8_length (a # b # c # d # _) =
     (if 194 \<le> a \<and> a \<le> 223 \<and> continuation b then 2
      else if 224 \<le> a \<and> a \<le> 239 \<and> continuation b \<and> continuation c \<and>
              (a = 224 \<longrightarrow> 160 \<le> b) \<and> (a = 237 \<longrightarrow> b \<le> 159) then 3
      else if 240 \<le> a \<and> a \<le> 244 \<and> continuation b \<and> continuation c \<and> continuation d \<and>
              (a = 240 \<longrightarrow> 144 \<le> b) \<and> (a = 244 \<longrightarrow> b \<le> 143) then 4
      else 0)"
| "utf8_length [a, b, c] =
     (if 194 \<le> a \<and> a \<le> 223 \<and> continuation b then 2
      else if 224 \<le> a \<and> a \<le> 239 \<and> continuation b \<and> continuation c \<and>
              (a = 224 \<longrightarrow> 160 \<le> b) \<and> (a = 237 \<longrightarrow> b \<le> 159) then 3
      else 0)"
| "utf8_length [a, b] = (if 194 \<le> a \<and> a \<le> 223 \<and> continuation b then 2 else 0)"
| "utf8_length _ = 0"

definition hex_digit :: "nat \<Rightarrow> nat option" where
  "hex_digit b =
     (if 48 \<le> b \<and> b \<le> 57 then Some (b - 48)
      else if 97 \<le> b \<and> b \<le> 102 then Some (b - 87)
      else if 65 \<le> b \<and> b \<le> 70 then Some (b - 55) else None)"

text \<open>\<open>getu4\<close>: the value of \<open>\uXXXX\<close> at the front of a literal.\<close>

fun getu4 :: "nat list \<Rightarrow> nat option" where
  "getu4 (s # u # a # b # c # d # _) =
     (if s = 92 \<and> u = 117 then
        (case (hex_digit a, hex_digit b, hex_digit c, hex_digit d) of
           (Some w, Some x, Some y, Some z) \<Rightarrow> Some (4096 * w + 256 * x + 16 * y + z)
         | _ \<Rightarrow> None)
      else None)"
| "getu4 _ = None"

definition is_surrogate :: "nat \<Rightarrow> bool" where
  "is_surrogate r \<longleftrightarrow> 55296 \<le> r \<and> r < 57344"

text \<open>The code point of a \<open>\u\<close> escape and the number of bytes it takes.\<close>

definition escaped_rune :: "nat list \<Rightarrow> nat \<times> nat" where
  "escaped_rune bs =
     (case getu4 bs of
        None \<Rightarrow> (replacement_char, 6)
      | Some r \<Rightarrow>
          if \<not> is_surrogate r then (r, 6)
          else (case getu4 (drop 6 bs) of
                  Some r1 \<Rightarrow>
                    if r < 56320 \<and> 56320 \<le> r1 \<and> r1 < 57344
                    then ((r - 55296) * 1024 + (r1 - 56320) + 65536, 12)
                    else (replacement_char, 6)
                | None \<Rightarrow> (replacement_char, 6)))"

definition simple_escape :: "nat \<Rightarrow> nat" where
  "simple_escape b =
     (if b = 98 then 8 else if b = 102 then 12 else if b = 110 then 10
      else if b = 114 then 13 else if b = 116 then 9 else b)"

text \<open>\<open>unquote\<close>: the bytes a scanned string literal stands for.\<close>

function unquote :: "nat list \<Rightarrow> nat list" where
  "unquote bs =
     (case bs of
        [] \<Rightarrow> []
      | b # rest \<Rightarrow>
          if b = 92 then
            (case rest of
               [] \<Rightarrow> []
             | e # rest' \<Rightarrow>
                 if e = 117
                 then utf8_encode (fst (escaped_rune bs)) @ unquote (drop (snd (escaped_rune bs)) bs)
                 else simple_escape e # unquote rest')
          else if b < 128 then b # unquote rest
          else if utf8_length bs = 0
          then utf8_encode replacement_char @ unquote rest
          else take (utf8_length bs) bs @ unquote (drop (utf8_length bs) bs))"
  by auto
termination
proof (relation "measure length", goal_cases)
  case 1
  show ?case by simp
next
  case (2 bs b rest e rest')
  have "0 < snd (escaped_rune bs)"
    by (auto simp: escaped_rune_def split: option.splits)
  with 2 show ?case by auto
qed auto

declare unquote.simps [simp del]

definition bytes_of :: "string \<Rightarrow> nat list" where
  "bytes_of s = map of_char s"

definition unquote_string :: "string \<Rightarrow> string" where
  "unquote_string s = map char_of (unquote (bytes_of s))"

section \<open>The scanner\<close>

datatype num_state = NNeg | NZero | NInt | NDot | NFrac | NE | NESign | NExp

fun num_step :: "num_state \<Rightarrow> char \<Rightarrow> num_state option" where
  "num_step NNeg c = (if c = CHR ''0'' then Some NZero else if is_digit c then Some NInt else None)"
| "num_step NZero c =
     (if c = CHR ''.'' then Some NDot
      else if c = CHR ''e'' \<or> c = CHR ''E'' then Some NE else None)"
| "num_step NInt c =
     (if is_digit c then Some NInt else if c = CHR ''.'' then Some NDot
      else if c = CHR ''e'' \<or> c = CHR ''E'' then Some NE else None)"
| "num_step NDot c = (if is_digit c then Some NFrac else None)"
| "num_step NFrac c =
     (if is_digit c then Some NFrac
      else if c = CHR ''e'' \<or> c = CHR ''E'' then Some NE else None)"
| "num_step NE c =
     (if is_digit c then Some NExp
      else if c = CHR ''+'' \<or> c = CHR ''-'' then Some NESign else None)"
| "num_step NESign c = (if is_digit c then Some NExp else None)"
| "num_step NExp c = (if is_digit c then Some NExp else None)"

definition num_start :: "char \<Rightarrow> num_state option" where
  "num_start c =
     (if c = CHR ''-'' then Some NNeg else if c = CHR ''0'' then Some NZero
      else if is_digit c then Some NInt else None)"

definition num_final :: "num_state \<Rightarrow> bool" where
  "num_final n \<longleftrightarrow> n = NZero \<or> n = NInt \<or> n = NFrac \<or> n = NExp"

datatype str_state = SPlain | SEscape | SHex nat

text \<open>
  \<open>MString k e acc\<close> is inside a string literal, of a member name if \<open>k\<close>, with the bytes read
  so far; \<open>MLiteral rest v\<close> still expects \<open>rest\<close> of \<open>true\<close>, \<open>false\<close> or \<open>null\<close>; \<open>MDone v\<close>
  has read the top-level value.
\<close>

datatype json_mode =
    MValue | MArrFirst | MObjFirst | MKey | MColon | MAfter
  | MString bool str_state string
  | MNumber num_state string
  | MLiteral string json
  | MDone json
  | MFail

datatype json_frame = FArr "json list" | FObj "(string \<times> json) list" string

type_synonym json_state = "json_mode \<times> json_frame list"

definition is_json_space :: "char \<Rightarrow> bool" where
  "is_json_space c \<longleftrightarrow> c = CHR '' '' \<or> c = CHR 0x09 \<or> c = CHR 0x0A \<or> c = CHR 0x0D"

fun json_deliver :: "json \<Rightarrow> json_frame list \<Rightarrow> json_state" where
  "json_deliver v [] = (MDone v, [])"
| "json_deliver v (FArr vs # st) = (MAfter, FArr (vs @ [v]) # st)"
| "json_deliver v (FObj ms k # st) = (MAfter, FObj (ms @ [(k, v)]) k # st)"

text \<open>The scanner refuses to nest deeper than 10000 values.\<close>

definition json_push :: "json_mode \<Rightarrow> json_frame \<Rightarrow> json_frame list \<Rightarrow> json_state" where
  "json_push m f st = (if int (length st) < 10000 then (m, f # st) else (MFail, st))"

definition json_begin :: "char \<Rightarrow> json_frame list \<Rightarrow> json_state" where
  "json_begin c st =
     (if c = CHR 0x22 then (MString False SPlain [], st)
      else if c = CHR ''['' then json_push MArrFirst (FArr []) st
      else if c = CHR ''{'' then json_push MObjFirst (FObj [] []) st
      else if c = CHR ''t'' then (MLiteral ''rue'' (JBool True), st)
      else if c = CHR ''f'' then (MLiteral ''alse'' (JBool False), st)
      else if c = CHR ''n'' then (MLiteral ''ull'' JNull, st)
      else (case num_start c of Some n \<Rightarrow> (MNumber n [c], st) | None \<Rightarrow> (MFail, st)))"

fun json_close_string :: "bool \<Rightarrow> string \<Rightarrow> json_frame list \<Rightarrow> json_state" where
  "json_close_string False s st = json_deliver (JStr s) st"
| "json_close_string True s (FObj ms _ # st) = (MColon, FObj ms s # st)"
| "json_close_string True s st = (MFail, st)"

fun json_after :: "char \<Rightarrow> json_frame list \<Rightarrow> json_state" where
  "json_after c (FArr vs # st) =
     (if c = CHR '','' then (MValue, FArr vs # st)
      else if c = CHR '']'' then json_deliver (JArr vs) st else (MFail, st))"
| "json_after c (FObj ms k # st) =
     (if c = CHR '','' then (MKey, FObj ms k # st)
      else if c = CHR ''}'' then json_deliver (JObj ms) st else (MFail, st))"
| "json_after c [] = (MFail, [])"

fun json_string_step :: "bool \<Rightarrow> str_state \<Rightarrow> string \<Rightarrow> char \<Rightarrow> json_frame list \<Rightarrow> json_state" where
  "json_string_step k SPlain acc c st =
     (if c = CHR 0x22 then json_close_string k (unquote_string acc) st
      else if c = CHR 0x5C then (MString k SEscape (acc @ [c]), st)
      else if (of_char c :: nat) < 32 then (MFail, st)
      else (MString k SPlain (acc @ [c]), st))"
| "json_string_step k SEscape acc c st =
     (if c = CHR ''u'' then (MString k (SHex 4) (acc @ [c]), st)
      else if c = CHR 0x22 \<or> c = CHR 0x5C \<or> c = CHR ''/'' \<or> c = CHR ''b'' \<or> c = CHR ''f'' \<or>
              c = CHR ''n'' \<or> c = CHR ''r'' \<or> c = CHR ''t''
      then (MString k SPlain (acc @ [c]), st) else (MFail, st))"
| "json_string_step k (SHex n) acc c st =
     (if hex_digit (of_char c) = None then (MFail, st)
      else (MString k (if n \<le> 1 then SPlain else SHex (n - 1)) (acc @ [c]), st))"

fun json_mode_step :: "char \<Rightarrow> json_mode \<Rightarrow> json_frame list \<Rightarrow> json_state" where
  "json_mode_step c MValue st =
     (if is_json_space c then (MValue, st) else json_begin c st)"
| "json_mode_step c MArrFirst st =
     (if is_json_space c then (MArrFirst, st)
      else if c = CHR '']'' then json_after c st else json_begin c st)"
| "json_mode_step c MObjFirst st =
     (if is_json_space c then (MObjFirst, st)
      else if c = CHR ''}'' then json_after c st
      else if c = CHR 0x22 then (MString True SPlain [], st) else (MFail, st))"
| "json_mode_step c MKey st =
     (if is_json_space c then (MKey, st)
      else if c = CHR 0x22 then (MString True SPlain [], st) else (MFail, st))"
| "json_mode_step c MColon st =
     (if is_json_space c then (MColon, st)
      else if c = CHR '':'' then (MValue, st) else (MFail, st))"
| "json_mode_step c MAfter st =
     (if is_json_space c then (MAfter, st) else json_after c st)"
| "json_mode_step c (MString k e acc) st = json_string_step k e acc c st"
| "json_mode_step c (MNumber n acc) st =
     (case num_step n c of Some n' \<Rightarrow> (MNumber n' (acc @ [c]), st) | None \<Rightarrow> (MFail, st))"
| "json_mode_step c (MLiteral rest v) st =
     (case rest of
        [] \<Rightarrow> (MFail, st)
      | x # xs \<Rightarrow> if c \<noteq> x then (MFail, st)
                   else if xs = [] then json_deliver v st else (MLiteral xs v, st))"
| "json_mode_step c (MDone v) st = (if is_json_space c then (MDone v, st) else (MFail, st))"
| "json_mode_step c MFail st = (MFail, st)"

text \<open>
  A number ends at the first byte that does not continue it, and that byte is then read in
  the state after the value.
\<close>

fun json_end_number :: "json_state \<Rightarrow> json_state" where
  "json_end_number (MNumber n acc, st) =
     (if num_final n then json_deliver (JNum acc) st else (MFail, st))"
| "json_end_number s = s"

definition json_before :: "char \<Rightarrow> json_state \<Rightarrow> json_state" where
  "json_before c s =
     (case s of (MNumber n acc, st) \<Rightarrow> if num_step n c = None then json_end_number s else s | _ \<Rightarrow> s)"

definition json_step :: "json_state \<Rightarrow> char \<Rightarrow> json_state" where
  "json_step s c = (case json_before c s of (m, st) \<Rightarrow> json_mode_step c m st)"

definition json_stream_step :: "json_state \<Rightarrow> char \<Rightarrow> json_state" where
  "json_stream_step s c =
     (case json_before c s of
        (MDone v, st) \<Rightarrow> (MDone v, st)
      | (m, st) \<Rightarrow> json_mode_step c m st)"

definition json_result :: "json_state \<Rightarrow> json option" where
  "json_result s = (case json_end_number s of (MDone v, _) \<Rightarrow> Some v | _ \<Rightarrow> None)"

definition json_unmarshal :: "string \<Rightarrow> json option" where
  "json_unmarshal s = json_result (foldl json_step (MValue, []) s)"

definition json_decode_first :: "string \<Rightarrow> json option" where
  "json_decode_first s = json_result (foldl json_stream_step (MValue, []) s)"

section \<open>Decoding into Go values\<close>

type_synonym 'a decoder = "json \<Rightarrow> 'a \<Rightarrow> 'a option"

text \<open>
  The comparison of names that ignores case: ASCII letters, and the two other characters that
  fold to ASCII letters, the long s (bytes C5 BF) and the Kelvin sign (bytes E2 84 AA).
\<close>

fun fold_name :: "string \<Rightarrow> string" where
  "fold_name (a # b # c # cs) =
     (if a = CHR 0xC5 \<and> b = CHR 0xBF then CHR ''s'' # fold_name (c # cs)
      else if a = CHR 0xE2 \<and> b = CHR 0x84 \<and> c = CHR 0xAA then CHR ''k'' # fold_name cs
      else lower_char a # fold_name (b # c # cs))"
| "fold_name [a, b] =
     (if a = CHR 0xC5 \<and> b = CHR 0xBF then ''s'' else [lower_char a, lower_char b])"
| "fold_name s = map lower_char s"

definition dec_string :: "string decoder" where
  "dec_string v x = (case v of JStr s \<Rightarrow> Some s | JNull \<Rightarrow> Some x | _ \<Rightarrow> None)"

definition dec_bool :: "bool decoder" where
  "dec_bool v x = (case v of JBool b \<Rightarrow> Some b | JNull \<Rightarrow> Some x | _ \<Rightarrow> None)"

definition dec_int :: "int decoder" where
  "dec_int v x = (case v of JNum n \<Rightarrow> ParseInt 64 n | JNull \<Rightarrow> Some x | _ \<Rightarrow> None)"

definition dec_pointer :: "'a \<Rightarrow> 'a decoder \<Rightarrow> 'a option decoder" where
  "dec_pointer zero d v x =
     (case v of
        JNull \<Rightarrow> Some None
      | _ \<Rightarrow> map_option Some (d v (case x of None \<Rightarrow> zero | Some y \<Rightarrow> y)))"

fun dec_all :: "'a \<Rightarrow> 'a decoder \<Rightarrow> json list \<Rightarrow> 'a list option" where
  "dec_all zero d [] = Some []"
| "dec_all zero d (v # vs) =
     (case d v zero of
        None \<Rightarrow> None
      | Some x \<Rightarrow> (case dec_all zero d vs of None \<Rightarrow> None | Some xs \<Rightarrow> Some (x # xs)))"

text \<open>A slice, decoded into an empty one.\<close>

definition dec_slice :: "'a \<Rightarrow> 'a decoder \<Rightarrow> 'a list decoder" where
  "dec_slice zero d v x =
     (case v of JArr vs \<Rightarrow> dec_all zero d vs | JNull \<Rightarrow> Some [] | _ \<Rightarrow> None)"

text \<open>A struct: a field per name, each with the way to decode it in place.\<close>

fun dec_member :: "(string \<times> 'a decoder) list \<Rightarrow> string \<Rightarrow> 'a decoder" where
  "dec_member [] k v x = Some x"
| "dec_member ((name, d) # fs) k v x =
     (if fold_name k = fold_name name then d v x else dec_member fs k v x)"

fun dec_members :: "(string \<times> 'a decoder) list \<Rightarrow> (string \<times> json) list \<Rightarrow> 'a \<Rightarrow> 'a option" where
  "dec_members fs [] x = Some x"
| "dec_members fs ((k, v) # ms) x =
     (case dec_member fs k v x of None \<Rightarrow> None | Some x \<Rightarrow> dec_members fs ms x)"

definition dec_struct :: "(string \<times> 'a decoder) list \<Rightarrow> 'a decoder" where
  "dec_struct fs v x =
     (case v of JObj ms \<Rightarrow> dec_members fs ms x | JNull \<Rightarrow> Some x | _ \<Rightarrow> None)"

definition dec_field :: "'f decoder \<Rightarrow> ('a \<Rightarrow> 'f) \<Rightarrow> (('f \<Rightarrow> 'f) \<Rightarrow> 'a \<Rightarrow> 'a) \<Rightarrow> 'a decoder" where
  "dec_field d get upd v x = map_option (\<lambda>y. upd (\<lambda>_. y) x) (d v (get x))"

definition unmarshal_into :: "'a decoder \<Rightarrow> 'a \<Rightarrow> string \<Rightarrow> 'a option" where
  "unmarshal_into d zero s =
     (case json_unmarshal s of None \<Rightarrow> None | Some v \<Rightarrow> d v zero)"

definition decode_body :: "'a decoder \<Rightarrow> 'a \<Rightarrow> string \<Rightarrow> 'a option" where
  "decode_body d zero s =
     (case json_decode_first s of None \<Rightarrow> None | Some v \<Rightarrow> d v zero)"

end
