(* ===== verification/Api_Types.thy ===== *)
theory Api_Types
  imports Json
begin

text \<open>
  The custom resource of \<open>src/src/api/v1alpha1/renovatejob_types.go\<close> as records, one field
  per field of the Go struct. A pointer to a struct is an \<open>option\<close>. A value of a Kubernetes
  API type that the operator only copies into a pod specification (resources, affinity,
  tolerations, volumes, security contexts) is kept in its JSON form, type \<^typ>\<open>json\<close>.
  Loading a resource yields a value of its own: the model has value semantics.
\<close>

section \<open>Status of a project\<close>

text \<open>
  \<open>RenovateProjectStatus\<close> is a Go string with four named values. \<open>OtherStatus\<close> stands for
  any string that is none of the four.
\<close>

datatype renovate_project_status =
    JobStatusScheduled
  | JobStatusRunning
  | JobStatusCompleted
  | JobStatusFailed
  | OtherStatus string

fun status_string :: "renovate_project_status \<Rightarrow> string" where
  "status_string JobStatusScheduled = ''scheduled''"
| "status_string JobStatusRunning = ''running''"
| "status_string JobStatusCompleted = ''completed''"
| "status_string JobStatusFailed = ''failed''"
| "status_string (OtherStatus s) = s"

record project_status =
  psName :: string
  psLastRun :: time
  psDuration :: "string option"
  psStatus :: renovate_project_status
  psPriority :: int32
  psRenovateResultStatus :: "string option"

record renovate_execution_options =
  eoDebug :: bool

record renovate_job_status =
  rsProjects :: "project_status list"
  rsExecutionOptions :: "renovate_execution_options option"

section \<open>Specification\<close>

record renovate_provider =
  prName :: string
  prEndpoint :: string

record secret_key_reference =
  skName :: string
  skKey :: string

record renovate_webhook_auth =
  waEnabled :: bool
  waSecretRef :: "secret_key_reference option"

record renovate_webhook_forgejo_sync =
  fsEnabled :: bool
  fsWebhookURL :: string
  fsTopic :: string
  fsEvents :: "string list"
  fsTokenSecretRef :: "secret_key_reference option"
  fsAuthTokenSecretRef :: "secret_key_reference option"

record renovate_webhook_forgejo =
  wfSync :: "renovate_webhook_forgejo_sync option"

record renovate_webhook =
  whEnabled :: bool
  whAuthentication :: "renovate_webhook_auth option"
  whForgejo :: "renovate_webhook_forgejo option"

record renovate_job_metadata =
  mdLabels :: "string \<rightharpoonup> string"
  mdAnnotations :: "string \<rightharpoonup> string"

record renovate_job_service_account =
  saAutomountServiceAccountToken :: "bool option"
  saName :: string

record renovate_job_security_context =
  scPod :: "json option"
  scContainer :: "json option"

text \<open>\<open>corev1.EnvVar\<close>: the code reads and writes the name and the value only.\<close>

record env_var =
  evName :: string
  evValue :: string
  evValueFrom :: "json option"

record renovate_job_spec =
  spSchedule :: string
  spImage :: string
  spProvider :: "renovate_provider option"
  spDiscoveryFilter :: string
  spDiscoverTopics :: string
  spSkipForks :: bool
  spSecretRef :: string
  spExtraEnv :: "env_var list"
  spExtraEnvFrom :: "json list"
  spParallelism :: int32
  spResources :: json
  spNodeSelector :: "string \<rightharpoonup> string"
  spAffinity :: "json option"
  spTolerations :: "json list"
  spTopologySpreadConstraints :: "json list"
  spServiceAccount :: "renovate_job_service_account option"
  spMetadata :: "renovate_job_metadata option"
  spSecurityContext :: "renovate_job_security_context option"
  spWebhook :: "renovate_webhook option"
  spExtraVolumes :: "json list"
  spExtraVolumeMounts :: "json list"
  spImagePullSecrets :: "string list"
  spDNSPolicy :: string
  spAllowedGroups :: "string list"

text \<open>
  The resource itself. \<open>rjMeta\<close> is the rest of the object's metadata (UID, resource
  version), which the code passes on unread.
\<close>

record renovate_job =
  rjName :: string
  rjNamespace :: string
  rjAnnotations :: "string \<rightharpoonup> string"
  rjMeta :: json
  rjSpec :: renovate_job_spec
  rjStatus :: renovate_job_status

definition Fullname :: "renovate_job \<Rightarrow> string" where
  "Fullname rj = rjName rj @ ''-'' @ rjNamespace rj"

text \<open>The projects of a resource, and the resource with other projects.\<close>

abbreviation projects_of :: "renovate_job \<Rightarrow> project_status list" where
  "projects_of rj \<equiv> rsProjects (rjStatus rj)"

definition set_projects :: "renovate_job \<Rightarrow> project_status list \<Rightarrow> renovate_job" where
  "set_projects rj ps = rj\<lparr>rjStatus := (rjStatus rj)\<lparr>rsProjects := ps\<rparr>\<rparr>"

lemma set_projects_simps [simp]:
  "projects_of (set_projects rj ps) = ps"
  "rjName (set_projects rj ps) = rjName rj"
  "rjNamespace (set_projects rj ps) = rjNamespace rj"
  "rjSpec (set_projects rj ps) = rjSpec rj"
  "rsExecutionOptions (rjStatus (set_projects rj ps)) = rsExecutionOptions (rjStatus rj)"
  by (simp_all add: set_projects_def)

text \<open>An empty specification, the zero value of the Go struct.\<close>

definition zero_spec :: renovate_job_spec where
  "zero_spec = \<lparr>spSchedule = [], spImage = [], spProvider = None, spDiscoveryFilter = [],
     spDiscoverTopics = [], spSkipForks = False, spSecretRef = [], spExtraEnv = [],
     spExtraEnvFrom = [], spParallelism = 0, spResources = JObj [], spNodeSelector = Map.empty,
     spAffinity = None, spTolerations = [], spTopologySpreadConstraints = [],
     spServiceAccount = None, spMetadata = None, spSecurityContext = None, spWebhook = None,
     spExtraVolumes = [], spExtraVolumeMounts = [], spImagePullSecrets = [], spDNSPolicy = [],
     spAllowedGroups = []\<rparr>"

end
