(* ===== verification/Project_Status.thy ===== *)
theory Project_Status
  imports Api_Types
begin

text \<open>
  The life cycle of a project: \<open>src/src/internal/utils/projectStatus.go\<close> and
  \<open>src/src/internal/types/renovateStatusUpdate.go\<close>. The functions of the source mutate the
  status they are given and return it; the model returns the new one. \<open>v1.Now()\<close> is the
  argument \<open>now\<close>.

  \<open>lifecycle\<close> is the abstract state machine the functions implement, and the locale
  \<open>status_updater\<close> is the contract every caller relies on: an update keeps the name and
  takes at most one step of that machine.
\<close>

section \<open>Updates\<close>

record renovate_status_update =
  suStatus :: renovate_project_status
  suPriority :: int32
  suRenovateResultStatus :: "string option"
  suLastRun :: "time option"
  suDuration :: "string option"

text \<open>\<open>&types.RenovateStatusUpdate{Status: s, Priority: p}\<close>, the other fields zero.\<close>

definition mk_update :: "renovate_project_status \<Rightarrow> int32 \<Rightarrow> renovate_status_update" where
  "mk_update s p = \<lparr>suStatus = s, suPriority = p, suRenovateResultStatus = None,
     suLastRun = None, suDuration = None\<rparr>"

lemma mk_update_simps [simp]:
  "suStatus (mk_update s p) = s" "suPriority (mk_update s p) = p"
  "suRenovateResultStatus (mk_update s p) = None" "suDuration (mk_update s p) = None"
  by (simp_all add: mk_update_def)

definition updateRenovateResultStatus :: "project_status \<Rightarrow> string option \<Rightarrow> project_status" where
  "updateRenovateResultStatus p st =
     (if st \<noteq> None then p\<lparr>psRenovateResultStatus := st\<rparr> else p)"

definition validateProjectStatusScheduled ::
    "project_status \<Rightarrow> renovate_status_update \<Rightarrow> project_status" where
  "validateProjectStatusScheduled p u =
     (let p = (if psStatus p \<noteq> JobStatusRunning
               then let p = p\<lparr>psStatus := JobStatusScheduled\<rparr>
                    in if sint (suPriority u) > sint (psPriority p)
                       then p\<lparr>psPriority := suPriority u\<rparr> else p
               else p)
      in updateRenovateResultStatus p (suRenovateResultStatus u))"

definition validateProjectStatusRunning ::
    "project_status \<Rightarrow> renovate_status_update \<Rightarrow> project_status" where
  "validateProjectStatusRunning p u =
     (let p = (if psStatus p = JobStatusScheduled
               then p\<lparr>psStatus := JobStatusRunning, psPriority := 0\<rparr> else p);
          p = p\<lparr>psDuration := None\<rparr>
      in updateRenovateResultStatus p (suRenovateResultStatus u))"

definition validateProjectStatusCompleted ::
    "time \<Rightarrow> project_status \<Rightarrow> renovate_status_update \<Rightarrow> project_status" where
  "validateProjectStatusCompleted now p u =
     (let p = (if psStatus p = JobStatusRunning
               then p\<lparr>psStatus := JobStatusCompleted, psPriority := 0, psLastRun := now\<rparr> else p);
          p = p\<lparr>psDuration := suDuration u\<rparr>
      in updateRenovateResultStatus p (suRenovateResultStatus u))"

definition validateProjectStatusFailed ::
    "time \<Rightarrow> project_status \<Rightarrow> renovate_status_update \<Rightarrow> project_status" where
  "validateProjectStatusFailed now p u =
     (let p = (if psStatus p = JobStatusRunning
               then p\<lparr>psStatus := JobStatusFailed, psPriority := 0, psLastRun := now\<rparr> else p);
          p = p\<lparr>psDuration := suDuration u\<rparr>
      in updateRenovateResultStatus p (suRenovateResultStatus u))"

definition GetUpdateStatusForProject ::
    "time \<Rightarrow> renovate_status_update \<Rightarrow> project_status \<Rightarrow> project_status" where
  "GetUpdateStatusForProject now u p =
     (case suStatus u of
        JobStatusScheduled \<Rightarrow> validateProjectStatusScheduled p u
      | JobStatusRunning \<Rightarrow> validateProjectStatusRunning p u
      | JobStatusCompleted \<Rightarrow> validateProjectStatusCompleted now p u
      | JobStatusFailed \<Rightarrow> validateProjectStatusFailed now p u
      | OtherStatus _ \<Rightarrow> p)"

lemmas update_defs =
  GetUpdateStatusForProject_def validateProjectStatusScheduled_def
  validateProjectStatusRunning_def validateProjectStatusCompleted_def
  validateProjectStatusFailed_def updateRenovateResultStatus_def Let_def

section \<open>The abstract life cycle\<close>

text \<open>One move of a project between its states; every state may also stay as it is.\<close>

inductive lifecycle :: "renovate_project_status \<Rightarrow> renovate_project_status \<Rightarrow> bool" where
  schedule: "s \<noteq> JobStatusRunning \<Longrightarrow> lifecycle s JobStatusScheduled"
| start: "lifecycle JobStatusScheduled JobStatusRunning"
| complete: "lifecycle JobStatusRunning JobStatusCompleted"
| fail: "lifecycle JobStatusRunning JobStatusFailed"

code_pred lifecycle .

inductive_simps lifecycle_from_running [simp]: "lifecycle JobStatusRunning s"
inductive_simps lifecycle_to_running [simp]: "lifecycle s JobStatusRunning"
inductive_simps lifecycle_to_scheduled [simp]: "lifecycle s JobStatusScheduled"
inductive_simps lifecycle_to_completed [simp]: "lifecycle s JobStatusCompleted"
inductive_simps lifecycle_to_failed [simp]: "lifecycle s JobStatusFailed"
inductive_simps lifecycle_to_other [simp]: "lifecycle s (OtherStatus x)"

text \<open>The state an update leads to: the wanted one if the move is legal, else the old one.\<close>

definition next_status ::
    "renovate_project_status \<Rightarrow> renovate_project_status \<Rightarrow> renovate_project_status" where
  "next_status s want = (if lifecycle s want then want else s)"

lemma psStatus_update:
  "psStatus (GetUpdateStatusForProject now u p) = next_status (psStatus p) (suStatus u)"
  by (auto simp: update_defs next_status_def split: renovate_project_status.split)

lemma psName_update [simp]: "psName (GetUpdateStatusForProject now u p) = psName p"
  by (auto simp: update_defs split: renovate_project_status.split)

lemma psPriority_update:
  "psPriority (GetUpdateStatusForProject now u p) =
     (if \<not> lifecycle (psStatus p) (suStatus u) then psPriority p
      else if suStatus u = JobStatusScheduled
      then (if sint (suPriority u) > sint (psPriority p) then suPriority u else psPriority p)
      else 0)"
  by (auto simp: update_defs split: renovate_project_status.split)

lemma psLastRun_update:
  "psLastRun (GetUpdateStatusForProject now u p) =
     (if psStatus p = JobStatusRunning \<and> suStatus u \<in> {JobStatusCompleted, JobStatusFailed}
      then now else psLastRun p)"
  by (cases "suStatus u") (simp_all add: update_defs)

section \<open>The contract of an updater\<close>

text \<open>
  What the manager and its clients rely on when they update projects: the function keeps
  the name and moves a project along \<^const>\<open>lifecycle\<close> or not at all.
\<close>

definition running :: "project_status list \<Rightarrow> nat" where
  "running ps = length (filter (\<lambda>p. psStatus p = JobStatusRunning) ps)"

lemma running_simps [simp]:
  "running [] = 0"
  "running (p # ps) = (if psStatus p = JobStatusRunning then Suc (running ps) else running ps)"
  "running (ps @ qs) = running ps + running qs"
  by (simp_all add: running_def)

locale status_updater =
  fixes upd :: "'u \<Rightarrow> project_status \<Rightarrow> project_status"
  assumes keeps_name: "psName (upd u p) = psName p"
    and legal: "psStatus (upd u p) = psStatus p \<or> lifecycle (psStatus p) (psStatus (upd u p))"
begin

lemma names_map_first: "map psName (map_first P (upd u) ps) = map psName ps"
  by (rule map_map_first) (rule keeps_name)

lemma names_map_if: "map psName (map (\<lambda>p. if P p then upd u p else p) ps) = map psName ps"
  by (simp add: keeps_name)

lemma running_from_scheduled:
  "psStatus (upd u p) = JobStatusRunning \<Longrightarrow>
   psStatus p = JobStatusRunning \<or> psStatus p = JobStatusScheduled"
  using legal [of u p] by auto

lemma running_map_first: "running (map_first P (upd u) ps) \<le> Suc (running ps)"
  by (induction ps) auto

lemma running_map_first_keep:
  assumes "\<And>p. psStatus (upd u p) = JobStatusRunning \<Longrightarrow> psStatus p = JobStatusRunning"
  shows "running (map_first P (upd u) ps) \<le> running ps"
  by (induction ps) (auto dest: assms)

lemma running_map_if_keep:
  assumes "\<And>p. psStatus (upd u p) = JobStatusRunning \<Longrightarrow> psStatus p = JobStatusRunning"
  shows "running (map (\<lambda>p. if P p then upd u p else p) ps) \<le> running ps"
  by (induction ps) (auto dest: assms)

end

interpretation upd: status_updater "\<lambda>(now, u). GetUpdateStatusForProject now u"
  by unfold_locales (auto simp: psStatus_update next_status_def)

lemma update_keeps_running:
  assumes "suStatus u \<noteq> JobStatusRunning"
    and "psStatus (GetUpdateStatusForProject now u p) = JobStatusRunning"
  shows "psStatus p = JobStatusRunning"
  using assms by (auto simp: psStatus_update next_status_def split: if_splits)

end
