(* ===== verification/Config.thy ===== *)
theory Config
  imports Prelude
begin

text \<open>
  The configuration module, \<open>src/src/config/config.go\<close>, and the table of settings that
  \<open>src/src/cmd/main.go\<close> initialises it with. The process environment is the argument
  \<open>getenv\<close> (unset variables read as the empty string, as \<open>os.Getenv\<close> returns them). An
  error message carries its constant text.
\<close>

record config_item_description =
  ciKey :: string
  ciOptional :: bool
  ciDefault :: string
  ciValidate :: "(string \<Rightarrow> go_error option) option"

text \<open>The module's state: the value of every initialised key.\<close>

type_synonym settings = "string \<rightharpoonup> string"

definition config_value :: "(string \<Rightarrow> string) \<Rightarrow> config_item_description \<Rightarrow> string" where
  "config_value getenv d =
     (if getenv (ciKey d) \<noteq> [] then getenv (ciKey d) else ciDefault d)"

fun init_settings ::
    "(string \<Rightarrow> string) \<Rightarrow> settings \<Rightarrow> config_item_description list \<Rightarrow> go_error + settings" where
  "init_settings getenv m [] = Inr m"
| "init_settings getenv m (d # ds) =
     (if getenv (ciKey d) = [] \<and> \<not> ciOptional d
      then Inl (ErrMsg (''option '' @ ciKey d @ '' is not set''))
      else let value = config_value getenv d
           in case (case ciValidate d of None \<Rightarrow> None | Some f \<Rightarrow> f value) of
                Some e \<Rightarrow> Inl e
              | None \<Rightarrow> init_settings getenv (m(ciKey d \<mapsto> value)) ds)"

definition InitializeConfigModule ::
    "(string \<Rightarrow> string) \<Rightarrow> config_item_description list \<Rightarrow> go_error + settings" where
  "InitializeConfigModule getenv configs = init_settings getenv Map.empty configs"

text \<open>
  \<open>GetValue\<close> of an initialised module: a key that is not in the map reads as the zero
  \<open>ConfigItem\<close>, whose value is empty.
\<close>

definition GetValue :: "settings \<Rightarrow> string \<Rightarrow> string" where
  "GetValue m key = (case m key of None \<Rightarrow> [] | Some v \<Rightarrow> v)"

section \<open>The table of \<open>main\<close>\<close>

definition needs_integer :: "string \<Rightarrow> nat \<Rightarrow> string \<Rightarrow> go_error option" where
  "needs_integer key bits value =
     (if ParseInt bits value = None
      then Some (ErrMsg (CHR 0x27 # key @ CHR 0x27 # '' needs to be an integer'')) else None)"

definition ttl_validate :: "string \<Rightarrow> go_error option" where
  "ttl_validate value =
     (case ParseInt 64 value of
        None \<Rightarrow> needs_integer ''JOB_TTL_SECONDS_AFTER_FINISHED'' 64 value
      | Some parsed \<Rightarrow>
          if parsed < -1
          then Some (ErrMsg (CHR 0x27 # ''JOB_TTL_SECONDS_AFTER_FINISHED'' @
                             CHR 0x27 # '' needs to be -1 or greater''))
          else None)"

definition optional_item :: "string \<Rightarrow> string \<Rightarrow> config_item_description" where
  "optional_item key dflt =
     \<lparr>ciKey = key, ciOptional = True, ciDefault = dflt, ciValidate = None\<rparr>"

definition checked_item ::
    "string \<Rightarrow> string \<Rightarrow> (string \<Rightarrow> go_error option) \<Rightarrow> config_item_description" where
  "checked_item key dflt f =
     \<lparr>ciKey = key, ciOptional = True, ciDefault = dflt, ciValidate = Some f\<rparr>"

definition main_config :: "config_item_description list" where
  "main_config =
    [checked_item ''SERVER_PORT'' ''8081'' (needs_integer ''SERVER_PORT'' 64),
     checked_item ''WEBHOOK_SERVER_PORT'' ''8082'' (needs_integer ''WEBHOOK_SERVER_PORT'' 64),
     optional_item ''WEBHOOK_SERVER_ENABLED'' ''false'',
     optional_item ''DELETE_SUCCESSFUL_JOBS'' ''false'',
     checked_item ''JOB_TIMEOUT_SECONDS'' ''1800'' (needs_integer ''JOB_TIMEOUT_SECONDS'' 64),
     checked_item ''JOB_BACKOFF_LIMIT'' ''1'' (needs_integer ''JOB_BACKOFF_LIMIT'' 64),
     checked_item ''JOB_TTL_SECONDS_AFTER_FINISHED'' ''-1'' ttl_validate,
     optional_item ''WATCH_NAMESPACE'' [],
     optional_item ''POD_NAMESPACE'' [],
     optional_item ''IMAGE_PULL_SECRETS'' ''[]'',
     optional_item ''LEADER_ELECTION_ID'' [],
     optional_item ''OIDC_ISSUER_URL'' [],
     optional_item ''OIDC_CLIENT_ID'' [],
     optional_item ''OIDC_CLIENT_SECRET'' [],
     optional_item ''OIDC_REDIRECT_URL'' [],
     optional_item ''OIDC_SESSION_SECRET'' [],
     optional_item ''OIDC_INSECURE_SKIP_VERIFY'' ''false'',
     optional_item ''OIDC_LOGOUT_URL'' [],
     optional_item ''GITHUB_CLIENT_ID'' [],
     optional_item ''GITHUB_CLIENT_SECRET'' [],
     optional_item ''GITHUB_REDIRECT_URL'' [],
     optional_item ''GITHUB_SESSION_SECRET'' [],
     optional_item ''DEFAULT_ALLOWED_GROUPS'' [],
     optional_item ''OIDC_ALLOWED_GROUP_PREFIX'' [],
     optional_item ''OIDC_ALLOWED_GROUP_PATTERN'' [],
     optional_item ''OIDC_ADDITIONAL_SCOPES'' []]"

section \<open>Correctness\<close>

text \<open>
  The invariant of the loop: a key that does not occur later keeps its value, and the value
  stored for a described key is its effective value and has passed its validation.
\<close>

lemma init_settings_other:
  "init_settings getenv m ds = Inr m' \<Longrightarrow> k \<notin> ciKey ` set ds \<Longrightarrow> m' k = m k"
  by (induction ds arbitrary: m)
     (auto simp: Let_def split: if_splits option.splits)

lemma init_settings_value:
  assumes "init_settings getenv m ds = Inr m'" and "distinct (map ciKey ds)" and "d \<in> set ds"
  shows "m' (ciKey d) = Some (config_value getenv d)
    \<and> (\<forall>f. ciValidate d = Some f \<longrightarrow> f (config_value getenv d) = None)"
  using assms
proof (induction ds arbitrary: m)
  case Nil
  then show ?case by simp
next
  case (Cons x ds)
  let ?m = "m(ciKey x \<mapsto> config_value getenv x)"
  have step: "init_settings getenv ?m ds = Inr m'"
    and ok: "\<And>f. ciValidate x = Some f \<Longrightarrow> f (config_value getenv x) = None"
    using Cons.prems(1) by (auto simp: Let_def split: if_splits option.splits)
  show ?case
  proof (cases "d = x")
    case True
    with ok init_settings_other [OF step, of "ciKey x"] Cons.prems(2) show ?thesis by auto
  next
    case False
    with Cons.IH [OF step] Cons.prems(2,3) show ?thesis by auto
  qed
qed

lemma init_settings_total:
  assumes "\<And>d. d \<in> set ds \<Longrightarrow> ciOptional d"
    and "\<And>d f. d \<in> set ds \<Longrightarrow> ciValidate d = Some f \<Longrightarrow> f (config_value getenv d) = None"
  shows "\<exists>m'. init_settings getenv m ds = Inr m'"
  using assms
proof (induction ds arbitrary: m)
  case Nil
  then show ?case by simp
next
  case (Cons x ds)
  then show ?case by (auto simp: Let_def split: option.split)
qed

lemma main_config_distinct: "distinct (map ciKey main_config)"
  by (simp add: main_config_def optional_item_def checked_item_def)

lemma main_config_optional: "list_all ciOptional main_config"
  by (simp add: main_config_def optional_item_def checked_item_def)

lemma main_config_checked:
  "checked_item ''SERVER_PORT'' ''8081'' (needs_integer ''SERVER_PORT'' 64) \<in> set main_config"
  "checked_item ''WEBHOOK_SERVER_PORT'' ''8082'' (needs_integer ''WEBHOOK_SERVER_PORT'' 64)
     \<in> set main_config"
  "checked_item ''JOB_TIMEOUT_SECONDS'' ''1800'' (needs_integer ''JOB_TIMEOUT_SECONDS'' 64)
     \<in> set main_config"
  "checked_item ''JOB_BACKOFF_LIMIT'' ''1'' (needs_integer ''JOB_BACKOFF_LIMIT'' 64)
     \<in> set main_config"
  "checked_item ''JOB_TTL_SECONDS_AFTER_FINISHED'' ''-1'' ttl_validate \<in> set main_config"
  unfolding main_config_def by (simp_all only: list.set insert_iff simp_thms)

lemma checked_item_valid:
  assumes "InitializeConfigModule getenv main_config = Inr m"
    and "checked_item k dflt f \<in> set main_config"
  shows "f (GetValue m k) = None"
proof -
  from assms(1) have "init_settings getenv Map.empty main_config = Inr m"
    by (simp add: InitializeConfigModule_def)
  from init_settings_value [OF this main_config_distinct assms(2)] show ?thesis
    by (simp add: checked_item_def GetValue_def)
qed

lemma needs_integer_None: "needs_integer key bits v = None \<longleftrightarrow> ParseInt bits v \<noteq> None"
  by (simp add: needs_integer_def)

lemma ttl_validate_None:
  "ttl_validate v = None \<longleftrightarrow> (\<exists>i. ParseInt 64 v = Some i \<and> -1 \<le> i)"
  by (auto simp: ttl_validate_def needs_integer_def split: option.split)

end
