(* ===== verification/Metrics.thy ===== *)
theory Metrics
  imports Prelude
begin

text \<open>
  The metric store, \<open>src/src/metricStore/metrics.go\<close>. The three vectors belong to the
  Prometheus client, which is not part of the repository, so the store is the sequence of
  operations the code performs on them, oldest first. \<open>series\<close> reads off what a vector
  holds for a tuple of label values when each operation does what its documentation says.
\<close>

datatype metric_vec = ProjectRuns | RunFailed | DependencyIssues

datatype metric_op =
    Inc metric_vec "string list"
  | SetTo metric_vec "string list" int
  | DeleteLabelValues metric_vec "string list"

definition CaptureRenovateProjectExecution ::
    "string \<Rightarrow> string \<Rightarrow> string \<Rightarrow> string \<Rightarrow> metric_op list \<Rightarrow> metric_op list" where
  "CaptureRenovateProjectExecution ns job project st ms =
     ms @ [Inc ProjectRuns [ns, job, project, st]]"

definition SetRunFailed ::
    "string \<Rightarrow> string \<Rightarrow> string \<Rightarrow> bool \<Rightarrow> metric_op list \<Rightarrow> metric_op list" where
  "SetRunFailed ns job project failed ms =
     (let value = (if failed then 1 else 0)
      in ms @ [SetTo RunFailed [ns, job, project] value])"

definition SetDependencyIssues ::
    "string \<Rightarrow> string \<Rightarrow> string \<Rightarrow> bool \<Rightarrow> metric_op list \<Rightarrow> metric_op list" where
  "SetDependencyIssues ns job project hasIssues ms =
     (let value = (if hasIssues then 1 else 0)
      in ms @ [SetTo DependencyIssues [ns, job, project] value])"

definition DeleteProjectMetrics ::
    "string \<Rightarrow> string \<Rightarrow> string \<Rightarrow> metric_op list \<Rightarrow> metric_op list" where
  "DeleteProjectMetrics ns job project ms =
     ms @ [DeleteLabelValues RunFailed [ns, job, project],
           DeleteLabelValues DependencyIssues [ns, job, project],
           DeleteLabelValues ProjectRuns [ns, job, project, ''completed''],
           DeleteLabelValues ProjectRuns [ns, job, project, ''failed'']]"

section \<open>What a vector holds\<close>

fun apply_op :: "metric_op \<Rightarrow> (metric_vec \<times> string list \<rightharpoonup> int) \<Rightarrow> (metric_vec \<times> string list \<rightharpoonup> int)"
where
  "apply_op (Inc v ls) m = m((v, ls) \<mapsto> (case m (v, ls) of None \<Rightarrow> 1 | Some n \<Rightarrow> n + 1))"
| "apply_op (SetTo v ls n) m = m((v, ls) \<mapsto> n)"
| "apply_op (DeleteLabelValues v ls) m = m((v, ls) := None)"

definition series :: "metric_op list \<Rightarrow> metric_vec \<times> string list \<rightharpoonup> int" where
  "series ms = fold apply_op ms Map.empty"

lemma series_append: "series (ms @ ns) = fold apply_op ns (series ms)"
  by (simp add: series_def)

lemma series_DeleteProjectMetrics:
  "series (DeleteProjectMetrics ns job project ms) k =
     (if k \<in> {(RunFailed, [ns, job, project]), (DependencyIssues, [ns, job, project]),
              (ProjectRuns, [ns, job, project, ''completed'']),
              (ProjectRuns, [ns, job, project, ''failed''])}
      then None else series ms k)"
  by (auto simp: DeleteProjectMetrics_def series_append)

end
