(* ===== verification/Health.thy ===== *)
theory Health
  imports Prelude
begin

text \<open>
  The health register, \<open>src/src/health/health.go\<close>: one record per scheduled job and per
  executed job, changed by a function under a lock and stamped with the time of the change.
  The functions handed to the setters mutate the record they get and return it; here they
  return the new one. The locale \<open>stamped_register\<close> is the contract the scheduler and the
  executor rely on.
\<close>

record single_scheduler_health =
  shName :: string
  shNextRun :: time
  shSchedule :: string
  shLastUpdate :: time
  shIsRunning :: bool

record scheduler_health =
  slRunning :: bool
  slScheduler :: "string \<rightharpoonup> single_scheduler_health"

record single_executor_health =
  ehIsRunning :: bool
  ehLastUpdate :: time

record executor_health =
  elRunning :: bool
  elExecutor :: "string \<rightharpoonup> single_executor_health"

record application_health =
  ahScheduler :: scheduler_health
  ahExecutor :: executor_health
  ahHealthy :: bool

definition NewHealthCheck :: application_health where
  "NewHealthCheck = \<lparr>ahScheduler = \<lparr>slRunning = False, slScheduler = Map.empty\<rparr>,
     ahExecutor = \<lparr>elRunning = False, elExecutor = Map.empty\<rparr>, ahHealthy = False\<rparr>"

text \<open>\<open>GetHealth\<close> copies the register: later changes do not reach the copy.\<close>

definition GetHealth :: "application_health \<Rightarrow> application_health" where
  "GetHealth h = \<lparr>ahScheduler = \<lparr>slRunning = slRunning (ahScheduler h),
        slScheduler = (\<lambda>k. slScheduler (ahScheduler h) k)\<rparr>,
      ahExecutor = \<lparr>elRunning = elRunning (ahExecutor h),
        elExecutor = (\<lambda>k. elExecutor (ahExecutor h) k)\<rparr>,
      ahHealthy = ahHealthy h\<rparr>"

definition SetExecutorHealth ::
    "time \<Rightarrow> (executor_health \<Rightarrow> executor_health) \<Rightarrow> application_health \<Rightarrow> application_health" where
  "SetExecutorHealth now fn h =
     (let e = fn (ahExecutor h);
          e = e\<lparr>elExecutor := (\<lambda>k. map_option (\<lambda>s. s\<lparr>ehLastUpdate := now\<rparr>) (elExecutor e k))\<rparr>
      in h\<lparr>ahExecutor := e\<rparr>)"

definition SetSchedulerHealth ::
    "time \<Rightarrow> (scheduler_health \<Rightarrow> scheduler_health) \<Rightarrow> application_health \<Rightarrow> application_health" where
  "SetSchedulerHealth now fn h =
     (let e = fn (ahScheduler h);
          e = e\<lparr>slScheduler := (\<lambda>k. map_option (\<lambda>s. s\<lparr>shLastUpdate := now\<rparr>) (slScheduler e k))\<rparr>
      in h\<lparr>ahScheduler := e\<rparr>)"

lemma GetHealth_id: "GetHealth h = h"
  by (simp add: GetHealth_def)

section \<open>The contract of a register\<close>

text \<open>
  A register of type \<open>'h\<close> seen through its entries: a setter applies the function to the
  part of the register it owns, keeps the set of entries the function leaves and stamps
  every one of them; the part it does not own is unchanged.
\<close>

locale stamped_register =
  fixes set_part :: "time \<Rightarrow> ('p \<Rightarrow> 'p) \<Rightarrow> 'h \<Rightarrow> 'h"
    and part :: "'h \<Rightarrow> 'p"
    and rest :: "'h \<Rightarrow> 'r"
    and entries :: "'p \<Rightarrow> string \<rightharpoonup> 'e"
    and stamp :: "time \<Rightarrow> 'e \<Rightarrow> 'e"
  assumes entries_set:
    "entries (part (set_part now fn h)) k = map_option (stamp now) (entries (fn (part h)) k)"
    and rest_set: "rest (set_part now fn h) = rest h"
    and stamp_stamp: "stamp t (stamp t' e) = stamp t e"
begin

lemma dom_set: "dom (entries (part (set_part now fn h))) = dom (entries (fn (part h)))"
  by (auto simp: entries_set dom_def)

lemma entry_updated:
  assumes "\<And>p. entries (fn p) = (entries p)(k \<mapsto> e)"
  shows "entries (part (set_part now fn h)) k = Some (stamp now e)"
    and "dom (entries (part (set_part now fn h))) = insert k (dom (entries (part h)))"
  by (simp_all add: entries_set assms dom_set)

lemma entry_removed:
  assumes "\<And>p. entries (fn p) = (entries p)(k := None)"
  shows "entries (part (set_part now fn h)) k = None"
    and "dom (entries (part (set_part now fn h))) = dom (entries (part h)) - {k}"
  by (simp_all add: entries_set assms dom_set)

end

interpretation exec_reg: stamped_register SetExecutorHealth ahExecutor
    "\<lambda>h. (ahScheduler h, ahHealthy h)" elExecutor "\<lambda>now s. s\<lparr>ehLastUpdate := now\<rparr>"
  by unfold_locales (simp_all add: SetExecutorHealth_def Let_def)

interpretation sched_reg: stamped_register SetSchedulerHealth ahScheduler
    "\<lambda>h. (ahExecutor h, ahHealthy h)" slScheduler "\<lambda>now s. s\<lparr>shLastUpdate := now\<rparr>"
  by unfold_locales (simp_all add: SetSchedulerHealth_def Let_def)

end
