(* ===== verification/Http_Client.thy ===== *)
theory Http_Client
  imports Json
begin

text \<open>
  Outgoing HTTP requests, as \<open>net/http\<close> takes and answers them: the error of a call covers a
  URL that does not parse and a connection that fails; the bytes of the body end where reading it
  fails. The URL escaping functions of \<open>net/url\<close> are here too.
\<close>

record http_call =
  hcMethod :: string
  hcUrl :: string
  hcHeaders :: "(string \<times> string) list"
  hcBody :: "string option"

record http_answer =
  haStatus :: nat
  haBody :: string

definition http_get :: "string \<Rightarrow> (string \<times> string) list \<Rightarrow> http_call" where
  "http_get url headers =
     \<lparr>hcMethod = ''GET'', hcUrl = url, hcHeaders = headers, hcBody = None\<rparr>"

section \<open>URL escaping\<close>

definition unreserved :: "char \<Rightarrow> bool" where
  "unreserved c \<longleftrightarrow>
     (let n = (of_char c :: nat)
      in (97 \<le> n \<and> n \<le> 122) \<or> (65 \<le> n \<and> n \<le> 90) \<or> (48 \<le> n \<and> n \<le> 57) \<or> c \<in> set ''-_.~'')"

definition percent :: "char \<Rightarrow> string" where
  "percent c = [CHR ''%'', ''0123456789ABCDEF'' ! (of_char c div 16),
     ''0123456789ABCDEF'' ! (of_char c mod 16)]"

text \<open>\<open>url.QueryEscape\<close> and \<open>url.PathEscape\<close>.\<close>

definition query_escape :: "string \<Rightarrow> string" where
  "query_escape s =
     concat (map (\<lambda>c. if unreserved c then [c] else if c = CHR '' '' then ''+'' else percent c) s)"

definition path_escape :: "string \<Rightarrow> string" where
  "path_escape s =
     concat (map (\<lambda>c. if unreserved c \<or> c \<in> set ''$&+=:@'' then [c] else percent c) s)"

text \<open>\<open>url.Values.Encode\<close> of single values, the keys in order.\<close>

definition encode_values :: "(string \<times> string) list \<Rightarrow> string" where
  "encode_values kvs =
     strings_Join (map (\<lambda>(k, v). query_escape k @ ''='' @ query_escape v) kvs) ''&''"

section \<open>Unescaping\<close>

definition hex_value :: "char \<Rightarrow> nat option" where
  "hex_value c = hex_digit (of_char c)"

text \<open>\<open>url.QueryUnescape\<close>: \<open>None\<close> for a malformed escape.\<close>

fun query_unescape :: "string \<Rightarrow> string option" where
  "query_unescape [] = Some []"
| "query_unescape (c # cs) =
     (if c = CHR ''%'' then
        (case cs of
           a # b # rest \<Rightarrow>
             (case (hex_value a, hex_value b) of
                (Some x, Some y) \<Rightarrow> map_option (\<lambda>s. char_of (16 * x + y) # s) (query_unescape rest)
              | _ \<Rightarrow> None)
         | _ \<Rightarrow> None)
      else map_option (\<lambda>s. (if c = CHR ''+'' then CHR '' '' else c) # s) (query_unescape cs))"

lemma percent_digits:
  "list_all (\<lambda>n. hex_value (''0123456789ABCDEF'' ! n) = Some n) [0..<16]"
  by code_simp

lemma unescape_percent:
  "query_unescape (percent c @ s) = map_option ((#) c) (query_unescape s)"
proof -
  have "(of_char c :: nat) < 256" by simp
  then have "of_char c div 16 < (16 :: nat)" by (simp add: less_mult_imp_div_less)
  then have "hex_value (''0123456789ABCDEF'' ! (of_char c div 16)) = Some (of_char c div 16)"
    and "hex_value (''0123456789ABCDEF'' ! (of_char c mod 16)) = Some (of_char c mod 16)"
    using percent_digits by (simp_all only: list_all_iff set_upt atLeastLessThan_iff ball_simps) auto
  moreover have "char_of (16 * (of_char c div 16) + of_char c mod 16 :: nat) = c"
    by (simp only: mult_div_mod_eq char_of_char)
  ultimately show ?thesis
    by (simp only: percent_def append_Cons append_Nil query_unescape.simps if_True list.case
        option.case prod.case refl)
qed

lemma unescape_unreserved:
  assumes "unreserved c"
  shows "query_unescape (c # s) = map_option ((#) c) (query_unescape s)"
proof -
  have "c \<noteq> CHR ''%'' \<and> c \<noteq> CHR ''+''" using assms by (auto simp: unreserved_def)
  then show ?thesis by simp
qed

lemma query_unescape_escape: "query_unescape (query_escape s) = Some s"
proof (induction s)
  case Nil
  then show ?case by (simp add: query_escape_def)
next
  case (Cons c s)
  have split: "query_escape (c # s) =
      (if unreserved c then [c] else if c = CHR '' '' then ''+'' else percent c) @ query_escape s"
    by (simp add: query_escape_def)
  consider "unreserved c" | "\<not> unreserved c" "c = CHR '' ''" | "\<not> unreserved c" "c \<noteq> CHR '' ''"
    by blast
  then show ?case
  proof cases
    case 1
    then show ?thesis
      unfolding split using Cons unescape_unreserved [OF 1, of "query_escape s"]
      by (simp only: if_True append_Cons append_Nil option.map)
  next
    case 2
    then show ?thesis unfolding split using Cons by simp
  next
    case 3
    then show ?thesis unfolding split using Cons by (simp add: unescape_percent)
  qed
qed

end
