(* ===== verification/Kube.thy ===== *)
theory Kube
  imports Project_Status Config Metrics Health Http_Client
begin

text \<open>
  The operator's surroundings and its own state.

  The API server is reached through controller-runtime and client-go, which are not part of
  the repository: every call the code makes of them is a field of the record \<open>env\<close>, an
  argument of the operations that use it, over an abstract world \<open>'w\<close>. A read is a function
  of the world, a write returns the world it leaves and an error or none. The operator's own
  state is the record \<open>sys\<close>: the configuration, the health register, the metric operations
  performed, the clean-up and discovery goroutines started and, as an account of what it did, the writes
  that succeeded and the requests sent to other services, in order.

  \<open>kube_laws\<close> and \<open>retry_law\<close> name the documented behaviour that properties rely on; they
  are stated for any interference \<open>I\<close> of other writers between two calls.

  Modelled code: \<open>loadRenovateJob.go\<close> and \<open>updateRenovateJob.go\<close> of
  \<open>src/src/internal/crdManager\<close>, and the types of \<open>jobManager.go\<close>.
\<close>

section \<open>Kubernetes jobs and pods\<close>

record container =
  cnName :: string
  cnCommand :: "string list"
  cnArgs :: "string list"
  cnImage :: string
  cnEnv :: "env_var list"
  cnEnvFrom :: "json list"
  cnResources :: json
  cnVolumeMounts :: "json list"
  cnSecurityContext :: json

record pod_spec =
  pdServiceAccountName :: string
  pdImagePullSecrets :: "string list"
  pdTerminationGracePeriodSeconds :: "int64 option"
  pdContainers :: "container list"
  pdSecurityContext :: json
  pdAutomountServiceAccountToken :: "bool option"
  pdRestartPolicy :: string
  pdDNSPolicy :: string
  pdNodeSelector :: "string \<rightharpoonup> string"
  pdAffinity :: "json option"
  pdTolerations :: "json list"
  pdTopologySpreadConstraints :: "json list"
  pdVolumes :: "json list"

record job_condition =
  jcType :: string
  jcStatus :: string

text \<open>
  \<open>batchv1.Job\<close>, the fields the code touches. \<open>jbLabels\<close> stands for the labels of the job
  and of its pod template: the job definitions make both fields the same Go map, so a label
  written to one is in the other; the same holds for the annotations. \<open>jbOwner\<close> is the
  controller reference and \<open>jbSelector\<close> the selector the server generates.
\<close>

record k8s_job =
  jbName :: string
  jbGenerateName :: string
  jbNamespace :: string
  jbLabels :: "string \<rightharpoonup> string"
  jbAnnotations :: "string \<rightharpoonup> string"
  jbOwner :: json
  jbActiveDeadlineSeconds :: "int64 option"
  jbBackoffLimit :: "int32 option"
  jbTTLSecondsAfterFinished :: "int32 option"
  jbSelector :: json
  jbPodSpec :: pod_spec
  jbConditions :: "job_condition list"
  jbStartTime :: "time option"
  jbCompletionTime :: "time option"
  jbFailed :: int32
  jbSucceeded :: int32

text \<open>
  \<open>corev1.Pod\<close>: \<open>poFirstContainer\<close> is the name of \<open>Spec.Containers[0]\<close>; the API admits no
  pod without a container.
\<close>

record k8s_pod =
  poName :: string
  poNamespace :: string
  poCreationTimestamp :: time
  poPhase :: string
  poStartTime :: "time option"
  poFirstContainer :: string

datatype job_type = DiscoveryJobType | ExecutorJobType

fun job_type_string :: "job_type \<Rightarrow> string" where
  "job_type_string DiscoveryJobType = ''discovery''"
| "job_type_string ExecutorJobType = ''executor''"

record job_selector =
  seJobName :: string
  seJobType :: job_type
  seNamespace :: string
  seGeneration :: "string option"

section \<open>State and environment\<close>

datatype kube_call =
    StatusUpdated renovate_job
  | ObjectUpdated renovate_job
  | JobCreated k8s_job
  | JobDeleted k8s_job

record 'w sys =
  syWorld :: 'w
  sySettings :: settings
  syHealth :: application_health
  syMetrics :: "metric_op list"
  syCleanups :: "(job_selector \<times> string) list"
  syDiscoveries :: "(string \<times> string \<times> renovate_job \<times> string) list"
  syHttp :: "http_call list"
  syCalls :: "kube_call list"

text \<open>
  What the code calls of the client libraries. \<open>eClientset\<close> is the error of building the
  typed client set; \<open>ePodsOfSelector\<close> and \<open>ePodsOfJobName\<close> are the two pod queries, and
  \<open>ePodLogs\<close> fetches the log of a container (\<open>None\<close>: the pod's only one).
  \<open>eSetControllerReference\<close> gives the owner reference that
  \<open>controllerutil.SetControllerReference\<close> writes into the job. \<open>eHttpDo\<close> is a request to a service.
\<close>

record 'w env =
  eNow :: "'w \<Rightarrow> time"
  eSleep :: "time \<Rightarrow> 'w \<Rightarrow> 'w"
  eGetRenovateJob :: "string \<Rightarrow> string \<Rightarrow> 'w \<Rightarrow> go_error + renovate_job"
  eListRenovateJobs :: "'w \<Rightarrow> go_error + renovate_job list"
  eUpdateStatus :: "renovate_job \<Rightarrow> 'w \<Rightarrow> go_error option \<times> 'w"
  eUpdateObject :: "renovate_job \<Rightarrow> 'w \<Rightarrow> go_error option \<times> 'w"
  eListJobs :: "string \<Rightarrow> (string \<rightharpoonup> string) \<Rightarrow> 'w \<Rightarrow> go_error + k8s_job list"
  eCreateJob :: "k8s_job \<Rightarrow> 'w \<Rightarrow> go_error option \<times> 'w"
  eDeleteJob :: "k8s_job \<Rightarrow> 'w \<Rightarrow> go_error option \<times> 'w"
  eSetControllerReference :: "renovate_job \<Rightarrow> k8s_job \<Rightarrow> go_error + json"
  eGetSecret :: "string \<Rightarrow> string \<Rightarrow> 'w \<Rightarrow> go_error + (string \<rightharpoonup> string)"
  eClientset :: "'w \<Rightarrow> go_error option"
  ePodsOfSelector :: "string \<Rightarrow> json \<Rightarrow> 'w \<Rightarrow> go_error + k8s_pod list"
  ePodsOfJobName :: "string \<Rightarrow> string \<Rightarrow> 'w \<Rightarrow> go_error + k8s_pod list"
  ePodLogs :: "string \<Rightarrow> string \<Rightarrow> string option \<Rightarrow> 'w \<Rightarrow> go_error + string"
  eHttpDo :: "http_call \<Rightarrow> 'w \<Rightarrow> (go_error + http_answer) \<times> 'w"
  eRetryOnConflict :: "('w sys \<Rightarrow> go_error option \<times> 'w sys) \<Rightarrow> 'w sys \<Rightarrow> go_error option \<times> 'w sys"

text \<open>A write of the client, with its success noted in the account.\<close>

definition kube_write ::
    "('w \<Rightarrow> go_error option \<times> 'w) \<Rightarrow> kube_call \<Rightarrow> 'w sys \<Rightarrow> go_error option \<times> 'w sys" where
  "kube_write f c s =
     (case f (syWorld s) of
        (Some e, w) \<Rightarrow> (Some e, s\<lparr>syWorld := w\<rparr>)
      | (None, w) \<Rightarrow> (None, s\<lparr>syWorld := w, syCalls := syCalls s @ [c]\<rparr>))"

text \<open>A request to a service, noted in the account.\<close>

definition http_do :: "'w env \<Rightarrow> http_call \<Rightarrow> 'w sys \<Rightarrow> (go_error + http_answer) \<times> 'w sys" where
  "http_do E c s =
     (case eHttpDo E c (syWorld s) of (x, w) \<Rightarrow> (x, s\<lparr>syWorld := w, syHttp := syHttp s @ [c]\<rparr>))"

text \<open>Requests leave everything alone but the world and their account.\<close>

definition http_only :: "'w sys \<Rightarrow> 'w sys \<Rightarrow> bool" where
  "http_only s s' \<longleftrightarrow> (\<exists>w cs. s' = s\<lparr>syWorld := w, syHttp := syHttp s @ cs\<rparr>)"

lemma http_only_refl [simp]: "http_only s s"
  unfolding http_only_def by (intro exI [of _ "syWorld s"] exI [of _ "[]"]) simp

lemma http_only_trans:
  assumes "http_only s s'" and "http_only s' s''"
  shows "http_only s s''"
proof -
  from assms obtain w cs w' cs' where "s' = s\<lparr>syWorld := w, syHttp := syHttp s @ cs\<rparr>"
    and "s'' = s'\<lparr>syWorld := w', syHttp := syHttp s' @ cs'\<rparr>" by (auto simp: http_only_def)
  then have "s'' = s\<lparr>syWorld := w', syHttp := syHttp s @ (cs @ cs')\<rparr>" by simp
  then show ?thesis unfolding http_only_def by blast
qed

lemma http_do_only: "http_do E c s = (r, s') \<Longrightarrow> http_only s s'"
  by (auto simp: http_do_def http_only_def split: prod.splits)

lemma http_do_calls: "http_do E c s = (r, s') \<Longrightarrow> syHttp s' = syHttp s @ [c]"
  by (auto simp: http_do_def split: prod.splits)

definition loadRenovateJob ::
    "'w env \<Rightarrow> string \<Rightarrow> string \<Rightarrow> 'w sys \<Rightarrow> go_error + renovate_job" where
  "loadRenovateJob E name namespace s = eGetRenovateJob E name namespace (syWorld s)"

definition reloadRenovateJob ::
    "'w env \<Rightarrow> renovate_job \<Rightarrow> 'w sys \<Rightarrow> go_error + renovate_job" where
  "reloadRenovateJob E rj s = loadRenovateJob E (rjName rj) (rjNamespace rj) s"

definition updateRenovateJobStatus ::
    "'w env \<Rightarrow> renovate_job \<Rightarrow> 'w sys \<Rightarrow> (go_error + renovate_job) \<times> 'w sys" where
  "updateRenovateJobStatus E rj s =
     (case kube_write (eUpdateStatus E rj) (StatusUpdated rj) s of
        (Some e, s) \<Rightarrow> (Inl e, s)
      | (None, s) \<Rightarrow> (reloadRenovateJob E rj s, s))"

text \<open>The error of a result, dropping the value, as \<open>_, err = ...\<close> does.\<close>

fun err_of :: "(go_error + 'a) \<times> 's \<Rightarrow> go_error option \<times> 's" where
  "err_of (Inl e, s) = (Some e, s)"
| "err_of (Inr _, s) = (None, s)"

section \<open>Documented behaviour of the API server\<close>

text \<open>
  The stored resources, seen as specification and status by name and namespace.
\<close>

type_synonym job_view = "string \<times> string \<rightharpoonup> renovate_job_spec \<times> renovate_job_status"

definition view :: "'w env \<Rightarrow> 'w \<Rightarrow> job_view" where
  "view E w = (\<lambda>(n, ns). case eGetRenovateJob E n ns w of
     Inr rj \<Rightarrow> Some (rjSpec rj, rjStatus rj) | Inl _ \<Rightarrow> None)"

text \<open>
  A status travels to the server as JSON, where \<open>metav1.Time\<close> keeps whole seconds.
\<close>

definition api_time :: "time \<Rightarrow> time" where
  "api_time t = t div second * second"

definition stored_project :: "project_status \<Rightarrow> project_status" where
  "stored_project p = p\<lparr>psLastRun := api_time (psLastRun p)\<rparr>"

definition stored_status :: "renovate_job_status \<Rightarrow> renovate_job_status" where
  "stored_status st = st\<lparr>rsProjects := map stored_project (rsProjects st)\<rparr>"

lemma stored_project_simps [simp]:
  "psName (stored_project p) = psName p"
  "psStatus (stored_project p) = psStatus p"
  "psPriority (stored_project p) = psPriority p"
  "psDuration (stored_project p) = psDuration p"
  "psRenovateResultStatus (stored_project p) = psRenovateResultStatus p"
  by (simp_all add: stored_project_def)

lemma stored_status_simps [simp]:
  "rsProjects (stored_status st) = map stored_project (rsProjects st)"
  "rsExecutionOptions (stored_status st) = rsExecutionOptions st"
  by (simp_all add: stored_status_def)

lemma running_stored [simp]: "running (map stored_project ps) = running ps"
  by (induction ps) auto

text \<open>
  \<open>kube_laws I E\<close>: a get returns the object asked for and never fails with a conflict; an accepted status update replaces
  the status of that object and nothing else; a refused one, and every other write and every
  wait, leave the resources alone. Between two calls other writers may change the resources
  as \<open>I\<close> allows, a reflexive and transitive relation; \<open>I = (=)\<close> is a server with one
  client.
\<close>

definition interference :: "(job_view \<Rightarrow> job_view \<Rightarrow> bool) \<Rightarrow> bool" where
  "interference I \<longleftrightarrow> (\<forall>v. I v v) \<and> (\<forall>u v w. I u v \<longrightarrow> I v w \<longrightarrow> I u w)"

definition law_get :: "'w env \<Rightarrow> bool" where
  "law_get E \<longleftrightarrow> (\<forall>n ns w. case eGetRenovateJob E n ns w of
     Inr rj \<Rightarrow> rjName rj = n \<and> rjNamespace rj = ns | Inl e \<Rightarrow> \<not> is_conflict e)"

definition law_updated :: "(job_view \<Rightarrow> job_view \<Rightarrow> bool) \<Rightarrow> 'w env \<Rightarrow> bool" where
  "law_updated I E \<longleftrightarrow> (\<forall>rj w w'. eUpdateStatus E rj w = (None, w') \<longrightarrow>
     (\<exists>sp st. view E w (rjName rj, rjNamespace rj) = Some (sp, st) \<and>
        I ((view E w)((rjName rj, rjNamespace rj) \<mapsto> (sp, stored_status (rjStatus rj))))
          (view E w')))"

definition law_refused :: "(job_view \<Rightarrow> job_view \<Rightarrow> bool) \<Rightarrow> 'w env \<Rightarrow> bool" where
  "law_refused I E \<longleftrightarrow>
     (\<forall>rj w w' e. eUpdateStatus E rj w = (Some e, w') \<longrightarrow> I (view E w) (view E w'))"

definition law_other :: "(job_view \<Rightarrow> job_view \<Rightarrow> bool) \<Rightarrow> 'w env \<Rightarrow> bool" where
  "law_other I E \<longleftrightarrow>
     (\<forall>j w w' r. eCreateJob E j w = (r, w') \<longrightarrow> I (view E w) (view E w')) \<and>
     (\<forall>j w w' r. eDeleteJob E j w = (r, w') \<longrightarrow> I (view E w) (view E w')) \<and>
     (\<forall>d w. I (view E w) (view E (eSleep E d w)))"

definition kube_laws :: "(job_view \<Rightarrow> job_view \<Rightarrow> bool) \<Rightarrow> 'w env \<Rightarrow> bool" where
  "kube_laws I E \<longleftrightarrow> law_get E \<and> law_updated I E \<and> law_refused I E \<and> law_other I E"

text \<open>
  \<open>retry.RetryOnConflict\<close>: runs the function once, and again after a pause as long as it
  fails with a conflict and attempts are left; the last run's outcome is the result.
\<close>

inductive retries ::
    "(job_view \<Rightarrow> job_view \<Rightarrow> bool) \<Rightarrow> 'w env \<Rightarrow> ('w sys \<Rightarrow> go_error option \<times> 'w sys) \<Rightarrow>
     'w sys \<Rightarrow> go_error option \<times> 'w sys \<Rightarrow> bool"
  for I E f where
  last_run: "f s = r \<Longrightarrow> retries I E f s r"
| run_again: "f s = (Some e, s1) \<Longrightarrow> is_conflict e \<Longrightarrow> I (view E (syWorld s1)) (view E w) \<Longrightarrow>
     retries I E f (s1\<lparr>syWorld := w\<rparr>) r \<Longrightarrow> retries I E f s r"

definition retry_law :: "(job_view \<Rightarrow> job_view \<Rightarrow> bool) \<Rightarrow> 'w env \<Rightarrow> bool" where
  "retry_law I E \<longleftrightarrow> (\<forall>f s. retries I E f s (eRetryOnConflict E f s))"

abbreviation sview :: "'w env \<Rightarrow> 'w sys \<Rightarrow> job_view" where
  "sview E s \<equiv> view E (syWorld s)"

lemma interference_refl [intro]: "interference I \<Longrightarrow> I v v"
  by (simp add: interference_def)

lemma interference_trans: "interference I \<Longrightarrow> I u v \<Longrightarrow> I v w \<Longrightarrow> I u w"
  unfolding interference_def by blast

lemma interference_eq: "interference (=)"
  by (simp add: interference_def)

lemma kube_laws_get:
  assumes "kube_laws I E" and "eGetRenovateJob E n ns w = Inr rj"
  shows "rjName rj = n \<and> rjNamespace rj = ns"
proof -
  from assms(1) have "law_get E" by (simp only: kube_laws_def)
  from this [unfolded law_get_def, THEN spec, THEN spec, THEN spec, of n ns w]
  show ?thesis by (simp add: assms(2))
qed

lemma kube_laws_get_error:
  assumes "kube_laws I E" and "eGetRenovateJob E n ns w = Inl e"
  shows "\<not> is_conflict e"
proof -
  from assms(1) have "law_get E" by (simp only: kube_laws_def)
  from this [unfolded law_get_def, THEN spec, THEN spec, THEN spec, of n ns w]
  show ?thesis by (simp add: assms(2))
qed

lemma kube_laws_updated:
  assumes "kube_laws I E" and "eUpdateStatus E rj w = (None, w')"
  shows "\<exists>sp st. view E w (rjName rj, rjNamespace rj) = Some (sp, st) \<and>
       I ((view E w)((rjName rj, rjNamespace rj) \<mapsto> (sp, stored_status (rjStatus rj))))
         (view E w')"
  using assms unfolding kube_laws_def law_updated_def by blast

lemma kube_laws_refused:
  assumes "kube_laws I E" and "eUpdateStatus E rj w = (Some e, w')"
  shows "I (view E w) (view E w')"
  using assms unfolding kube_laws_def law_refused_def by blast

lemma kube_laws_create:
  assumes "kube_laws I E" and "eCreateJob E j w = (r, w')"
  shows "I (view E w) (view E w')"
  using assms unfolding kube_laws_def law_other_def by blast

lemma kube_laws_delete:
  assumes "kube_laws I E" and "eDeleteJob E j w = (r, w')"
  shows "I (view E w) (view E w')"
  using assms unfolding kube_laws_def law_other_def by blast

lemma kube_laws_sleep: "kube_laws I E \<Longrightarrow> I (view E w) (view E (eSleep E d w))"
  unfolding kube_laws_def law_other_def by blast

lemma kube_write_calls:
  "kube_write f c s = (r, s') \<Longrightarrow>
   syCalls s' = (if r = None then syCalls s @ [c] else syCalls s)"
  by (auto simp: kube_write_def split: prod.splits option.splits)

lemma kube_write_frame:
  assumes "kube_write f c s = (r, s')"
  shows "sySettings s' = sySettings s" and "syHealth s' = syHealth s"
    and "syMetrics s' = syMetrics s" and "syCleanups s' = syCleanups s"
    and "syDiscoveries s' = syDiscoveries s" and "syHttp s' = syHttp s"
  using assms by (auto simp: kube_write_def split: prod.splits option.splits)

lemma kube_write_world:
  "kube_write f c s = (r, s') \<Longrightarrow> f (syWorld s) = (r, syWorld s')"
  by (auto simp: kube_write_def split: prod.splits option.splits)

lemma load_view:
  "loadRenovateJob E n ns s = Inr rj \<Longrightarrow> sview E s (n, ns) = Some (rjSpec rj, rjStatus rj)"
  by (simp add: loadRenovateJob_def view_def)

lemma load_view_None:
  "loadRenovateJob E n ns s = Inl e \<Longrightarrow> sview E s (n, ns) = None"
  by (simp add: loadRenovateJob_def view_def)

lemma load_identity:
  "kube_laws I E \<Longrightarrow> loadRenovateJob E n ns s = Inr rj \<Longrightarrow> rjName rj = n \<and> rjNamespace rj = ns"
  by (simp add: loadRenovateJob_def kube_laws_get)

end
