(* ===== verification/Sha256.thy ===== *)
theory Sha256
  imports Prelude
begin

text \<open>
  \<open>crypto/sha256\<close> and \<open>crypto/hmac\<close> of the standard library, as FIPS 180-4 and RFC 2104
  define them: job names carry a SHA-256 prefix and webhook signatures are HMAC-SHA256. All
  arithmetic is on 32-bit words and wraps.
\<close>

unbundle bit_operations_syntax

type_synonym byte = "8 word"

definition string_bytes :: "string \<Rightarrow> byte list" where
  "string_bytes = map of_char"

text \<open>
  The round constants, in decimal: the first 32 bits of the fractional parts of the cube roots of
  the first 64 primes.
\<close>

definition sha_k :: "32 word list" where
  "sha_k = [
    1116352408, 1899447441, 3049323471, 3921009573, 961987163, 1508970993,
    2453635748, 2870763221, 3624381080, 310598401, 607225278, 1426881987,
    1925078388, 2162078206, 2614888103, 3248222580, 3835390401, 4022224774,
    264347078, 604807628, 770255983, 1249150122, 1555081692, 1996064986,
    2554220882, 2821834349, 2952996808, 3210313671, 3336571891, 3584528711,
    113926993, 338241895, 666307205, 773529912, 1294757372, 1396182291,
    1695183700, 1986661051, 2177026350, 2456956037, 2730485921, 2820302411,
    3259730800, 3345764771, 3516065817, 3600352804, 4094571909, 275423344,
    430227734, 506948616, 659060556, 883997877, 958139571, 1322822218,
    1537002063, 1747873779, 1955562222, 2024104815, 2227730452, 2361852424,
    2428436474, 2756734187, 3204031479, 3329325298]"

type_synonym sha_state = "32 word \<times> 32 word \<times> 32 word \<times> 32 word \<times> 32 word \<times> 32 word \<times> 32 word \<times> 32 word"

definition sha_init :: sha_state where
  "sha_init = (0x6a09e667, 0xbb67ae85, 0x3c6ef372, 0xa54ff53a,
               0x510e527f, 0x9b05688c, 0x1f83d9ab, 0x5be0cd19)"

definition big_sigma0 :: "32 word \<Rightarrow> 32 word" where
  "big_sigma0 x = word_rotr 2 x XOR word_rotr 13 x XOR word_rotr 22 x"

definition big_sigma1 :: "32 word \<Rightarrow> 32 word" where
  "big_sigma1 x = word_rotr 6 x XOR word_rotr 11 x XOR word_rotr 25 x"

definition small_sigma0 :: "32 word \<Rightarrow> 32 word" where
  "small_sigma0 x = word_rotr 7 x XOR word_rotr 18 x XOR drop_bit 3 x"

definition small_sigma1 :: "32 word \<Rightarrow> 32 word" where
  "small_sigma1 x = word_rotr 17 x XOR word_rotr 19 x XOR drop_bit 10 x"

text \<open>The message schedule, newest word first: each new word reads the sixteen before it.\<close>

fun extend_schedule :: "nat \<Rightarrow> 32 word list \<Rightarrow> 32 word list" where
  "extend_schedule 0 ws = ws"
| "extend_schedule (Suc n) ws =
     extend_schedule n
       ((small_sigma1 (ws ! 1) + ws ! 6 + small_sigma0 (ws ! 14) + ws ! 15) # ws)"

fun sha_round :: "32 word \<times> 32 word \<Rightarrow> sha_state \<Rightarrow> sha_state" where
  "sha_round (k, w) (a, b, c, d, e, f, g, h) =
     (let t1 = h + big_sigma1 e + ((e AND f) XOR (NOT e AND g)) + k + w;
          t2 = big_sigma0 a + ((a AND b) XOR (a AND c) XOR (b AND c))
      in (t1 + t2, a, b, c, d + t1, e, f, g))"

fun word_of_bytes :: "byte list \<Rightarrow> 32 word" where
  "word_of_bytes bs = foldl (\<lambda>acc b. push_bit 8 acc OR ucast b) 0 bs"

fun bytes_of_word :: "32 word \<Rightarrow> byte list" where
  "bytes_of_word w = [ucast (drop_bit 24 w), ucast (drop_bit 16 w), ucast (drop_bit 8 w), ucast w]"

fun add_state :: "sha_state \<Rightarrow> sha_state \<Rightarrow> sha_state" where
  "add_state (a, b, c, d, e, f, g, h) (a', b', c', d', e', f', g', h') =
     (a + a', b + b', c + c', d + d', e + e', f + f', g + g', h + h')"

fun chunks :: "nat \<Rightarrow> nat \<Rightarrow> 'a list \<Rightarrow> 'a list list" where
  "chunks k 0 xs = []"
| "chunks k (Suc n) xs = take k xs # chunks k n (drop k xs)"

definition sha_block :: "byte list \<Rightarrow> sha_state \<Rightarrow> sha_state" where
  "sha_block block st =
     (let ws = rev (extend_schedule 48 (rev (map word_of_bytes (chunks 4 16 block))))
      in add_state st (fold sha_round (zip sha_k ws) st))"

definition sha_pad :: "byte list \<Rightarrow> byte list" where
  "sha_pad msg =
     (let n = length msg; zeros = (119 - n mod 64) mod 64; bits = (of_nat (8 * n) :: 64 word)
      in msg @ [0x80] @ replicate zeros 0 @
         map (\<lambda>i. ucast (drop_bit i bits)) [56, 48, 40, 32, 24, 16, 8, 0])"

definition sha256_Sum256 :: "byte list \<Rightarrow> byte list" where
  "sha256_Sum256 msg =
     (let p = sha_pad msg;
          (a, b, c, d, e, f, g, h) = fold sha_block (chunks 64 (length p div 64) p) sha_init
      in concat (map bytes_of_word [a, b, c, d, e, f, g, h]))"

text \<open>\<open>hmac.New(sha256.New, key)\<close>, written once and summed.\<close>

definition hmac_sha256 :: "byte list \<Rightarrow> byte list \<Rightarrow> byte list" where
  "hmac_sha256 key msg =
     (let k = (if length key > 64 then sha256_Sum256 key else key);
          k = k @ replicate (64 - length k) 0;
          inner = sha256_Sum256 (map (\<lambda>b. b XOR 0x36) k @ msg)
      in sha256_Sum256 (map (\<lambda>b. b XOR 0x5c) k @ inner))"

text \<open>The verb \<open>%x\<close> on a byte slice.\<close>

definition hex_digit :: "nat \<Rightarrow> char" where
  "hex_digit n = ''0123456789abcdef'' ! n"

definition hex_bytes :: "byte list \<Rightarrow> string" where
  "hex_bytes bs = concat (map (\<lambda>b. [hex_digit (unat b div 16), hex_digit (unat b mod 16)]) bs)"

lemma length_Sum256: "length (sha256_Sum256 msg) = 32"
  by (simp add: sha256_Sum256_def Let_def split: prod.split)

lemma length_hmac: "length (hmac_sha256 key msg) = 32"
  by (simp add: hmac_sha256_def length_Sum256 Let_def)

lemma length_hex_bytes [simp]: "length (hex_bytes bs) = 2 * length bs"
  by (induction bs) (simp_all add: hex_bytes_def)

lemma hex_digit_set:
  assumes "n < 16"
  shows "hex_digit n \<in> set ''0123456789abcdef''"
proof -
  have "''0123456789abcdef'' ! n \<in> set ''0123456789abcdef''"
    by (rule nth_mem) (use assms in simp)
  then show ?thesis by (simp only: hex_digit_def)
qed

lemma set_hex_bytes: "set (hex_bytes bs) \<subseteq> set ''0123456789abcdef''"
proof -
  have "unat b div 16 < 16" and "unat b mod 16 < 16" for b :: byte
  proof -
    have "unat b < 2 ^ LENGTH(8)" by (rule unsigned_less)
    then show "unat b div 16 < 16" and "unat b mod 16 < 16" by auto
  qed
  then have "hex_digit (unat b div 16) \<in> set ''0123456789abcdef''"
    and "hex_digit (unat b mod 16) \<in> set ''0123456789abcdef''" for b :: byte
    by (intro hex_digit_set; blast)+
  then show ?thesis
    by (induction bs) (simp_all only: hex_bytes_def list.map concat.simps set_append list.set
        Un_subset_iff insert_subset empty_subsetI simp_thms)
qed

text \<open>The padded message fills whole 64-byte blocks, so every byte is hashed.\<close>

lemma length_sha_pad: "64 dvd length (sha_pad msg)"
proof -
  have "64 dvd n + 1 + (119 - n mod 64) mod 64 + 8" for n :: nat
  proof -
    obtain q r where n: "n = 64 * q + r" and r: "r < 64" "n mod 64 = r"
      by (metis mod_less_divisor mult_div_mod_eq zero_less_numeral)
    show ?thesis
    proof (cases "r \<le> 55")
      case True
      then have "(119 - r) mod 64 = 55 - r"
        using mod_add_self1 [of 64 "55 - r"] by (simp add: Nat.diff_add_assoc)
      with n r True have "n + 1 + (119 - n mod 64) mod 64 + 8 = 64 * (q + 1)" by simp
      then show ?thesis by (metis dvd_triv_left)
    next
      case False
      with n r have "n + 1 + (119 - n mod 64) mod 64 + 8 = 64 * (q + 2)" by simp
      then show ?thesis by (metis dvd_triv_left)
    qed
  qed
  moreover have "length (sha_pad msg) =
      length msg + 1 + (119 - length msg mod 64) mod 64 + 8"
    by (simp add: sha_pad_def Let_def)
  ultimately show ?thesis by metis
qed

end
