(* ===== verification/Job_Names.thy ===== *)
theory Job_Names
  imports Api_Types Sha256
begin

text \<open>
  Names of Kubernetes jobs and the provider's endpoint: \<open>src/src/internal/utils/jobNames.go\<close>
  and \<open>src/src/internal/utils/platformEndpoints.go\<close>.
\<close>

definition kubernetesCompatibleName :: "string \<Rightarrow> string" where
  "kubernetesCompatibleName name =
     (let name = replace_char CHR ''/'' CHR ''-'' name;
          name = replace_char CHR ''_'' CHR ''-'' name;
          name = replace_char CHR ''.'' CHR ''-'' name;
          name = replace_char CHR ''~'' CHR ''-'' name
      in strings_ToLower name)"

definition hash_suffix :: "string \<Rightarrow> string" where
  "hash_suffix fullName = hex_bytes (take 4 (sha256_Sum256 (string_bytes fullName)))"

definition ExecutorJobName :: "renovate_job \<Rightarrow> string \<Rightarrow> string" where
  "ExecutorJobName rj project =
     (let fullName = rjName rj @ ''-'' @ project;
          fullName = kubernetesCompatibleName fullName;
          hashStr = hash_suffix fullName;
          fullName = (if length fullName > 54 then take 54 fullName else fullName)
      in fullName @ ''-'' @ hashStr)"

definition DiscoveryJobName :: "renovate_job \<Rightarrow> string" where
  "DiscoveryJobName rj =
     (let baseName = kubernetesCompatibleName (rjName rj);
          fullName = baseName @ ''-discovery'';
          hashStr = hash_suffix fullName;
          baseName = (if length baseName > 44 then take 44 baseName else baseName)
      in baseName @ ''-discovery-'' @ hashStr)"

definition LegacyExecutorJobName :: "renovate_job \<Rightarrow> string \<Rightarrow> string" where
  "LegacyExecutorJobName rj project =
     (let jobName = rjName rj @ ''-'' @ project;
          jobName = replace_char CHR ''/'' CHR ''-'' jobName;
          jobName = replace_char CHR ''_'' CHR ''-'' jobName;
          jobName = replace_char CHR ''.'' CHR ''-'' jobName
      in strings_ToLower jobName)"

definition LegacyDiscoveryJobName :: "renovate_job \<Rightarrow> string" where
  "LegacyDiscoveryJobName rj = rjName rj @ ''-discovery''"

definition GetPlatformAndEndpoint :: "renovate_provider option \<Rightarrow> string \<times> string" where
  "GetPlatformAndEndpoint provider =
     (case provider of
        None \<Rightarrow> ([], [])
      | Some p \<Rightarrow>
          let endpoint = prEndpoint p;
              endpoint = (if endpoint = [] then
                            (if prName p = ''github'' then ''https://api.github.com''
                             else if prName p = ''gitlab'' then ''https://gitlab.com/api/v4''
                             else endpoint)
                          else endpoint)
          in (prName p, endpoint))"

section \<open>Lemmas\<close>

lemma length_hash_suffix [simp]: "length (hash_suffix s) = 8"
  by (simp add: hash_suffix_def length_Sum256)

lemma set_hash_suffix: "set (hash_suffix s) \<subseteq> set ''0123456789abcdef''"
  unfolding hash_suffix_def by (rule set_hex_bytes)

lemma length_kubernetesCompatibleName [simp]:
  "length (kubernetesCompatibleName s) = length s"
  by (simp add: kubernetesCompatibleName_def Let_def)

text \<open>The effect of the name normalisation on one character.\<close>

definition kube_char :: "char \<Rightarrow> char" where
  "kube_char c = lower_char (if c \<in> set ''/_.~'' then CHR ''-'' else c)"

lemma kubernetesCompatibleName_map: "kubernetesCompatibleName s = map kube_char s"
  by (auto simp: kubernetesCompatibleName_def replace_char_def strings_ToLower_def kube_char_def)

text \<open>The characters Kubernetes admits in a name built from admissible project paths.\<close>

definition name_char :: "char \<Rightarrow> bool" where
  "name_char c \<longleftrightarrow> c = CHR ''-'' \<or> c \<in> set ''0123456789'' \<or> (97 \<le> (of_char c :: nat) \<and> of_char c \<le> (122 :: nat))"

definition path_char :: "char \<Rightarrow> bool" where
  "path_char c \<longleftrightarrow> name_char c \<or> c \<in> set ''/_.~'' \<or> (65 \<le> (of_char c :: nat) \<and> of_char c \<le> (90 :: nat))"

lemma lower_upper:
  assumes "65 \<le> (of_char c :: nat)" and "of_char c \<le> (90 :: nat)"
  shows "of_char (lower_char c) = (of_char c + 32 :: nat)"
  using assms by (simp add: lower_char_def of_char_of)

lemma lower_name_char: "name_char c \<Longrightarrow> lower_char c = c"
  by (auto simp: name_char_def lower_char_def)

lemma name_char_kube:
  assumes "path_char c"
  shows "name_char (kube_char c)"
proof (cases "c \<in> set ''/_.~''")
  case True
  then have "kube_char c = lower_char CHR ''-''" by (simp add: kube_char_def)
  then show ?thesis by (simp add: lower_char_def name_char_def)
next
  case False
  then have k: "kube_char c = lower_char c" by (simp add: kube_char_def)
  show ?thesis
  proof (cases "name_char c")
    case True
    with k show ?thesis by (simp add: lower_name_char)
  next
    case nn: False
    with False assms have "65 \<le> (of_char c :: nat)" "of_char c \<le> (90 :: nat)"
      by (auto simp: path_char_def)
    with k lower_upper [of c] show ?thesis by (simp add: name_char_def)
  qed
qed

lemma list_all_name_char_kube:
  "list_all path_char s \<Longrightarrow> list_all name_char (kubernetesCompatibleName s)"
  by (auto simp: kubernetesCompatibleName_map list_all_iff name_char_kube)

lemma hex_name_char: "list_all name_char ''0123456789abcdef''"
  by code_simp

lemma list_all_hash_suffix: "list_all name_char (hash_suffix s)"
  unfolding list_all_iff
proof
  fix c assume "c \<in> set (hash_suffix s)"
  then have "c \<in> set ''0123456789abcdef''" using set_hash_suffix by (rule rev_subsetD)
  then show "name_char c" by (rule bspec [OF hex_name_char [unfolded list_all_iff]])
qed

end
