(* ===== verification/Job_Manager.thy ===== *)
theory Job_Manager
  imports Kube Job_Names
begin

text \<open>
  Kubernetes jobs by label and generation: \<open>src/src/internal/crdManager/jobManager.go\<close>.
  A job is never replaced in place: a new one is created with a newer generation label, the
  newest is the current one, and a goroutine deletes the rest. The goroutine is noted in
  \<open>syCleanups\<close> and its body is \<open>cleanupOldGenerations\<close>.
\<close>

definition JOB_LABEL_TYPE :: string where
  "JOB_LABEL_TYPE = ''renovate-operator.mogenius.com/job-type''"

definition JOB_LABEL_NAME :: string where
  "JOB_LABEL_NAME = ''renovate-operator.mogenius.com/job-name''"

definition JOB_LABEL_GENERATION :: string where
  "JOB_LABEL_GENERATION = ''renovate-operator.mogenius.com/generation''"

lemma job_labels_distinct [simp]:
  "JOB_LABEL_TYPE \<noteq> JOB_LABEL_NAME" "JOB_LABEL_NAME \<noteq> JOB_LABEL_TYPE"
  "JOB_LABEL_TYPE \<noteq> JOB_LABEL_GENERATION" "JOB_LABEL_GENERATION \<noteq> JOB_LABEL_TYPE"
  "JOB_LABEL_NAME \<noteq> JOB_LABEL_GENERATION" "JOB_LABEL_GENERATION \<noteq> JOB_LABEL_NAME"
  by (simp_all add: JOB_LABEL_TYPE_def JOB_LABEL_NAME_def JOB_LABEL_GENERATION_def)

definition job_matcher :: "job_selector \<Rightarrow> string \<rightharpoonup> string" where
  "job_matcher selector =
     (let matcher = [JOB_LABEL_NAME \<mapsto> seJobName selector,
                     JOB_LABEL_TYPE \<mapsto> job_type_string (seJobType selector)]
      in case seGeneration selector of
           Some g \<Rightarrow> if g \<noteq> [] then matcher(JOB_LABEL_GENERATION \<mapsto> g) else matcher
         | None \<Rightarrow> matcher)"

definition GetJobsByLabel ::
    "'w env \<Rightarrow> job_selector \<Rightarrow> 'w sys \<Rightarrow> go_error + k8s_job list" where
  "GetJobsByLabel E selector s =
     (case eListJobs E (seNamespace selector) (job_matcher selector) (syWorld s) of
        Inl err \<Rightarrow> Inl (ErrWrap (''listing jobs with label '' @ seJobName selector) err)
      | Inr items \<Rightarrow> Inr items)"

text \<open>The generation of a job: 0 for a missing or unreadable label.\<close>

definition job_generation :: "k8s_job \<Rightarrow> int" where
  "job_generation job =
     (case jbLabels job JOB_LABEL_GENERATION of
        None \<Rightarrow> 0
      | Some genStr \<Rightarrow> (case ParseInt 64 genStr of None \<Rightarrow> 0 | Some parsedGen \<Rightarrow> parsedGen))"

fun newest_job :: "k8s_job list \<Rightarrow> int \<Rightarrow> k8s_job option \<Rightarrow> k8s_job option" where
  "newest_job [] maxGen currentJob = currentJob"
| "newest_job (job # jobs) maxGen currentJob =
     (let gen = job_generation job
      in if gen > maxGen \<or> currentJob = None then newest_job jobs gen (Some job)
         else newest_job jobs maxGen currentJob)"

definition job_not_found :: "string \<Rightarrow> go_error" where
  "job_not_found name = ErrNotFound (''jobs.batch '' @ name @ '' not found'')"

definition GetJobByLabel :: "'w env \<Rightarrow> job_selector \<Rightarrow> 'w sys \<Rightarrow> go_error + k8s_job" where
  "GetJobByLabel E selector s =
     (case GetJobsByLabel E selector s of
        Inl err \<Rightarrow> Inl err
      | Inr allJobs \<Rightarrow>
          (case newest_job allJobs (-1) None of
             None \<Rightarrow> Inl (job_not_found (seJobName selector))
           | Some currentJob \<Rightarrow> Inr currentJob))"

definition DeleteJob :: "'w env \<Rightarrow> k8s_job \<Rightarrow> 'w sys \<Rightarrow> go_error option \<times> 'w sys" where
  "DeleteJob E job s =
     (case kube_write (eDeleteJob E job) (JobDeleted job) s of
        (Some err, s) \<Rightarrow>
          (if \<not> is_not_found err
           then (Some (ErrWrap (''failed to delete job '' @ jbName job) err), s) else (None, s))
      | (None, s) \<Rightarrow> (None, s))"

definition CreateJobWithGeneration ::
    "'w env \<Rightarrow> k8s_job \<Rightarrow> job_selector \<Rightarrow> 'w sys \<Rightarrow> (go_error + string) \<times> 'w sys" where
  "CreateJobWithGeneration E job selector s =
     (let generation = show_int (unix_seconds (eNow E (syWorld s)));
          job = job\<lparr>jbLabels := (jbLabels job)(JOB_LABEL_GENERATION \<mapsto> generation)\<rparr>
      in case kube_write (eCreateJob E job) (JobCreated job) s of
           (Some err, s) \<Rightarrow>
             (Inl (ErrWrap (''creating job with generateName '' @ jbGenerateName job) err), s)
         | (None, s) \<Rightarrow>
             (Inr generation, s\<lparr>syCleanups := syCleanups s @ [(selector, generation)]\<rparr>))"

fun delete_old :: "'w env \<Rightarrow> string \<Rightarrow> k8s_job list \<Rightarrow> 'w sys \<Rightarrow> 'w sys" where
  "delete_old E currentGen [] s = s"
| "delete_old E currentGen (job # jobs) s =
     delete_old E currentGen jobs
       (if jbLabels job JOB_LABEL_GENERATION \<noteq> Some currentGen
        then snd (DeleteJob E job s) else s)"

definition cleanupOldGenerations ::
    "'w env \<Rightarrow> job_selector \<Rightarrow> string \<Rightarrow> 'w sys \<Rightarrow> go_error option \<times> 'w sys" where
  "cleanupOldGenerations E selector currentGen s =
     (case GetJobsByLabel E selector s of
        Inl err \<Rightarrow> (Some err, s)
      | Inr allJobs \<Rightarrow> (None, delete_old E currentGen allJobs s))"

text \<open>
  The log of the first container of a job's newest pod. \<open>sort.Slice\<close> does not promise an
  order between pods of one creation time; the model keeps theirs.
\<close>

definition GetLastJobLog :: "'w env \<Rightarrow> k8s_job \<Rightarrow> 'w sys \<Rightarrow> go_error + string" where
  "GetLastJobLog E job s =
     (case ePodsOfSelector E (jbNamespace job) (jbSelector job) (syWorld s) of
        Inl err \<Rightarrow> Inl (ErrWrap (''listing pods for job '' @ jbName job) err)
      | Inr pods \<Rightarrow>
          if pods = [] then Inl (ErrMsg (''no pods found for job '' @ jbName job))
          else let lastPod = last (sort_key poCreationTimestamp pods)
               in case ePodLogs E (jbNamespace job) (poName lastPod)
                         (Some (poFirstContainer lastPod)) (syWorld s) of
                    Inl err \<Rightarrow> Inl (ErrWrap (''getting logs from pod '' @ poName lastPod) err)
                  | Inr logs \<Rightarrow> Inr logs)"

section \<open>Lemmas\<close>

text \<open>
  The loop of \<open>GetJobByLabel\<close>: from a current job whose generation is \<open>maxGen\<close>, the result
  is a job of the largest generation, the earliest of those.
\<close>

lemma newest_job_Some:
  assumes "newest_job jobs (job_generation c) (Some c) = Some j"
  shows "j \<in> set (c # jobs) \<and> (\<forall>j' \<in> set (c # jobs). job_generation j' \<le> job_generation j)"
  using assms
proof (induction jobs arbitrary: c)
  case Nil
  then show ?case by simp
next
  case (Cons x jobs)
  show ?case
  proof (cases "job_generation x > job_generation c")
    case True
    with Cons.prems have "newest_job jobs (job_generation x) (Some x) = Some j"
      by (simp add: Let_def)
    from Cons.IH [OF this] True show ?thesis by auto
  next
    case False
    with Cons.prems have "newest_job jobs (job_generation c) (Some c) = Some j"
      by (simp add: Let_def)
    from Cons.IH [OF this] False show ?thesis by auto
  qed
qed

lemma newest_job_total: "newest_job jobs m (Some c) \<noteq> None"
  by (induction jobs arbitrary: m c) (auto simp: Let_def)

lemma newest_job_None: "newest_job jobs m None = None \<longleftrightarrow> jobs = []"
  by (cases jobs) (auto simp: Let_def newest_job_total)

lemma newest_job_start:
  "newest_job (job # jobs) m None = newest_job jobs (job_generation job) (Some job)"
  by (simp add: Let_def)

lemma newest_job_max:
  assumes "newest_job jobs m None = Some j"
  shows "j \<in> set jobs \<and> (\<forall>j' \<in> set jobs. job_generation j' \<le> job_generation j)"
proof (cases jobs)
  case Nil
  with assms show ?thesis by simp
next
  case (Cons x xs)
  with assms newest_job_Some [of xs x j] show ?thesis by (simp add: Let_def)
qed

lemma DeleteJob_cases:
  assumes "DeleteJob E job s = (r, s')"
  obtains r1 where "kube_write (eDeleteJob E job) (JobDeleted job) s = (r1, s')"
    and "r1 = None \<Longrightarrow> r = None"
  using assms by (auto simp: DeleteJob_def split: prod.splits option.splits if_splits)

lemma DeleteJob_frame:
  assumes "DeleteJob E job s = (r, s')"
  shows "sySettings s' = sySettings s" and "syHealth s' = syHealth s"
    and "syMetrics s' = syMetrics s" and "syCleanups s' = syCleanups s"
    and "syDiscoveries s' = syDiscoveries s" and "syHttp s' = syHttp s"
    and "syCalls s' = syCalls s \<or> syCalls s' = syCalls s @ [JobDeleted job]"
proof -
  obtain r1 where w: "kube_write (eDeleteJob E job) (JobDeleted job) s = (r1, s')"
    using assms by (rule DeleteJob_cases)
  show "sySettings s' = sySettings s" and "syHealth s' = syHealth s"
    and "syMetrics s' = syMetrics s" and "syCleanups s' = syCleanups s"
    and "syDiscoveries s' = syDiscoveries s" and "syHttp s' = syHttp s"
    using kube_write_frame [OF w] by simp_all
  show "syCalls s' = syCalls s \<or> syCalls s' = syCalls s @ [JobDeleted job]"
    using kube_write_calls [OF w] by simp
qed

lemma DeleteJob_view:
  assumes "kube_laws I E" and "DeleteJob E job s = (r, s')"
  shows "I (sview E s) (sview E s')"
proof -
  obtain r1 where w: "kube_write (eDeleteJob E job) (JobDeleted job) s = (r1, s')"
    using assms(2) by (rule DeleteJob_cases)
  from kube_laws_delete [OF assms(1) kube_write_world [OF w]] show ?thesis .
qed

text \<open>The job that \<open>CreateJobWithGeneration\<close> submits: the given one, labelled.\<close>

definition labelled_job :: "'w env \<Rightarrow> k8s_job \<Rightarrow> 'w sys \<Rightarrow> k8s_job" where
  "labelled_job E job s = job\<lparr>jbLabels := (jbLabels job)
     (JOB_LABEL_GENERATION \<mapsto> show_int (unix_seconds (eNow E (syWorld s))))\<rparr>"

lemma CreateJob_cases:
  assumes "CreateJobWithGeneration E job sel s = (r, s')"
  obtains (refused) e e' where "r = Inl e" and "sySettings s' = sySettings s"
      and "syHealth s' = syHealth s" and "syMetrics s' = syMetrics s"
      and "syCleanups s' = syCleanups s" and "syCalls s' = syCalls s"
      and "eCreateJob E (labelled_job E job s) (syWorld s) = (Some e', syWorld s')"
  | (created) g where "r = Inr g" and "g = show_int (unix_seconds (eNow E (syWorld s)))"
      and "sySettings s' = sySettings s"
      and "syHealth s' = syHealth s" and "syMetrics s' = syMetrics s"
      and "syCleanups s' = syCleanups s @ [(sel, g)]"
      and "syCalls s' = syCalls s @ [JobCreated (labelled_job E job s)]"
      and "eCreateJob E (labelled_job E job s) (syWorld s) = (None, syWorld s')"
proof -
  obtain r1 s1 where w: "kube_write (eCreateJob E (labelled_job E job s))
      (JobCreated (labelled_job E job s)) s = (r1, s1)"
    by (cases "kube_write (eCreateJob E (labelled_job E job s))
      (JobCreated (labelled_job E job s)) s")
  note facts = kube_write_frame [OF w] kube_write_calls [OF w] kube_write_world [OF w]
  show ?thesis
  proof (cases r1)
    case None
    with assms w facts show ?thesis
      by (intro created) (auto simp: CreateJobWithGeneration_def Let_def labelled_job_def)
  next
    case (Some e)
    with assms w facts show ?thesis
      by (intro refused) (auto simp: CreateJobWithGeneration_def Let_def labelled_job_def)
  qed
qed

lemma CreateJob_view:
  assumes "kube_laws I E" and "CreateJobWithGeneration E job sel s = (r, s')"
  shows "I (sview E s) (sview E s')"
  using assms(2)
  by (rule CreateJob_cases) (erule kube_laws_create [OF assms(1)])+

end
