(* ===== verification/Renovate_Manager.thy ===== *)
theory Renovate_Manager
  imports Job_Manager
begin

text \<open>
  The component that owns the custom resources,
  \<open>src/src/internal/crdManager/renovateJobManager.go\<close>. Every operation loads the resource,
  and the ones that write change the loaded copy and update its status, retried on conflict.
  The change itself is a function on the list of projects (\<open>upsert_project\<close>,
  \<open>update_projects\<close>, \<open>reconcile_projects\<close>); the operation around it is the closure that
  \<open>retry.RetryOnConflict\<close> runs. Operations run one at a time: the read-write lock of the
  manager makes each a critical section, and one operation is one step of the model.

  A nil pointer dereference is the outcome \<open>Panics\<close>.
\<close>

datatype 'a go_run = Returns 'a | Panics string

record renovate_job_identifier =
  riName :: string
  riNamespace :: string

definition identifier_Fullname :: "renovate_job_identifier \<Rightarrow> string" where
  "identifier_Fullname job = riName job @ ''-'' @ riNamespace job"

abbreviation key_of :: "renovate_job_identifier \<Rightarrow> string \<times> string" where
  "key_of job \<equiv> (riName job, riNamespace job)"

record renovate_project_info =
  piName :: string
  piStatus :: renovate_project_status
  piLastRun :: time
  piPriority :: int32
  piRenovateResultStatus :: "string option"
  piDuration :: "string option"

definition project_info :: "project_status \<Rightarrow> renovate_project_info" where
  "project_info p = \<lparr>piName = psName p, piStatus = psStatus p, piLastRun = psLastRun p,
     piPriority = psPriority p, piRenovateResultStatus = psRenovateResultStatus p,
     piDuration = psDuration p\<rparr>"

section \<open>Reading\<close>

definition GetRenovateJob ::
    "'w env \<Rightarrow> string \<Rightarrow> string \<Rightarrow> 'w sys \<Rightarrow> go_error + renovate_job" where
  "GetRenovateJob E name namespace s = loadRenovateJob E name namespace s"

definition GetProjectsByStatus ::
    "'w env \<Rightarrow> renovate_job_identifier \<Rightarrow> renovate_project_status \<Rightarrow> 'w sys \<Rightarrow>
     go_error + renovate_project_info list" where
  "GetProjectsByStatus E job status s =
     (case loadRenovateJob E (riName job) (riNamespace job) s of
        Inl err \<Rightarrow> Inl err
      | Inr rj \<Rightarrow> Inr (map project_info (filter (\<lambda>p. psStatus p = status) (projects_of rj))))"

definition GetProjectsForRenovateJob ::
    "'w env \<Rightarrow> renovate_job_identifier \<Rightarrow> 'w sys \<Rightarrow> go_error + renovate_project_info list" where
  "GetProjectsForRenovateJob E job s =
     (case loadRenovateJob E (riName job) (riNamespace job) s of
        Inl err \<Rightarrow> Inl err
      | Inr rj \<Rightarrow> Inr (map project_info (projects_of rj)))"

definition ListRenovateJobs :: "'w env \<Rightarrow> 'w sys \<Rightarrow> go_error + renovate_job_identifier list" where
  "ListRenovateJobs E s =
     (case eListRenovateJobs E (syWorld s) of
        Inl err \<Rightarrow> Inl err
      | Inr items \<Rightarrow> Inr (map (\<lambda>rj. \<lparr>riName = rjName rj, riNamespace = rjNamespace rj\<rparr>) items))"

definition ListRenovateJobsFull :: "'w env \<Rightarrow> 'w sys \<Rightarrow> go_error + renovate_job list" where
  "ListRenovateJobsFull E s = eListRenovateJobs E (syWorld s)"

section \<open>Changing the projects\<close>

text \<open>The tail of every writing closure: \<open>_, err = updateRenovateJobStatus(...); return err\<close>.\<close>

definition save_status :: "'w env \<Rightarrow> renovate_job \<Rightarrow> 'w sys \<Rightarrow> go_error option \<times> 'w sys" where
  "save_status E rj s = err_of (updateRenovateJobStatus E rj s)"

definition new_project :: "string \<Rightarrow> renovate_status_update \<Rightarrow> project_status" where
  "new_project project u = \<lparr>psName = project, psLastRun = zero_time, psDuration = None,
     psStatus = suStatus u, psPriority = suPriority u, psRenovateResultStatus = None\<rparr>"

definition upsert_project ::
    "time \<Rightarrow> string \<Rightarrow> renovate_status_update \<Rightarrow> project_status list \<Rightarrow> project_status list" where
  "upsert_project now project u ps =
     (case find_index (\<lambda>p. psName p = project) ps of
        None \<Rightarrow> ps @ [new_project project u]
      | Some index \<Rightarrow> ps[index := GetUpdateStatusForProject now u (ps ! index)])"

definition update_status_closure ::
    "'w env \<Rightarrow> string \<Rightarrow> renovate_job_identifier \<Rightarrow> renovate_status_update \<Rightarrow>
     'w sys \<Rightarrow> go_error option \<times> 'w sys" where
  "update_status_closure E project job u s =
     (case loadRenovateJob E (riName job) (riNamespace job) s of
        Inl err \<Rightarrow> (Some err, s)
      | Inr rj \<Rightarrow>
          save_status E
            (set_projects rj (upsert_project (eNow E (syWorld s)) project u (projects_of rj))) s)"

definition UpdateProjectStatus ::
    "'w env \<Rightarrow> string \<Rightarrow> renovate_job_identifier \<Rightarrow> renovate_status_update \<Rightarrow>
     'w sys \<Rightarrow> go_error option \<times> 'w sys" where
  "UpdateProjectStatus E project job u s =
     eRetryOnConflict E (update_status_closure E project job u) s"

definition update_projects ::
    "time \<Rightarrow> (project_status \<Rightarrow> bool) \<Rightarrow> renovate_status_update \<Rightarrow>
     project_status list \<Rightarrow> project_status list" where
  "update_projects now fn u ps =
     map (\<lambda>p. if fn p then GetUpdateStatusForProject now u p else p) ps"

definition update_batched_closure ::
    "'w env \<Rightarrow> (project_status \<Rightarrow> bool) \<Rightarrow> renovate_job_identifier \<Rightarrow> renovate_status_update \<Rightarrow>
     'w sys \<Rightarrow> go_error option \<times> 'w sys" where
  "update_batched_closure E fn job u s =
     (case loadRenovateJob E (riName job) (riNamespace job) s of
        Inl err \<Rightarrow> (Some err, s)
      | Inr rj \<Rightarrow>
          save_status E
            (set_projects rj (update_projects (eNow E (syWorld s)) fn u (projects_of rj))) s)"

definition UpdateProjectStatusBatched ::
    "'w env \<Rightarrow> (project_status \<Rightarrow> bool) \<Rightarrow> renovate_job_identifier \<Rightarrow> renovate_status_update \<Rightarrow>
     'w sys \<Rightarrow> go_error option \<times> 'w sys" where
  "UpdateProjectStatusBatched E fn job u s =
     eRetryOnConflict E (update_batched_closure E fn job u) s"

text \<open>
  \<open>ReconcileProjects\<close>: the table built from the current projects maps a name to the last
  project of that name. The Go loop that deletes the metrics of removed projects visits them
  in map order, which is unspecified; the model visits them in list order.
\<close>

definition crd_project_set :: "project_status list \<Rightarrow> string \<rightharpoonup> project_status" where
  "crd_project_set ps = fold (\<lambda>p m. m(psName p \<mapsto> p)) ps Map.empty"

definition removed_projects :: "project_status list \<Rightarrow> string list \<Rightarrow> string list" where
  "removed_projects ps projects =
     filter (\<lambda>n. n \<notin> set projects) (remdups (map psName ps))"

definition scheduled_project :: "time \<Rightarrow> string \<Rightarrow> project_status" where
  "scheduled_project now project = \<lparr>psName = project, psLastRun = now, psDuration = None,
     psStatus = JobStatusScheduled, psPriority = 0, psRenovateResultStatus = None\<rparr>"

definition reconcile_projects ::
    "time \<Rightarrow> string list \<Rightarrow> project_status list \<Rightarrow> project_status list" where
  "reconcile_projects now projects ps =
     map (\<lambda>project. case crd_project_set ps project of
            Some crdProject \<Rightarrow> crdProject
          | None \<Rightarrow> scheduled_project now project) projects"

definition reconcile_closure ::
    "'w env \<Rightarrow> renovate_job_identifier \<Rightarrow> string list \<Rightarrow> 'w sys \<Rightarrow> go_error option \<times> 'w sys" where
  "reconcile_closure E job projects s =
     (case loadRenovateJob E (riName job) (riNamespace job) s of
        Inl err \<Rightarrow> (Some err, s)
      | Inr rj \<Rightarrow>
          let s = s\<lparr>syMetrics := fold (DeleteProjectMetrics (riNamespace job) (riName job))
                      (removed_projects (projects_of rj) projects) (syMetrics s)\<rparr>
          in save_status E
               (set_projects rj
                 (reconcile_projects (eNow E (syWorld s)) projects (projects_of rj))) s)"

definition ReconcileProjects ::
    "'w env \<Rightarrow> renovate_job_identifier \<Rightarrow> string list \<Rightarrow> 'w sys \<Rightarrow> go_error option \<times> 'w sys" where
  "ReconcileProjects E job projects s = eRetryOnConflict E (reconcile_closure E job projects) s"

definition config_status_closure ::
    "'w env \<Rightarrow> string \<Rightarrow> renovate_job_identifier \<Rightarrow> string option \<Rightarrow>
     'w sys \<Rightarrow> go_error option \<times> 'w sys" where
  "config_status_closure E project job status s =
     (case loadRenovateJob E (riName job) (riNamespace job) s of
        Inl err \<Rightarrow> (Some err, s)
      | Inr rj \<Rightarrow>
          (case find_index (\<lambda>p. psName p = project) (projects_of rj) of
             None \<Rightarrow> (None, s)
           | Some i \<Rightarrow>
               save_status E (set_projects rj ((projects_of rj)
                 [i := (projects_of rj ! i)\<lparr>psRenovateResultStatus := status\<rparr>])) s))"

definition UpdateProjectConfigStatus ::
    "'w env \<Rightarrow> string \<Rightarrow> renovate_job_identifier \<Rightarrow> string option \<Rightarrow>
     'w sys \<Rightarrow> go_error option \<times> 'w sys" where
  "UpdateProjectConfigStatus E project job status s =
     eRetryOnConflict E (config_status_closure E project job status) s"

definition execution_options_closure ::
    "'w env \<Rightarrow> renovate_job_identifier \<Rightarrow> renovate_execution_options option \<Rightarrow>
     'w sys \<Rightarrow> go_error option \<times> 'w sys" where
  "execution_options_closure E job options s =
     (case loadRenovateJob E (riName job) (riNamespace job) s of
        Inl err \<Rightarrow> (Some err, s)
      | Inr rj \<Rightarrow>
          save_status E
            (rj\<lparr>rjStatus := (rjStatus rj)\<lparr>rsExecutionOptions := options\<rparr>\<rparr>) s)"

definition UpdateExecutionOptions ::
    "'w env \<Rightarrow> renovate_job_identifier \<Rightarrow> renovate_execution_options option \<Rightarrow>
     'w sys \<Rightarrow> go_error option \<times> 'w sys" where
  "UpdateExecutionOptions E job options s =
     eRetryOnConflict E (execution_options_closure E job options) s"

section \<open>Logs and webhook credentials\<close>

definition GetLogsForProject ::
    "'w env \<Rightarrow> renovate_job_identifier \<Rightarrow> string \<Rightarrow> 'w sys \<Rightarrow> string \<times> go_error option" where
  "GetLogsForProject E job project s =
     (case loadRenovateJob E (riName job) (riNamespace job) s of
        Inl err \<Rightarrow> (''failed to load renovate job'', Some err)
      | Inr rj \<Rightarrow>
          (case GetJobByLabel E \<lparr>seJobName = ExecutorJobName rj project,
                  seJobType = ExecutorJobType, seNamespace = riNamespace job,
                  seGeneration = None\<rparr> s of
             Inl err \<Rightarrow> (''failed to get job'', Some err)
           | Inr executorJob \<Rightarrow>
               (case eClientset E (syWorld s) of
                  Some err \<Rightarrow> (''failed to create client'', Some err)
                | None \<Rightarrow>
                    (case GetLastJobLog E executorJob s of
                       Inl err \<Rightarrow> ([], Some err)
                     | Inr logs \<Rightarrow> (logs, None)))))"

definition getRenovateJobTokens ::
    "'w env \<Rightarrow> renovate_job \<Rightarrow> secret_key_reference \<Rightarrow> 'w sys \<Rightarrow> go_error + string list" where
  "getRenovateJobTokens E job ref s =
     (case eGetSecret E (rjNamespace job) (skName ref) (syWorld s) of
        Inl err \<Rightarrow> Inl err
      | Inr data \<Rightarrow>
          (case data (skKey ref) of
             None \<Rightarrow> Inl (ErrMsg (''secret key '' @ skKey ref @ '' not found in secret '' @ skName ref))
           | Some allTokens \<Rightarrow> Inr (strings_Split CHR '','' allTokens)))"

text \<open>
  The tokens of a resource's webhook: \<open>None\<close> when its authentication is not enabled. An
  enabled authentication without a \<open>secretRef\<close> dereferences a nil pointer.
\<close>

definition webhook_tokens ::
    "'w env \<Rightarrow> renovate_job \<Rightarrow> 'w sys \<Rightarrow> (go_error + string list option) go_run" where
  "webhook_tokens E rj s =
     (case spWebhook (rjSpec rj) of
        None \<Rightarrow> Returns (Inr None)
      | Some wh \<Rightarrow>
          (case whAuthentication wh of
             None \<Rightarrow> Returns (Inr None)
           | Some auth \<Rightarrow>
               if \<not> waEnabled auth then Returns (Inr None)
               else (case waSecretRef auth of
                       None \<Rightarrow> Panics ''nil pointer dereference''
                     | Some ref \<Rightarrow>
                         (case getRenovateJobTokens E rj ref s of
                            Inl err \<Rightarrow> Returns (Inl err)
                          | Inr tokens \<Rightarrow> Returns (Inr (Some tokens))))))"

definition IsWebhookTokenValid ::
    "'w env \<Rightarrow> renovate_job_identifier \<Rightarrow> string \<Rightarrow> 'w sys \<Rightarrow> (go_error + bool) go_run" where
  "IsWebhookTokenValid E job token s =
     (case loadRenovateJob E (riName job) (riNamespace job) s of
        Inl err \<Rightarrow> Returns (Inl err)
      | Inr rj \<Rightarrow>
          (case webhook_tokens E rj s of
             Panics m \<Rightarrow> Panics m
           | Returns (Inl err) \<Rightarrow> Returns (Inl err)
           | Returns (Inr None) \<Rightarrow> Returns (Inr False)
           | Returns (Inr (Some tokens)) \<Rightarrow> Returns (Inr (token \<in> set tokens))))"

definition computeHMAC256 :: "string \<Rightarrow> string \<Rightarrow> string" where
  "computeHMAC256 message secret =
     ''sha256='' @ hex_bytes (hmac_sha256 (string_bytes secret) (string_bytes message))"

definition IsWebhookSignatureValid ::
    "'w env \<Rightarrow> renovate_job_identifier \<Rightarrow> string \<Rightarrow> string \<Rightarrow> 'w sys \<Rightarrow> (go_error + bool) go_run"
where
  "IsWebhookSignatureValid E job signature body s =
     (case loadRenovateJob E (riName job) (riNamespace job) s of
        Inl err \<Rightarrow> Returns (Inl err)
      | Inr rj \<Rightarrow>
          (case webhook_tokens E rj s of
             Panics m \<Rightarrow> Panics m
           | Returns (Inl err) \<Rightarrow> Returns (Inl err)
           | Returns (Inr None) \<Rightarrow> Returns (Inr False)
           | Returns (Inr (Some tokens)) \<Rightarrow>
               Returns (Inr (list_ex (\<lambda>token. signature = computeHMAC256 body token) tokens))))"

section \<open>The project list\<close>

text \<open>The list functions, in the shape the proofs use.\<close>

lemma upsert_project_cases:
  "upsert_project now project u ps =
     (if project \<in> psName ` set ps
      then map_first (\<lambda>p. psName p = project) (GetUpdateStatusForProject now u) ps
      else ps @ [new_project project u])"
proof (cases "find_index (\<lambda>p. psName p = project) ps")
  case None
  then have "project \<notin> psName ` set ps" by (auto simp: find_index_None)
  with None show ?thesis by (simp add: upsert_project_def)
next
  case (Some i)
  then have "project \<in> psName ` set ps"
    using find_index_Some [OF Some] by force
  with Some show ?thesis
    by (simp add: upsert_project_def list_update_find_index)
qed

lemma upsert_names:
  "map psName (upsert_project now project u ps) =
     (if project \<in> psName ` set ps then map psName ps else map psName ps @ [project])"
  by (auto simp: upsert_project_cases new_project_def intro: map_map_first)

lemma upsert_distinct:
  "distinct (map psName ps) \<Longrightarrow> distinct (map psName (upsert_project now project u ps))"
  by (auto simp: upsert_names)

lemma update_projects_names: "map psName (update_projects now fn u ps) = map psName ps"
  by (simp add: update_projects_def)

lemma crd_project_set_map_of:
  "crd_project_set ps = map_of (rev (map (\<lambda>p. (psName p, p)) ps))"
proof -
  have "fold (\<lambda>p m. m(psName p \<mapsto> p)) ps m = m ++ map_of (rev (map (\<lambda>p. (psName p, p)) ps))" for m
  proof (induction ps arbitrary: m)
    case Nil
    then show ?case by simp
  next
    case (Cons p ps)
    then show ?case by (auto simp: map_add_def split: option.split)
  qed
  then show ?thesis by (simp add: crd_project_set_def)
qed

lemma crd_project_set_None: "crd_project_set ps n = None \<longleftrightarrow> n \<notin> psName ` set ps"
  by (simp add: crd_project_set_map_of map_of_eq_None_iff image_image)

lemma crd_project_set_Some: "crd_project_set ps n = Some p \<Longrightarrow> p \<in> set ps \<and> psName p = n"
  by (auto simp: crd_project_set_map_of dest!: map_of_SomeD)

lemma crd_project_set_distinct:
  assumes "distinct (map psName ps)" and "p \<in> set ps"
  shows "crd_project_set ps (psName p) = Some p"
proof -
  from assms(2) obtain q where q: "crd_project_set ps (psName p) = Some q"
    using crd_project_set_None [of ps "psName p"] by fastforce
  from crd_project_set_Some [OF q] assms have "q = p"
    by (metis distinct_map inj_on_eq_iff)
  with q show ?thesis by simp
qed

lemma reconcile_names: "map psName (reconcile_projects now projects ps) = projects"
  by (induction projects)
     (auto simp: reconcile_projects_def scheduled_project_def dest: crd_project_set_Some
       split: option.split)

section \<open>The stored resources\<close>

text \<open>
  What the projects of a view say: the names recorded as running, and that no name is
  recorded twice.
\<close>

definition view_projects :: "job_view \<Rightarrow> string \<times> string \<Rightarrow> project_status list" where
  "view_projects v k = (case v k of None \<Rightarrow> [] | Some (sp, st) \<Rightarrow> rsProjects st)"

definition running_names :: "project_status list \<Rightarrow> string set" where
  "running_names ps = psName ` {p \<in> set ps. psStatus p = JobStatusRunning}"

definition tidy :: "job_view \<Rightarrow> string \<times> string \<Rightarrow> bool" where
  "tidy v k \<longleftrightarrow> distinct (map psName (view_projects v k))"

text \<open>
  An interference that starts nothing: it keeps names distinct and adds no running project.
  Every operation of the operator other than the executor is of this kind.
\<close>

definition never_starts :: "(job_view \<Rightarrow> job_view \<Rightarrow> bool) \<Rightarrow> string \<times> string \<Rightarrow> bool" where
  "never_starts I k \<longleftrightarrow> (\<forall>v v'. I v v' \<longrightarrow> tidy v k \<longrightarrow>
     tidy v' k \<and> running_names (view_projects v' k) \<subseteq> running_names (view_projects v k))"

text \<open>
  The effect of a writing operation on the view of the resources: other writers may act
  before and after; in between, either nothing happened and the operation reports an error,
  or the status of the resource went through \<open>F\<close> (and through the server's encoding). An
  error does not exclude the second: the reload after the update may fail.
\<close>

definition write_effect ::
    "(job_view \<Rightarrow> job_view \<Rightarrow> bool) \<Rightarrow> string \<times> string \<Rightarrow>
     (renovate_job_status \<Rightarrow> renovate_job_status \<Rightarrow> bool) \<Rightarrow>
     job_view \<Rightarrow> go_error option \<Rightarrow> job_view \<Rightarrow> bool" where
  "write_effect I k F v r v' \<longleftrightarrow>
     (r \<noteq> None \<and> I v v') \<or>
     (\<exists>u sp st st'. I v u \<and> u k = Some (sp, st) \<and> F st st' \<and>
        I (u(k \<mapsto> (sp, stored_status st'))) v')"

lemma write_effectI:
  assumes "interference I" and "v k = Some (sp, st)" and "F st st'"
    and "I (v(k \<mapsto> (sp, stored_status st'))) v'"
  shows "write_effect I k F v r v'"
proof -
  have "I v v" by (rule interference_refl [OF assms(1)])
  then show ?thesis
    unfolding write_effect_def
    by (intro disjI2 exI [of _ v] exI [of _ sp] exI [of _ st] exI [of _ st'] conjI assms)
qed

lemma save_status_effect:
  assumes laws: "kube_laws I E" "interference I"
    and load: "loadRenovateJob E n ns s = Inr rj"
    and rj': "rjName rj' = n" "rjNamespace rj' = ns" "F (rjStatus rj) (rjStatus rj')"
    and save: "save_status E rj' t = (r, s')" and t: "syWorld t = syWorld s"
  shows "write_effect I (n, ns) F (sview E s) r (sview E s')"
    and "r = Some e \<Longrightarrow> is_conflict e \<Longrightarrow> I (sview E s) (sview E s')"
proof -
  obtain r1 s1 where w: "kube_write (eUpdateStatus E rj') (StatusUpdated rj') t = (r1, s1)"
    by (cases "kube_write (eUpdateStatus E rj') (StatusUpdated rj') t")
  note call = kube_write_world [OF w, unfolded t]
  have "write_effect I (n, ns) F (sview E s) r (sview E s') \<and>
    (r = Some e \<longrightarrow> is_conflict e \<longrightarrow> I (sview E s) (sview E s'))"
  proof (cases r1)
    case None
    with save w have s': "s' = s1" and r: "r = Some e \<Longrightarrow> reloadRenovateJob E rj' s1 = Inl e"
      by (cases "reloadRenovateJob E rj' s1";
          simp add: save_status_def updateRenovateJobStatus_def)+
    from kube_laws_updated [OF laws(1) call [unfolded None]] load_view [OF load] rj'
    have "I ((sview E s)((n, ns) \<mapsto> (rjSpec rj, stored_status (rjStatus rj')))) (sview E s')"
      by (auto simp: s')
    then have "write_effect I (n, ns) F (sview E s) r (sview E s')"
      using load_view [OF load] rj'(3)
      by (intro write_effectI [where st = "rjStatus rj" and st' = "rjStatus rj'"
            and sp = "rjSpec rj", OF laws(2)])
    moreover have "\<not> is_conflict e" if "r = Some e"
      using kube_laws_get_error [OF laws(1)] r [OF that]
      by (simp add: reloadRenovateJob_def loadRenovateJob_def)
    ultimately show ?thesis by blast
  next
    case (Some e1)
    with save w have s': "s' = s1" and "r = Some e1"
      by (simp_all add: save_status_def updateRenovateJobStatus_def)
    with kube_laws_refused [OF laws(1) call [unfolded Some]] show ?thesis
      by (simp add: write_effect_def)
  qed
  then show "write_effect I (n, ns) F (sview E s) r (sview E s')"
    and "r = Some e \<Longrightarrow> is_conflict e \<Longrightarrow> I (sview E s) (sview E s')"
    by blast+
qed

text \<open>
  An effect of one run is an effect of the retried operation: a run that ended in a conflict
  changed nothing itself.
\<close>

definition closure_effect ::
    "(job_view \<Rightarrow> job_view \<Rightarrow> bool) \<Rightarrow> 'w env \<Rightarrow> string \<times> string \<Rightarrow>
     (renovate_job_status \<Rightarrow> renovate_job_status \<Rightarrow> bool) \<Rightarrow>
     ('w sys \<Rightarrow> go_error option \<times> 'w sys) \<Rightarrow> bool" where
  "closure_effect I E k F f \<longleftrightarrow> (\<forall>s r s'. f s = (r, s') \<longrightarrow>
     write_effect I k F (sview E s) r (sview E s') \<and>
     (\<forall>e. r = Some e \<longrightarrow> is_conflict e \<longrightarrow> I (sview E s) (sview E s')))"

lemma write_effect_before:
  assumes "interference I" and "I u v" and "write_effect I k F v r v'"
  shows "write_effect I k F u r v'"
  using assms(3) unfolding write_effect_def
proof (elim disjE exE conjE)
  assume "r \<noteq> None" "I v v'"
  then show "(r \<noteq> None \<and> I u v') \<or> (\<exists>t sp st st'. I u t \<and> t k = Some (sp, st) \<and> F st st' \<and>
      I (t(k \<mapsto> (sp, stored_status st'))) v')"
    using interference_trans [OF assms(1,2)] by blast
next
  fix t sp st st'
  assume "I v t" "t k = Some (sp, st)" "F st st'" "I (t(k \<mapsto> (sp, stored_status st'))) v'"
  then show "(r \<noteq> None \<and> I u v') \<or> (\<exists>t sp st st'. I u t \<and> t k = Some (sp, st) \<and> F st st' \<and>
      I (t(k \<mapsto> (sp, stored_status st'))) v')"
    using interference_trans [OF assms(1,2)] by blast
qed

lemma retries_effect:
  assumes "retries I E f s r" and "interference I" and "closure_effect I E k F f"
  shows "write_effect I k F (sview E s) (fst r) (view E (syWorld (snd r)))"
  using assms(1)
proof (induction rule: retries.induct)
  case (last_run s r)
  with assms(3) show ?case
    unfolding closure_effect_def by (metis prod.collapse)
next
  case (run_again s e s1 w r)
  from run_again.hyps(1,2) assms(3) have "I (sview E s) (sview E s1)"
    unfolding closure_effect_def by blast
  then have "I (sview E s) (view E w)"
    by (rule interference_trans [OF assms(2) _ run_again.hyps(3)])
  with run_again.IH show ?case
    by (auto intro: write_effect_before [OF assms(2)])
qed

lemma retry_effect:
  assumes "retry_law I E" and "interference I" and "closure_effect I E k F f"
    and "eRetryOnConflict E f s = (r, s')"
  shows "write_effect I k F (sview E s) r (sview E s')"
  using retries_effect [OF _ assms(2,3), of s "(r, s')"] assms(1,4)
  unfolding retry_law_def by (metis fst_conv snd_conv)

lemma load_error_effect:
  assumes "kube_laws I E" and "interference I" and "loadRenovateJob E n ns s = Inl e"
  shows "write_effect I k F (sview E s) (Some e) (sview E s)"
  using assms interference_refl by (auto simp: write_effect_def)

lemma closure_effectI:
  assumes laws: "kube_laws I E" "interference I"
    and failed: "\<And>s err. loadRenovateJob E n ns s = Inl err \<Longrightarrow> f s = (Some err, s)"
    and loaded: "\<And>s rj. loadRenovateJob E n ns s = Inr rj \<Longrightarrow> f s = save_status E (g s rj) (h s rj)"
    and same: "\<And>s rj. syWorld (h s rj) = syWorld s" "\<And>s rj. rjName (g s rj) = rjName rj"
      "\<And>s rj. rjNamespace (g s rj) = rjNamespace rj" "\<And>s rj. F (rjStatus rj) (rjStatus (g s rj))"
  shows "closure_effect I E (n, ns) F f"
  unfolding closure_effect_def
proof (intro allI impI)
  fix s r s' assume fs: "f s = (r, s')"
  show "write_effect I (n, ns) F (sview E s) r (sview E s') \<and>
    (\<forall>e. r = Some e \<longrightarrow> is_conflict e \<longrightarrow> I (sview E s) (sview E s'))"
  proof (cases "loadRenovateJob E n ns s")
    case (Inl err)
    with failed fs have "r = Some err" "s' = s" by auto
    with load_error_effect [OF laws Inl] interference_refl [OF laws(2)] show ?thesis by simp
  next
    case (Inr rj)
    have f: "save_status E (g s rj) (h s rj) = (r, s')"
      using loaded [OF Inr] fs by simp
    have id: "rjName (g s rj) = n" "rjNamespace (g s rj) = ns"
      using load_identity [OF laws(1) Inr] same(2,3) by simp_all
    from save_status_effect [where F = F, OF laws Inr id same(4) f same(1)] show ?thesis by blast
  qed
qed

section \<open>The effects of the operations\<close>

text \<open>What each writing operation does to the status it loads.\<close>

definition upserts ::
    "string \<Rightarrow> renovate_status_update \<Rightarrow> renovate_job_status \<Rightarrow> renovate_job_status \<Rightarrow> bool" where
  "upserts project u st st' \<longleftrightarrow>
     (\<exists>now. st' = st\<lparr>rsProjects := upsert_project now project u (rsProjects st)\<rparr>)"

definition updates ::
    "(project_status \<Rightarrow> bool) \<Rightarrow> renovate_status_update \<Rightarrow>
     renovate_job_status \<Rightarrow> renovate_job_status \<Rightarrow> bool" where
  "updates fn u st st' \<longleftrightarrow>
     (\<exists>now. st' = st\<lparr>rsProjects := update_projects now fn u (rsProjects st)\<rparr>)"

definition reconciles ::
    "string list \<Rightarrow> renovate_job_status \<Rightarrow> renovate_job_status \<Rightarrow> bool" where
  "reconciles projects st st' \<longleftrightarrow>
     (\<exists>now. st' = st\<lparr>rsProjects := reconcile_projects now projects (rsProjects st)\<rparr>)"

definition sets_options ::
    "renovate_execution_options option \<Rightarrow> renovate_job_status \<Rightarrow> renovate_job_status \<Rightarrow> bool" where
  "sets_options options st st' \<longleftrightarrow> st' = st\<lparr>rsExecutionOptions := options\<rparr>"

lemma set_projects_status [simp]:
  "rjStatus (set_projects rj ps) = (rjStatus rj)\<lparr>rsProjects := ps\<rparr>"
  by (simp add: set_projects_def)

lemma UpdateProjectStatus_effect:
  assumes "kube_laws I E" and "retry_law I E" and "interference I"
    and "UpdateProjectStatus E project job u s = (r, s')"
  shows "write_effect I (key_of job) (upserts project u) (sview E s) r (sview E s')"
proof -
  have "closure_effect I E (key_of job) (upserts project u) (update_status_closure E project job u)"
    by (rule closure_effectI [where g = "\<lambda>s rj. set_projects rj
            (upsert_project (eNow E (syWorld s)) project u (projects_of rj))"
          and h = "\<lambda>s rj. s", OF assms(1,3)]) (auto simp: update_status_closure_def upserts_def)
  from retry_effect [OF assms(2,3) this assms(4) [unfolded UpdateProjectStatus_def]] show ?thesis .
qed

lemma UpdateProjectStatusBatched_effect:
  assumes "kube_laws I E" and "retry_law I E" and "interference I"
    and "UpdateProjectStatusBatched E fn job u s = (r, s')"
  shows "write_effect I (key_of job) (updates fn u) (sview E s) r (sview E s')"
proof -
  have "closure_effect I E (key_of job) (updates fn u) (update_batched_closure E fn job u)"
    by (rule closure_effectI [where g = "\<lambda>s rj. set_projects rj
            (update_projects (eNow E (syWorld s)) fn u (projects_of rj))"
          and h = "\<lambda>s rj. s", OF assms(1,3)]) (auto simp: update_batched_closure_def updates_def)
  from retry_effect [OF assms(2,3) this assms(4) [unfolded UpdateProjectStatusBatched_def]]
  show ?thesis .
qed

lemma ReconcileProjects_effect:
  assumes "kube_laws I E" and "retry_law I E" and "interference I"
    and "ReconcileProjects E job projects s = (r, s')"
  shows "write_effect I (key_of job) (reconciles projects) (sview E s) r (sview E s')"
proof -
  have "closure_effect I E (key_of job) (reconciles projects) (reconcile_closure E job projects)"
    by (rule closure_effectI [where g = "\<lambda>s rj. set_projects rj
            (reconcile_projects (eNow E (syWorld s)) projects (projects_of rj))"
          and h = "\<lambda>s rj. s\<lparr>syMetrics := fold (DeleteProjectMetrics (riNamespace job) (riName job))
            (removed_projects (projects_of rj) projects) (syMetrics s)\<rparr>", OF assms(1,3)])
      (auto simp: reconcile_closure_def reconciles_def Let_def)
  from retry_effect [OF assms(2,3) this assms(4) [unfolded ReconcileProjects_def]] show ?thesis .
qed

lemma UpdateExecutionOptions_effect:
  assumes "kube_laws I E" and "retry_law I E" and "interference I"
    and "UpdateExecutionOptions E job options s = (r, s')"
  shows "write_effect I (key_of job) (sets_options options) (sview E s) r (sview E s')"
proof -
  have "closure_effect I E (key_of job) (sets_options options) (execution_options_closure E job options)"
    by (rule closure_effectI [where g = "\<lambda>s rj. rj\<lparr>rjStatus := (rjStatus rj)\<lparr>rsExecutionOptions := options\<rparr>\<rparr>"
          and h = "\<lambda>s rj. s", OF assms(1,3)]) (auto simp: execution_options_closure_def sets_options_def)
  from retry_effect [OF assms(2,3) this assms(4) [unfolded UpdateExecutionOptions_def]]
  show ?thesis .
qed

section \<open>Running projects under an operation\<close>

lemma running_names_simps [simp]:
  "running_names [] = {}"
  "running_names (p # ps) =
     (if psStatus p = JobStatusRunning then insert (psName p) (running_names ps)
      else running_names ps)"
  "running_names (ps @ qs) = running_names ps \<union> running_names qs"
  by (auto simp: running_names_def)

lemma running_names_stored [simp]: "running_names (map stored_project ps) = running_names ps"
  by (induction ps) auto

lemma running_names_subset: "running_names ps \<subseteq> psName ` set ps"
  by (auto simp: running_names_def)

lemma finite_running_names [simp]: "finite (running_names ps)"
  by (simp add: running_names_def)

lemma card_running_names: "distinct (map psName ps) \<Longrightarrow> card (running_names ps) = running ps"
proof (induction ps)
  case Nil
  then show ?case by simp
next
  case (Cons p ps)
  then have "psName p \<notin> running_names ps" using running_names_subset [of ps] by auto
  with Cons show ?case by simp
qed

lemma stored_names [simp]: "map (psName \<circ> stored_project) ps = map psName ps"
  by (simp add: comp_def)

text \<open>
  A change of the status that keeps names distinct and at most adds the running names \<open>X\<close>
  has that effect on the stored resource too, whatever harmless writers do around it.
\<close>

definition starts_at_most ::
    "string set \<Rightarrow> (renovate_job_status \<Rightarrow> renovate_job_status \<Rightarrow> bool) \<Rightarrow> bool" where
  "starts_at_most X F \<longleftrightarrow> (\<forall>st st'. F st st' \<longrightarrow> distinct (map psName (rsProjects st)) \<longrightarrow>
     distinct (map psName (rsProjects st')) \<and>
     running_names (rsProjects st') \<subseteq> running_names (rsProjects st) \<union> X)"

lemma never_startsD:
  assumes "never_starts I k" and "I v v'" and "tidy v k"
  shows "tidy v' k" and "running_names (view_projects v' k) \<subseteq> running_names (view_projects v k)"
  using assms unfolding never_starts_def by blast+

lemma write_effect_starts:
  assumes "never_starts I k" and "starts_at_most X F" and "write_effect I k F v r v'"
    and "tidy v k"
  shows "tidy v' k \<and>
    running_names (view_projects v' k) \<subseteq> running_names (view_projects v k) \<union> X"
  using assms(3) unfolding write_effect_def
proof (elim disjE exE conjE)
  assume "I v v'"
  from never_startsD [OF assms(1) this assms(4)] show ?thesis by blast
next
  fix u sp st st'
  assume u: "I v u" "u k = Some (sp, st)" and F: "F st st'"
    and v': "I (u(k \<mapsto> (sp, stored_status st'))) v'"
  note before = never_startsD [OF assms(1) u(1) assms(4)]
  have "distinct (map psName (rsProjects st))"
    and stored: "view_projects u k = rsProjects st"
    using before(1) u(2) by (simp_all add: tidy_def view_projects_def)
  with assms(2) F have st': "distinct (map psName (rsProjects st'))"
      "running_names (rsProjects st') \<subseteq> running_names (rsProjects st) \<union> X"
    unfolding starts_at_most_def by blast+
  then have "tidy (u(k \<mapsto> (sp, stored_status st'))) k"
    by (simp add: tidy_def view_projects_def)
  from never_startsD [OF assms(1) v' this] st' before stored show ?thesis
    by (auto simp: view_projects_def)
qed

lemma update_not_started:
  "psStatus (GetUpdateStatusForProject now u p) = JobStatusRunning \<Longrightarrow>
   psStatus p = JobStatusRunning \<or> suStatus u = JobStatusRunning"
  using update_keeps_running by blast

lemma update_finished_not_running:
  "suStatus u \<in> {JobStatusCompleted, JobStatusFailed} \<Longrightarrow>
   psStatus (GetUpdateStatusForProject now u p) \<noteq> JobStatusRunning"
  by (auto simp: psStatus_update next_status_def)

lemma running_names_map_first:
  "running_names (map_first (\<lambda>p. psName p = n) (GetUpdateStatusForProject now u) ps) \<subseteq>
   running_names ps \<union> (if suStatus u = JobStatusRunning then {n} else {})"
proof (induction ps)
  case Nil
  then show ?case by simp
next
  case (Cons p ps)
  then show ?case using update_not_started [of now u p] by auto
qed

lemma running_upsert:
  "running_names (upsert_project now n u ps) \<subseteq>
   running_names ps \<union> (if suStatus u = JobStatusRunning then {n} else {})"
proof (cases "n \<in> psName ` set ps")
  case True
  then show ?thesis using running_names_map_first [of n now u ps] by (simp add: upsert_project_cases)
next
  case False
  then show ?thesis by (simp add: upsert_project_cases new_project_def)
qed

lemma upserts_starts:
  "starts_at_most (if suStatus u = JobStatusRunning then {n} else {}) (upserts n u)"
  unfolding starts_at_most_def
proof (intro allI impI)
  fix st st' assume "upserts n u st st'" and d: "distinct (map psName (rsProjects st))"
  then obtain now where st': "rsProjects st' = upsert_project now n u (rsProjects st)"
    by (auto simp: upserts_def)
  show "distinct (map psName (rsProjects st')) \<and> running_names (rsProjects st') \<subseteq>
      running_names (rsProjects st) \<union> (if suStatus u = JobStatusRunning then {n} else {})"
    unfolding st' by (intro conjI upsert_distinct [OF d] running_upsert)
qed

lemma map_first_finished:
  assumes "suStatus u \<in> {JobStatusCompleted, JobStatusFailed}"
  shows "distinct (map psName ps) \<Longrightarrow>
    n \<notin> running_names (map_first (\<lambda>p. psName p = n) (GetUpdateStatusForProject now u) ps)"
proof (induction ps)
  case Nil
  then show ?case by simp
next
  case (Cons p ps)
  show ?case
  proof (cases "psName p = n")
    case True
    with Cons.prems have "n \<notin> running_names ps" using running_names_subset [of ps] by auto
    with True update_finished_not_running [OF assms, of now p] show ?thesis by simp
  next
    case False
    with Cons show ?thesis by simp
  qed
qed

lemma upsert_finished:
  assumes "distinct (map psName ps)" and "suStatus u \<in> {JobStatusCompleted, JobStatusFailed}"
  shows "n \<notin> running_names (upsert_project now n u ps)"
proof (cases "n \<in> psName ` set ps")
  case True
  then show ?thesis
    using map_first_finished [OF assms(2,1)] by (simp add: upsert_project_cases)
next
  case False
  then show ?thesis
    using assms(2) running_names_subset [of ps] by (auto simp: upsert_project_cases new_project_def)
qed

section \<open>The store as its clients see it\<close>

text \<open>
  The contract between the manager and the executor: an update keeps the records sane, makes
  no other project running than the one it starts, and once it reports success for a finished
  project, that project is not running. The client side is a set \<open>C\<close> that covers the
  running projects.
\<close>

locale status_store =
  fixes ok :: "'e \<Rightarrow> 'k \<Rightarrow> bool"
    and upd :: "'e \<Rightarrow> string \<Rightarrow> 'k \<Rightarrow> renovate_status_update \<Rightarrow> 's \<Rightarrow> go_error option \<times> 's"
    and sane :: "'e \<Rightarrow> 'k \<Rightarrow> 's \<Rightarrow> bool"
    and now_running :: "'e \<Rightarrow> 'k \<Rightarrow> 's \<Rightarrow> string set"
  assumes upd_sane: "ok e k \<Longrightarrow> upd e p k u s = (r, s') \<Longrightarrow> sane e k s \<Longrightarrow> sane e k s'"
    and upd_running: "ok e k \<Longrightarrow> upd e p k u s = (r, s') \<Longrightarrow> sane e k s \<Longrightarrow>
      now_running e k s' \<subseteq>
        now_running e k s \<union> (if suStatus u = JobStatusRunning then {p} else {})"
    and upd_finished: "ok e k \<Longrightarrow> upd e p k u s = (None, s') \<Longrightarrow> sane e k s \<Longrightarrow>
      suStatus u \<in> {JobStatusCompleted, JobStatusFailed} \<Longrightarrow> p \<notin> now_running e k s'"
begin

definition covered :: "'e \<Rightarrow> 'k \<Rightarrow> 's \<Rightarrow> string set \<Rightarrow> bool" where
  "covered e k s C \<longleftrightarrow> sane e k s \<and> now_running e k s \<subseteq> C"

lemma covered_start:
  "ok e k \<Longrightarrow> upd e p k u s = (r, s') \<Longrightarrow> covered e k s C \<Longrightarrow> covered e k s' (insert p C)"
  using upd_running [of e k p u s r s'] upd_sane [of e k p u s r s']
  by (auto simp: covered_def split: if_splits)

lemma covered_other:
  "ok e k \<Longrightarrow> upd e p k u s = (r, s') \<Longrightarrow> covered e k s C \<Longrightarrow> suStatus u \<noteq> JobStatusRunning \<Longrightarrow>
   covered e k s' C"
  using upd_running [of e k p u s r s'] upd_sane [of e k p u s r s'] by (auto simp: covered_def)

lemma covered_finished:
  assumes "ok e k" and "upd e p k u s = (None, s')" and "covered e k s C"
    and "suStatus u \<in> {JobStatusCompleted, JobStatusFailed}"
  shows "covered e k s' (C - {p})"
proof -
  have "covered e k s' C"
    using assms by (intro covered_other [OF assms(1,2)]) auto
  with upd_finished [OF assms(1,2) _ assms(4)] assms(3) show ?thesis
    by (auto simp: covered_def)
qed

end

definition store_ok ::
    "(job_view \<Rightarrow> job_view \<Rightarrow> bool) \<times> 'w env \<Rightarrow> renovate_job_identifier \<Rightarrow> bool" where
  "store_ok = (\<lambda>(I, E) k. kube_laws I E \<and> retry_law I E \<and> interference I \<and>
     never_starts I (key_of k))"

definition store_sane ::
    "(job_view \<Rightarrow> job_view \<Rightarrow> bool) \<times> 'w env \<Rightarrow> renovate_job_identifier \<Rightarrow> 'w sys \<Rightarrow> bool" where
  "store_sane e k s \<longleftrightarrow> tidy (sview (snd e) s) (key_of k)"

definition store_running ::
    "(job_view \<Rightarrow> job_view \<Rightarrow> bool) \<times> 'w env \<Rightarrow> renovate_job_identifier \<Rightarrow> 'w sys \<Rightarrow> string set" where
  "store_running e k s = running_names (view_projects (sview (snd e) s) (key_of k))"

lemma store_update:
  assumes "store_ok e k" and "UpdateProjectStatus (snd e) p k u s = (r, s')" and "store_sane e k s"
  shows "store_sane e k s' \<and> store_running e k s' \<subseteq>
    store_running e k s \<union> (if suStatus u = JobStatusRunning then {p} else {})"
proof -
  obtain I E where e: "e = (I, E)" by (cases e)
  with assms(1) have laws: "kube_laws I E" "retry_law I E" "interference I"
      "never_starts I (key_of k)"
    by (simp_all add: store_ok_def)
  from UpdateProjectStatus_effect [OF laws(1-3) assms(2) [unfolded e snd_conv]] assms(3)
  show ?thesis
    unfolding e store_sane_def store_running_def snd_conv
    by (intro write_effect_starts [OF laws(4) upserts_starts])
qed

lemma store_update_finished:
  assumes "store_ok e k" and "UpdateProjectStatus (snd e) p k u s = (None, s')"
    and "store_sane e k s" and "suStatus u \<in> {JobStatusCompleted, JobStatusFailed}"
  shows "p \<notin> store_running e k s'"
proof -
  obtain I E where e: "e = (I, E)" by (cases e)
  with assms(1) have laws: "kube_laws I E" "retry_law I E" "interference I"
      "never_starts I (key_of k)"
    by (simp_all add: store_ok_def)
  from UpdateProjectStatus_effect [OF laws(1-3) assms(2) [unfolded e snd_conv]]
  obtain u' sp st now where u': "I (sview E s) u'" "u' (key_of k) = Some (sp, st)"
    and after: "I (u'(key_of k \<mapsto> (sp, stored_status
      (st\<lparr>rsProjects := upsert_project now p u (rsProjects st)\<rparr>)))) (sview E s')"
    unfolding write_effect_def upserts_def by auto
  have tidy: "tidy (sview E s) (key_of k)" using assms(3) e by (simp add: store_sane_def)
  have "tidy u' (key_of k)" by (rule never_startsD [OF laws(4) u'(1) tidy])
  then have "distinct (map psName (rsProjects st))"
    using u'(2) by (simp add: tidy_def view_projects_def)
  note upsert = upsert_finished [OF this assms(4), of p now] upsert_distinct [OF this, of now p u]
  have "tidy (u'(key_of k \<mapsto> (sp, stored_status
      (st\<lparr>rsProjects := upsert_project now p u (rsProjects st)\<rparr>)))) (key_of k)"
    using upsert by (simp add: tidy_def view_projects_def)
  from never_startsD(2) [OF laws(4) after this] upsert show ?thesis
    by (auto simp: store_running_def e view_projects_def)
qed

interpretation store: status_store store_ok "\<lambda>e p k. UpdateProjectStatus (snd e) p k"
    store_sane store_running
  using store_update store_update_finished by unfold_locales blast+

section \<open>What an operation leaves alone\<close>

text \<open>A status operation changes the world and notes status updates; nothing else.\<close>

definition status_only :: "'w sys \<Rightarrow> 'w sys \<Rightarrow> bool" where
  "status_only s s' \<longleftrightarrow>
     (\<exists>w rjs. s' = s\<lparr>syWorld := w, syCalls := syCalls s @ map StatusUpdated rjs\<rparr>)"

lemma status_only_refl [simp]: "status_only s s"
  unfolding status_only_def by (intro exI [of _ "syWorld s"] exI [of _ "[]"]) simp

lemma status_only_world [simp]: "status_only s (s\<lparr>syWorld := w\<rparr>)"
  unfolding status_only_def by (intro exI [of _ w] exI [of _ "[]"]) simp

lemma status_only_trans: "status_only s t \<Longrightarrow> status_only t u \<Longrightarrow> status_only s u"
  unfolding status_only_def
proof (elim exE)
  fix w rjs w' rjs'
  assume "t = s\<lparr>syWorld := w, syCalls := syCalls s @ map StatusUpdated rjs\<rparr>"
    and "u = t\<lparr>syWorld := w', syCalls := syCalls t @ map StatusUpdated rjs'\<rparr>"
  then show "\<exists>w rjs. u = s\<lparr>syWorld := w, syCalls := syCalls s @ map StatusUpdated rjs\<rparr>"
    by (intro exI [of _ w'] exI [of _ "rjs @ rjs'"]) simp
qed

lemma save_status_only: "status_only s (snd (save_status E rj s))"
proof -
  obtain r s1 where w: "kube_write (eUpdateStatus E rj) (StatusUpdated rj) s = (r, s1)"
    by (cases "kube_write (eUpdateStatus E rj) (StatusUpdated rj) s")
  have "snd (save_status E rj s) = s1"
    using w by (cases "reloadRenovateJob E rj s1")
      (auto simp: save_status_def updateRenovateJobStatus_def split: option.split)
  moreover have "s1 = s\<lparr>syWorld := syWorld s1,
      syCalls := syCalls s @ map StatusUpdated (if r = None then [rj] else [])\<rparr>"
    using kube_write_frame [OF w] kube_write_calls [OF w] by simp
  ultimately show ?thesis unfolding status_only_def by blast
qed

lemma retries_status_only:
  assumes "retries I E f s r" and f: "\<And>s. status_only s (snd (f s))"
  shows "status_only s (snd r)"
  using assms(1)
proof (induction rule: retries.induct)
  case (last_run s r)
  with f [of s] show ?case by simp
next
  case (run_again s e s1 w r)
  have "status_only s s1" using f [of s] run_again.hyps(1) by simp
  with run_again.IH show ?case
    by (metis status_only_trans status_only_world)
qed

lemma UpdateProjectStatus_only:
  assumes "retry_law I E" and "UpdateProjectStatus E project job u s = (r, s')"
  shows "status_only s s'"
proof -
  have "retries I E (update_status_closure E project job u) s (r, s')"
    using assms unfolding retry_law_def UpdateProjectStatus_def by metis
  then have "status_only s (snd (r, s'))"
    by (rule retries_status_only)
      (simp add: update_status_closure_def save_status_only split: sum.split)
  then show ?thesis by simp
qed

lemma status_onlyE:
  assumes "status_only s s'"
  obtains rjs where "syCalls s' = syCalls s @ map StatusUpdated rjs"
    and "sySettings s' = sySettings s" and "syHealth s' = syHealth s"
    and "syMetrics s' = syMetrics s" and "syCleanups s' = syCleanups s"
    and "syDiscoveries s' = syDiscoveries s" and "syHttp s' = syHttp s"
  using assms unfolding status_only_def by auto

end
