(* ===== verification/Memory_Server.thy ===== *)
theory Memory_Server
  imports Renovate_Manager
begin

text \<open>
  A server kept in memory, as an instance of the environment: resources by name, jobs as a
  list, a clock that the waits advance, no other clients and no failures but a missing
  object. It satisfies every law that \<open>Kube\<close> states of the API server, so the properties that
  rest on those laws can be applied to it.
\<close>

record memory =
  meJobs :: "string \<times> string \<rightharpoonup> renovate_job"
  meKeys :: "(string \<times> string) list"
  meBatch :: "k8s_job list"
  meSecrets :: "string \<times> string \<rightharpoonup> (string \<rightharpoonup> string)"
  meClock :: time

definition memory_get :: "string \<Rightarrow> string \<Rightarrow> memory \<Rightarrow> go_error + renovate_job" where
  "memory_get n ns w = (case meJobs w (n, ns) of
     None \<Rightarrow> Inl (ErrNotFound n)
   | Some rj \<Rightarrow> Inr (rj\<lparr>rjName := n, rjNamespace := ns\<rparr>))"

definition memory_update_status :: "renovate_job \<Rightarrow> memory \<Rightarrow> go_error option \<times> memory" where
  "memory_update_status rj w = (case meJobs w (rjName rj, rjNamespace rj) of
     None \<Rightarrow> (Some (ErrNotFound (rjName rj)), w)
   | Some old \<Rightarrow> (None, w\<lparr>meJobs := (meJobs w)((rjName rj, rjNamespace rj) \<mapsto>
       old\<lparr>rjStatus := stored_status (rjStatus rj)\<rparr>)\<rparr>))"

definition memory_env :: "memory env" where
  "memory_env =
     \<lparr>eNow = meClock,
      eSleep = (\<lambda>d w. w\<lparr>meClock := meClock w + d\<rparr>),
      eGetRenovateJob = memory_get,
      eListRenovateJobs = (\<lambda>w. Inr (concat (map (\<lambda>k. case meJobs w k of None \<Rightarrow> [] | Some rj \<Rightarrow>
        [rj\<lparr>rjName := fst k, rjNamespace := snd k\<rparr>]) (meKeys w)))),
      eUpdateStatus = memory_update_status,
      eUpdateObject = (\<lambda>rj w. (Some (ErrOther ''read only''), w)),
      eListJobs = (\<lambda>ns m w. Inr (filter (\<lambda>j. jbNamespace j = ns \<and> m \<subseteq>\<^sub>m jbLabels j) (meBatch w))),
      eCreateJob = (\<lambda>j w. (None, w\<lparr>meBatch := meBatch w @
        [j\<lparr>jbName := jbGenerateName j @ show_nat (length (meBatch w))\<rparr>]\<rparr>)),
      eDeleteJob = (\<lambda>j w. (None, w\<lparr>meBatch := filter (\<lambda>i. jbName i \<noteq> jbName j) (meBatch w)\<rparr>)),
      eSetControllerReference = (\<lambda>rj j. Inr (JStr (rjName rj))),
      eGetSecret = (\<lambda>ns n w. case meSecrets w (ns, n) of None \<Rightarrow> Inl (ErrNotFound n) | Some d \<Rightarrow> Inr d),
      eClientset = (\<lambda>w. None),
      ePodsOfSelector = (\<lambda>ns l w. Inr []),
      ePodsOfJobName = (\<lambda>ns n w. Inr []),
      ePodLogs = (\<lambda>ns p c w. Inl (ErrNotFound p)),
      eHttpDo = (\<lambda>c m. (Inl (ErrOther ''connection refused''), m)),
      eRetryOnConflict = (\<lambda>f s. f s)\<rparr>"

lemma memory_view:
  "view memory_env w k = map_option (\<lambda>rj. (rjSpec rj, rjStatus rj)) (meJobs w k)"
  by (cases k) (auto simp: view_def memory_env_def memory_get_def split: option.split)

lemma memory_get_law: "law_get memory_env"
  unfolding law_get_def
proof (intro allI)
  fix n ns w
  show "case eGetRenovateJob memory_env n ns w of
      Inl e \<Rightarrow> \<not> is_conflict e | Inr rj \<Rightarrow> rjName rj = n \<and> rjNamespace rj = ns"
    by (cases "meJobs w (n, ns)") (simp_all add: memory_env_def memory_get_def)
qed

lemma memory_updated_law: "law_updated (=) memory_env"
  unfolding law_updated_def
proof (intro allI impI)
  fix rj w w'
  assume "eUpdateStatus memory_env rj w = (None, w')"
  then obtain old where old: "meJobs w (rjName rj, rjNamespace rj) = Some old"
    and w': "w' = w\<lparr>meJobs := (meJobs w)((rjName rj, rjNamespace rj) \<mapsto>
       old\<lparr>rjStatus := stored_status (rjStatus rj)\<rparr>)\<rparr>"
    by (auto simp: memory_env_def memory_update_status_def split: option.splits)
  show "\<exists>sp st. view memory_env w (rjName rj, rjNamespace rj) = Some (sp, st) \<and>
      (view memory_env w)((rjName rj, rjNamespace rj) \<mapsto> (sp, stored_status (rjStatus rj))) =
        view memory_env w'"
    by (intro exI [of _ "rjSpec old"] exI [of _ "rjStatus old"])
      (auto simp: memory_view old w' fun_eq_iff)
qed

lemma memory_refused_law: "law_refused (=) memory_env"
  by (auto simp: law_refused_def memory_env_def memory_update_status_def split: option.splits)

lemma memory_other_law: "law_other (=) memory_env"
proof -
  have "view memory_env (w\<lparr>meBatch := b\<rparr>) = view memory_env w"
    and "view memory_env (w\<lparr>meClock := t\<rparr>) = view memory_env w" for w b t
    by (simp_all add: fun_eq_iff memory_view)
  then show ?thesis
    by (auto simp: law_other_def memory_env_def)
qed

lemma memory_laws: "kube_laws (=) memory_env"
  by (simp add: kube_laws_def memory_get_law memory_updated_law memory_refused_law memory_other_law)

lemma memory_retry: "retry_law (=) memory_env"
  by (simp add: retry_law_def memory_env_def retries.last_run)

lemma eq_never_starts: "never_starts (=) k"
  by (simp add: never_starts_def)

lemma memory_store_ok: "store_ok ((=), memory_env) k"
  by (simp add: store_ok_def memory_laws memory_retry interference_eq eq_never_starts)

section \<open>A small world\<close>

definition example_project :: "string \<Rightarrow> renovate_project_status \<Rightarrow> int32 \<Rightarrow> project_status" where
  "example_project n st p = \<lparr>psName = n, psLastRun = 0, psDuration = None, psStatus = st,
     psPriority = p, psRenovateResultStatus = None\<rparr>"

definition example_job :: renovate_job where
  "example_job = \<lparr>rjName = ''job'', rjNamespace = ''ns'', rjAnnotations = Map.empty,
     rjMeta = JNull, rjSpec = zero_spec\<lparr>spParallelism := 2\<rparr>,
     rjStatus = \<lparr>rsProjects = [example_project ''a'' JobStatusScheduled 0,
         example_project ''b'' JobStatusRunning 0, example_project ''c'' JobStatusScheduled 1],
       rsExecutionOptions = None\<rparr>\<rparr>"

definition example_memory :: memory where
  "example_memory = \<lparr>meJobs = [(''job'', ''ns'') \<mapsto> example_job], meKeys = [(''job'', ''ns'')],
     meBatch = [], meSecrets = Map.empty, meClock = 1700000000 * second\<rparr>"

definition example_sys :: "memory sys" where
  "example_sys = \<lparr>syWorld = example_memory, sySettings = Map.empty, syHealth = NewHealthCheck,
     syMetrics = [], syCleanups = [], syDiscoveries = [], syHttp = [], syCalls = []\<rparr>"

definition example_id :: renovate_job_identifier where
  "example_id = \<lparr>riName = ''job'', riNamespace = ''ns''\<rparr>"

lemma example_view:
  "sview memory_env example_sys (key_of example_id) =
     Some (rjSpec example_job, rjStatus example_job)"
  by (simp add: memory_view example_sys_def example_memory_def example_id_def)

lemma example_tidy: "tidy (sview memory_env example_sys) (key_of example_id)"
  by (simp add: tidy_def view_projects_def example_view)
    (simp add: example_job_def example_project_def)

end
