(* ===== verification/Manager_Properties.thy ===== *)
theory Manager_Properties
  imports Memory_Server
begin

text \<open>
  Properties of the manager (\<open>renovateJobManager.go\<close>), of the life cycle of a project it
  enforces (\<open>projectStatus.go\<close>) and of the job store below it (\<open>jobManager.go\<close>), each with a
  witness on the in-memory server where it has hypotheses.
\<close>

section \<open>Lemmas\<close>

lemma running_update_projects:
  "suStatus u \<noteq> JobStatusRunning \<Longrightarrow>
   running_names (update_projects now fn u ps) \<subseteq> running_names ps"
proof (induction ps)
  case Nil
  then show ?case by (simp add: update_projects_def)
next
  case (Cons p ps)
  then show ?case
    using update_not_started [of now u p] by (auto simp: update_projects_def)
qed

lemma updates_starts: "suStatus u \<noteq> JobStatusRunning \<Longrightarrow> starts_at_most {} (updates fn u)"
  unfolding starts_at_most_def
proof (intro allI impI)
  fix st st' assume u: "suStatus u \<noteq> JobStatusRunning" and F: "updates fn u st st'"
    and d: "distinct (map psName (rsProjects st))"
  from F obtain now where st': "rsProjects st' = update_projects now fn u (rsProjects st)"
    by (auto simp: updates_def)
  show "distinct (map psName (rsProjects st')) \<and>
      running_names (rsProjects st') \<subseteq> running_names (rsProjects st) \<union> {}"
    using d running_update_projects [OF u] by (simp add: st' update_projects_names)
qed

lemma running_reconcile: "running_names (reconcile_projects now projects ps) \<subseteq> running_names ps"
proof
  fix n assume "n \<in> running_names (reconcile_projects now projects ps)"
  then obtain p q where p: "p = (case crd_project_set ps q of Some c \<Rightarrow> c
      | None \<Rightarrow> scheduled_project now q)" "psStatus p = JobStatusRunning" "n = psName p"
    by (auto simp: running_names_def reconcile_projects_def)
  then obtain c where "crd_project_set ps q = Some c" "p = c"
    by (auto simp: scheduled_project_def split: option.splits)
  with p crd_project_set_Some [of ps q c] show "n \<in> running_names ps"
    by (auto simp: running_names_def)
qed

lemma reconciles_starts: "distinct projects \<Longrightarrow> starts_at_most {} (reconciles projects)"
  unfolding starts_at_most_def
proof (intro allI impI)
  fix st st' assume d: "distinct projects" and F: "reconciles projects st st'"
  from F obtain now where st': "rsProjects st' = reconcile_projects now projects (rsProjects st)"
    by (auto simp: reconciles_def)
  show "distinct (map psName (rsProjects st')) \<and>
      running_names (rsProjects st') \<subseteq> running_names (rsProjects st) \<union> {}"
    using d running_reconcile by (simp add: st' reconcile_names)
qed

lemma options_starts: "starts_at_most {} (sets_options options)"
  by (simp add: starts_at_most_def sets_options_def)

text \<open>With no other writer, a write that reports success is exactly its change.\<close>

lemma write_effect_alone:
  assumes "write_effect (=) k F v None v'"
  shows "\<exists>sp st st'. v k = Some (sp, st) \<and> F st st' \<and> v' = v(k \<mapsto> (sp, stored_status st'))"
  using assms unfolding write_effect_def by auto

section \<open>Properties\<close>

text \<open>
  C24: The update function is the life cycle: a project keeps its name and moves to the wanted
  status exactly when that move is legal and otherwise stays; a priority is only raised by
  scheduling and is reset by every other legal move, and the last-run time changes exactly when a
  run ends.
\<close>
theorem update_refines_lifecycle:
  "psName (GetUpdateStatusForProject now u p) = psName p \<and>
   psStatus (GetUpdateStatusForProject now u p) =
     (if lifecycle (psStatus p) (suStatus u) then suStatus u else psStatus p) \<and>
   sint (psPriority (GetUpdateStatusForProject now u p)) =
     (if \<not> lifecycle (psStatus p) (suStatus u) then sint (psPriority p)
      else if suStatus u = JobStatusScheduled then max (sint (psPriority p)) (sint (suPriority u))
      else 0) \<and>
   psLastRun (GetUpdateStatusForProject now u p) =
     (if psStatus p = JobStatusRunning \<and> suStatus u \<in> {JobStatusCompleted, JobStatusFailed}
      then now else psLastRun p)"
  by (intro conjI psName_update psLastRun_update)
    (auto simp: psPriority_update psStatus_update next_status_def)

text \<open>
  C6: Only the executor starts anything. Whatever status other than running an update asks for,
  single or batched, and also reconciling with a list of distinct projects and changing the
  execution options, each keeps project names distinct and makes no further project running,
  even while other such writers interleave, and whether or not the operation reports an error.
\<close>
theorem only_executor_starts:
  assumes "kube_laws I E" and "retry_law I E" and "interference I" and "never_starts I (key_of job)"
    and "tidy (sview E s) (key_of job)"
    and "suStatus u \<noteq> JobStatusRunning" and "distinct projects"
    and "(r, s') \<in> {UpdateProjectStatus E project job u s, UpdateProjectStatusBatched E fn job u s,
      ReconcileProjects E job projects s, UpdateExecutionOptions E job options s}"
  shows "tidy (sview E s') (key_of job) \<and>
    running_names (view_projects (sview E s') (key_of job)) \<subseteq>
      running_names (view_projects (sview E s) (key_of job))"
proof -
  have single: "starts_at_most {} (upserts project u)"
    using upserts_starts [of u project] assms(6) by simp
  note starts = single updates_starts [OF assms(6), of fn] reconciles_starts [OF assms(7)]
    options_starts [of options]
  have "\<exists>F. starts_at_most {} F \<and> write_effect I (key_of job) F (sview E s) r (sview E s')"
    using assms(8) starts UpdateProjectStatus_effect [OF assms(1-3), of project job u s r s']
      UpdateProjectStatusBatched_effect [OF assms(1-3), of fn job u s r s']
      ReconcileProjects_effect [OF assms(1-3), of job projects s r s']
      UpdateExecutionOptions_effect [OF assms(1-3), of job options s r s']
    by (metis insertE singletonD)
  then obtain F where "starts_at_most {} F" "write_effect I (key_of job) F (sview E s) r (sview E s')"
    by blast
  from write_effect_starts [OF assms(4) this assms(5)] show ?thesis by simp
qed

theorem only_executor_starts_witness:
  "running_names (view_projects (sview memory_env (snd (ReconcileProjects memory_env example_id
     [''b'', ''d''] example_sys))) (key_of example_id)) \<subseteq> {''b''}"
proof -
  have "running_names (view_projects (sview memory_env example_sys) (key_of example_id)) = {''b''}"
    by (simp add: view_projects_def example_view)
      (simp add: example_job_def example_project_def)
  with only_executor_starts [OF memory_laws memory_retry interference_eq eq_never_starts
      example_tidy, of "mk_update JobStatusScheduled 0" "[''b'', ''d'']"
      "fst (ReconcileProjects memory_env example_id [''b'', ''d''] example_sys)"
      "snd (ReconcileProjects memory_env example_id [''b'', ''d''] example_sys)"]
  show ?thesis by simp
qed

lemma update_alone:
  assumes "kube_laws (=) E" and "retry_law (=) E"
    and "sview E s (key_of job) = Some (sp, st)" and "distinct (map psName (rsProjects st))"
    and "UpdateProjectStatus E project job u s = (None, s')"
  shows "\<exists>st'. sview E s' = (sview E s)(key_of job \<mapsto> (sp, st')) \<and>
    rsExecutionOptions st' = rsExecutionOptions st \<and>
    map (\<lambda>p. (psName p, psStatus p)) (rsProjects st') =
      (if project \<in> psName ` set (rsProjects st)
       then map (\<lambda>p. (psName p, if psName p = project then next_status (psStatus p) (suStatus u)
              else psStatus p)) (rsProjects st)
       else map (\<lambda>p. (psName p, psStatus p)) (rsProjects st) @ [(project, suStatus u)])"
proof -
  from write_effect_alone [OF UpdateProjectStatus_effect [OF assms(1,2) interference_eq assms(5)]]
  obtain now where v: "sview E s' = (sview E s)(key_of job \<mapsto>
      (sp, stored_status (st\<lparr>rsProjects := upsert_project now project u (rsProjects st)\<rparr>)))"
    using assms(3) by (auto simp: upserts_def)
  have "map (\<lambda>p. (psName p, psStatus p)) (map stored_project ps) =
      map (\<lambda>p. (psName p, psStatus p)) ps" for ps
    by simp
  then have m: "map (\<lambda>p. (psName p, psStatus p)) (map stored_project
        (upsert_project now project u (rsProjects st))) =
      (if project \<in> psName ` set (rsProjects st)
       then map (\<lambda>p. (psName p, if psName p = project then next_status (psStatus p) (suStatus u)
              else psStatus p)) (rsProjects st)
       else map (\<lambda>p. (psName p, psStatus p)) (rsProjects st) @ [(project, suStatus u)])"
    by (auto simp: upsert_project_cases map_first_distinct [OF assms(4)] new_project_def
        psStatus_update)
  let ?st' = "stored_status (st\<lparr>rsProjects := upsert_project now project u (rsProjects st)\<rparr>)"
  have o: "rsExecutionOptions ?st' = rsExecutionOptions st"
    and p: "rsProjects ?st' = map stored_project (upsert_project now project u (rsProjects st))"
    by simp_all
  show ?thesis
    by (intro exI [of _ ?st'] conjI v o) (simp only: p m)
qed



text \<open>
  C25: Reconciling with the discovered projects leaves exactly those, in discovery order: a
  project that was known keeps its record, a new one is scheduled with priority 0, and one that
  is not discovered any more is gone; the specification and the options are untouched.
\<close>
theorem reconcile_exact:
  assumes "kube_laws (=) E" and "retry_law (=) E"
    and "sview E s (key_of job) = Some (sp, st)" and "distinct (map psName (rsProjects st))"
    and "ReconcileProjects E job projects s = (None, s')"
  shows "\<exists>st'. sview E s' = (sview E s)(key_of job \<mapsto> (sp, st')) \<and>
    rsExecutionOptions st' = rsExecutionOptions st \<and>
    map psName (rsProjects st') = projects \<and>
    (\<forall>p \<in> set (rsProjects st').
       (\<forall>q \<in> set (rsProjects st). psName q = psName p \<longrightarrow> p = stored_project q) \<and>
       (psName p \<notin> psName ` set (rsProjects st) \<longrightarrow>
          psStatus p = JobStatusScheduled \<and> psPriority p = 0))"
proof -
  from write_effect_alone [OF ReconcileProjects_effect [OF assms(1,2) interference_eq assms(5)]]
  obtain now where v: "sview E s' = (sview E s)(key_of job \<mapsto>
      (sp, stored_status (st\<lparr>rsProjects := reconcile_projects now projects (rsProjects st)\<rparr>)))"
    using assms(3) by (auto simp: reconciles_def)
  let ?ps = "reconcile_projects now projects (rsProjects st)"
  have "p = stored_project q" if "p \<in> set (map stored_project ?ps)" "q \<in> set (rsProjects st)"
    "psName q = psName p" for p q
  proof -
    from that(1) obtain n where n: "n \<in> set projects" "p = stored_project
        (case crd_project_set (rsProjects st) n of Some c \<Rightarrow> c | None \<Rightarrow> scheduled_project now n)"
      by (auto simp: reconcile_projects_def)
    then have "psName p = n"
      using crd_project_set_Some [of "rsProjects st" n]
      by (auto simp: scheduled_project_def split: option.split)
    with that crd_project_set_distinct [OF assms(4) that(2)] n show ?thesis by simp
  qed
  moreover have "psStatus p = JobStatusScheduled \<and> psPriority p = 0"
    if p: "p \<in> set (map stored_project ?ps)" and new: "psName p \<notin> psName ` set (rsProjects st)" for p
  proof -
    from p obtain n where n: "p = stored_project
        (case crd_project_set (rsProjects st) n of Some c \<Rightarrow> c | None \<Rightarrow> scheduled_project now n)"
      by (auto simp: reconcile_projects_def)
    show ?thesis
    proof (cases "crd_project_set (rsProjects st) n")
      case None
      with n show ?thesis by (simp add: scheduled_project_def)
    next
      case (Some c)
      with n crd_project_set_Some [OF Some] new show ?thesis by auto
    qed
  qed
  moreover have "rsExecutionOptions (stored_status (st\<lparr>rsProjects := ?ps\<rparr>)) = rsExecutionOptions st"
    and p: "rsProjects (stored_status (st\<lparr>rsProjects := ?ps\<rparr>)) = map stored_project ?ps"
    by simp_all
  moreover have "map psName (map stored_project ?ps) = projects"
    by (simp add: reconcile_names)
  ultimately show ?thesis
    using v by (intro exI [of _ "stored_status (st\<lparr>rsProjects := ?ps\<rparr>)"] conjI) (simp_all only: p, blast+)
qed

theorem reconcile_exact_witness:
  "\<exists>st'. sview memory_env (snd (ReconcileProjects memory_env example_id [''d'', ''b''] example_sys))
      (''job'', ''ns'') = Some (rjSpec example_job, st') \<and>
    map psName (rsProjects st') = [''d'', ''b'']"
proof -
  let ?s' = "snd (ReconcileProjects memory_env example_id [''d'', ''b''] example_sys)"
  have run: "ReconcileProjects memory_env example_id [''d'', ''b''] example_sys = (None, ?s')"
    by (simp add: ReconcileProjects_def memory_env_def reconcile_closure_def loadRenovateJob_def
        memory_get_def example_sys_def example_memory_def example_id_def save_status_def Let_def
        updateRenovateJobStatus_def kube_write_def memory_update_status_def reloadRenovateJob_def)
  have d: "distinct (map psName (rsProjects (rjStatus example_job)))"
    by (simp add: example_job_def example_project_def)
  from reconcile_exact [OF memory_laws memory_retry example_view d run]
  show ?thesis by (elim exE conjE, intro exI conjI) (auto simp: example_id_def)
qed

section \<open>Well-typed resources\<close>

text \<open>
  A project as the operator means it: one of the four declared statuses, a priority that is not
  negative, and none but 0 unless it is scheduled. The same of an update.
\<close>

definition well_typed :: "renovate_project_status \<Rightarrow> int32 \<Rightarrow> bool" where
  "well_typed st priority \<longleftrightarrow> (\<forall>x. st \<noteq> OtherStatus x) \<and> 0 \<le> sint priority \<and>
     (st = JobStatusScheduled \<or> priority = 0)"

definition typed_projects :: "project_status list \<Rightarrow> bool" where
  "typed_projects = list_all (\<lambda>p. well_typed (psStatus p) (psPriority p))"

definition typed_store :: "job_view \<Rightarrow> bool" where
  "typed_store v \<longleftrightarrow> (\<forall>k. typed_projects (view_projects v k))"

definition keeps_type :: "(renovate_job_status \<Rightarrow> renovate_job_status \<Rightarrow> bool) \<Rightarrow> bool" where
  "keeps_type F \<longleftrightarrow>
     (\<forall>st st'. F st st' \<longrightarrow> typed_projects (rsProjects st) \<longrightarrow> typed_projects (rsProjects st'))"

lemma typed_stored [simp]: "typed_projects (map stored_project ps) = typed_projects ps"
  by (simp add: typed_projects_def list_all_iff)

lemma typed_update:
  assumes "well_typed (psStatus p) (psPriority p)" and "well_typed (suStatus u) (suPriority u)"
  shows "well_typed (psStatus (GetUpdateStatusForProject now u p))
    (psPriority (GetUpdateStatusForProject now u p))"
  using assms unfolding well_typed_def psStatus_update psPriority_update next_status_def
  by (cases "suStatus u") auto

lemma keeps_type_operations:
  assumes "well_typed (suStatus u) (suPriority u)"
  shows "keeps_type (upserts project u)" and "keeps_type (updates fn u)"
    and "keeps_type (reconciles projects)" and "keeps_type (sets_options options)"
proof -
  have first: "typed_projects (map_first P (GetUpdateStatusForProject now u) ps)" if "typed_projects ps" for P now ps
    using that typed_update [OF _ assms] by (induction ps) (auto simp: typed_projects_def)
  then show "keeps_type (upserts project u)"
    using assms by (auto simp: keeps_type_def upserts_def upsert_project_cases)
      (simp_all add: typed_projects_def new_project_def)
  show "keeps_type (updates fn u)"
    using typed_update [OF _ assms]
    by (auto simp: keeps_type_def updates_def typed_projects_def update_projects_def list_all_iff)
  have "typed_projects (reconcile_projects now projects ps)" if "typed_projects ps" for now ps
  proof -
    have "well_typed (psStatus c) (psPriority c)" if "crd_project_set ps n = Some c" for n c
      using crd_project_set_Some [OF that] \<open>typed_projects ps\<close> by (auto simp: typed_projects_def list_all_iff)
    then show ?thesis
      by (auto simp: typed_projects_def reconcile_projects_def list_all_iff scheduled_project_def
          well_typed_def split: option.split)
  qed
  then show "keeps_type (reconciles projects)" by (auto simp: keeps_type_def reconciles_def)
  show "keeps_type (sets_options options)" by (auto simp: keeps_type_def sets_options_def)
qed

lemma write_effect_typed:
  assumes "\<And>v v'. I v v' \<Longrightarrow> typed_store v \<Longrightarrow> typed_store v'" and "keeps_type F"
    and "write_effect I k F v r v'" and "typed_store v"
  shows "typed_store v'"
  using assms(3) unfolding write_effect_def
proof (elim disjE exE conjE)
  assume "I v v'"
  with assms(1,4) show ?thesis by blast
next
  fix u sp st st' assume u: "I v u" "u k = Some (sp, st)" and F: "F st st'"
    and v': "I (u(k \<mapsto> (sp, stored_status st'))) v'"
  from assms(1) [OF u(1) assms(4)] have t: "typed_store u" .
  then have "typed_projects (view_projects u k)" by (simp only: typed_store_def)
  with u(2) have "typed_projects (rsProjects st)" by (simp add: view_projects_def)
  with assms(2) F have "typed_projects (rsProjects st')" by (auto simp: keeps_type_def)
  with t have "typed_store (u(k \<mapsto> (sp, stored_status st')))"
    by (simp add: typed_store_def view_projects_def)
  with assms(1) [OF v'] show ?thesis by simp
qed

text \<open>
  C13: The operator keeps its resources well typed: every project has one of the four statuses and a
  priority that is not negative, and only a scheduled project has a priority other than 0. Every
  operation of the manager preserves this, with an update that is well typed itself, whatever
  error it ends with and while other such writers interleave.
\<close>
theorem resources_well_typed:
  assumes "kube_laws I E" and "retry_law I E" and "interference I"
    and "\<And>v v'. I v v' \<Longrightarrow> typed_store v \<Longrightarrow> typed_store v'"
    and "typed_store (sview E s)" and "well_typed (suStatus u) (suPriority u)"
    and "(r, s') \<in> {UpdateProjectStatus E project job u s, UpdateProjectStatusBatched E fn job u s,
      ReconcileProjects E job projects s, UpdateExecutionOptions E job options s}"
  shows "typed_store (sview E s')"
proof -
  have "\<exists>F. keeps_type F \<and> write_effect I (key_of job) F (sview E s) r (sview E s')"
    using assms(7) keeps_type_operations [OF assms(6)]
      UpdateProjectStatus_effect [OF assms(1-3), of project job u s r s']
      UpdateProjectStatusBatched_effect [OF assms(1-3), of fn job u s r s']
      ReconcileProjects_effect [OF assms(1-3), of job projects s r s']
      UpdateExecutionOptions_effect [OF assms(1-3), of job options s r s']
    by (metis insertE singletonD)
  then obtain F where "keeps_type F" "write_effect I (key_of job) F (sview E s) r (sview E s')" by blast
  from write_effect_typed [OF assms(4) this assms(5)] show ?thesis by simp
qed

theorem resources_well_typed_witness:
  "typed_store (sview memory_env (snd (UpdateProjectStatus memory_env ''c'' example_id
     (mk_update JobStatusScheduled 2) example_sys)))"
proof -
  have "typed_projects (projects_of example_job)"
    by (simp add: typed_projects_def example_job_def example_project_def well_typed_def)
  then have "typed_store (sview memory_env example_sys)"
    by (auto simp: typed_store_def view_projects_def memory_view example_sys_def example_memory_def
        typed_projects_def split: option.split)
  moreover have wt: "well_typed (suStatus (mk_update JobStatusScheduled 2)) (suPriority (mk_update JobStatusScheduled 2))"
    by (simp add: well_typed_def)
  moreover have "(fst x, snd x) \<in> {x, a, b, c}" for x a b c :: "go_error option \<times> memory sys" by simp
  ultimately show ?thesis
    using resources_well_typed [OF memory_laws memory_retry interference_eq _ _ wt, of example_sys]
    by blast
qed

end
