(* ===== verification/Job_Definitions.thy ===== *)
theory Job_Definitions
  imports Job_Manager
begin

text \<open>
  The Kubernetes jobs the operator submits, \<open>src/src/internal/renovate/jobDefinitions.go\<close>: the
  discovery job and the job of one project, built from the resource and the settings. The two
  Go functions build the same frame around one container, here \<open>batch_job\<close>. Pod and
  container values the code only fills in are written in their JSON form.
\<close>

section \<open>Settings\<close>

definition getJobTimeoutSeconds :: "settings \<Rightarrow> int64 option" where
  "getJobTimeoutSeconds m =
     (case ParseInt 64 (GetValue m ''JOB_TIMEOUT_SECONDS'') of
        None \<Rightarrow> Some 1800
      | Some val \<Rightarrow> Some (word_of_int val))"

definition getJobBackOffLimit :: "settings \<Rightarrow> int32 option" where
  "getJobBackOffLimit m =
     (case ParseInt 32 (GetValue m ''JOB_BACKOFF_LIMIT'') of
        None \<Rightarrow> Some 1800
      | Some val \<Rightarrow> Some (word_of_int val))"

definition getJobTTLSecondsAfterFinished :: "settings \<Rightarrow> int32 option" where
  "getJobTTLSecondsAfterFinished m =
     (let timeoutString = GetValue m ''JOB_TTL_SECONDS_AFTER_FINISHED''
      in if timeoutString = ''-1'' then None
         else (case ParseInt 32 timeoutString of
                 None \<Rightarrow> None
               | Some val \<Rightarrow> Some (word_of_int val)))"

text \<open>\<open>LocalObjectReference\<close> is a struct with the one field \<open>name\<close>.\<close>

definition dec_object_reference :: "string decoder" where
  "dec_object_reference = dec_struct [(''name'', dec_string)]"

definition getDefaultImagePullSecrets :: "settings \<Rightarrow> string list" where
  "getDefaultImagePullSecrets m =
     (let raw = GetValue m ''IMAGE_PULL_SECRETS''
      in if raw = [] \<or> raw = ''[]'' then []
         else (case unmarshal_into (dec_slice [] dec_object_reference) [] raw of
                 None \<Rightarrow> []
               | Some secrets \<Rightarrow> secrets))"

section \<open>Environment variables\<close>

definition env_value :: "string \<Rightarrow> string \<Rightarrow> env_var" where
  "env_value name v = \<lparr>evName = name, evValue = v, evValueFrom = None\<rparr>"

definition getDefaultEnvVars :: "renovate_job \<Rightarrow> env_var list" where
  "getDefaultEnvVars job =
     (let predefinedEnvVars = [env_value ''LOG_FORMAT'' ''json'', env_value ''NODE_NO_WARNINGS'' ''1''];
          predefinedEnvVars =
            (if spProvider (rjSpec job) \<noteq> None
             then let (platform, endpoint) = GetPlatformAndEndpoint (spProvider (rjSpec job))
                  in predefinedEnvVars @ [env_value ''RENOVATE_ENDPOINT'' endpoint,
                                          env_value ''RENOVATE_PLATFORM'' platform]
             else predefinedEnvVars)
      in (case rsExecutionOptions (rjStatus job) of
            None \<Rightarrow> predefinedEnvVars
          | Some options \<Rightarrow>
              if eoDebug options then predefinedEnvVars @ [env_value ''LOG_LEVEL'' ''debug'']
              else predefinedEnvVars))"

text \<open>
  The loop over the predefined variables looks names up in the set of the extra ones, which
  does not change.
\<close>

definition mergeEnvVars :: "env_var list \<Rightarrow> env_var list \<Rightarrow> env_var list" where
  "mergeEnvVars extraEnv predefinedEnv =
     fold (\<lambda>env result.
             if evName env \<notin> evName ` set extraEnv then result @ [env] else result)
       predefinedEnv extraEnv"

definition discovery_env :: "renovate_job \<Rightarrow> env_var list" where
  "discovery_env job =
     (let predefinedEnvVars = getDefaultEnvVars job;
          predefinedEnvVars =
            (if spDiscoveryFilter (rjSpec job) \<noteq> []
             then predefinedEnvVars @ [env_value ''RENOVATE_AUTODISCOVER_FILTER''
                    (spDiscoveryFilter (rjSpec job))]
             else predefinedEnvVars)
      in if spDiscoverTopics (rjSpec job) \<noteq> []
         then predefinedEnvVars @ [env_value ''RENOVATE_AUTODISCOVER_TOPICS''
                (spDiscoverTopics (rjSpec job))]
         else predefinedEnvVars)"

section \<open>Pod settings\<close>

definition json_id :: json where
  "json_id = JNum ''12021''"

definition seccomp_default :: json where
  "seccomp_default = JObj [(''type'', JStr ''RuntimeDefault'')]"

definition getPodSecurityContext :: "renovate_job_spec \<Rightarrow> json" where
  "getPodSecurityContext spec =
     (case Option.bind (spSecurityContext spec) scPod of
        Some pod \<Rightarrow> pod
      | None \<Rightarrow> JObj [(''runAsUser'', json_id), (''runAsGroup'', json_id), (''fsGroup'', json_id),
                   (''runAsNonRoot'', JBool True), (''seccompProfile'', seccomp_default)])"

definition getContainerSecurityContext :: "renovate_job_spec \<Rightarrow> json" where
  "getContainerSecurityContext spec =
     (case Option.bind (spSecurityContext spec) scContainer of
        Some container \<Rightarrow> container
      | None \<Rightarrow> JObj [(''runAsUser'', json_id), (''runAsGroup'', json_id),
                   (''runAsNonRoot'', JBool True), (''seccompProfile'', seccomp_default),
                   (''readOnlyRootFilesystem'', JBool False), (''privileged'', JBool False),
                   (''allowPrivilegeEscalation'', JBool False),
                   (''capabilities'', JObj [(''drop'', JArr [JStr ''ALL''])])])"

definition getAutoMountServiceAccountToken :: "renovate_job_spec \<Rightarrow> bool option" where
  "getAutoMountServiceAccountToken spec =
     (case spServiceAccount spec of
        Some sa \<Rightarrow> (case saAutomountServiceAccountToken sa of
                     Some b \<Rightarrow> Some b | None \<Rightarrow> Some False)
      | None \<Rightarrow> Some False)"

definition getServiceAccountName :: "renovate_job_spec \<Rightarrow> string" where
  "getServiceAccountName spec =
     (case spServiceAccount spec of Some sa \<Rightarrow> saName sa | None \<Rightarrow> [])"

definition getDNSPolicy :: "renovate_job_spec \<Rightarrow> string" where
  "getDNSPolicy spec = (if spDNSPolicy spec \<noteq> [] then spDNSPolicy spec else ''ClusterFirst'')"

text \<open>The operator's own labels, then the user's over them, as \<open>maps.Copy\<close> leaves it.\<close>

definition getJobLabels ::
    "renovate_job_metadata option \<Rightarrow> job_type \<Rightarrow> string \<Rightarrow> string \<rightharpoonup> string" where
  "getJobLabels metadata jobType jobName =
     (let labels = [JOB_LABEL_TYPE \<mapsto> job_type_string jobType, JOB_LABEL_NAME \<mapsto> jobName]
      in case metadata of None \<Rightarrow> labels | Some md \<Rightarrow> labels ++ mdLabels md)"

section \<open>The jobs\<close>

definition env_from_sources :: "renovate_job_spec \<Rightarrow> json list" where
  "env_from_sources spec =
     (if spSecretRef spec \<noteq> []
      then [JObj [(''secretRef'', JObj [(''name'', JStr (spSecretRef spec))])]] else [])
     @ spExtraEnvFrom spec"

definition tmp_volume :: json where
  "tmp_volume = JObj [(''name'', JStr ''tmp''), (''emptyDir'', JObj [])]"

definition tmp_volume_mount :: json where
  "tmp_volume_mount = JObj [(''name'', JStr ''tmp''), (''mountPath'', JStr ''/tmp'')]"

definition batch_job ::
    "settings \<Rightarrow> renovate_job \<Rightarrow> string \<Rightarrow> string list \<Rightarrow> string list \<Rightarrow> env_var list \<Rightarrow>
     job_type \<Rightarrow> string \<Rightarrow> k8s_job" where
  "batch_job m job containerName command args predefinedEnvVars jobType jobName =
     (let spec = rjSpec job in
      \<lparr>jbName = [],
       jbGenerateName = jobName,
       jbNamespace = rjNamespace job,
       jbLabels = getJobLabels (spMetadata spec) jobType jobName,
       jbAnnotations = (case spMetadata spec of None \<Rightarrow> Map.empty | Some md \<Rightarrow> mdAnnotations md),
       jbOwner = JNull,
       jbActiveDeadlineSeconds = getJobTimeoutSeconds m,
       jbBackoffLimit = getJobBackOffLimit m,
       jbTTLSecondsAfterFinished = getJobTTLSecondsAfterFinished m,
       jbSelector = JNull,
       jbPodSpec =
         \<lparr>pdServiceAccountName = getServiceAccountName spec,
          pdImagePullSecrets = spImagePullSecrets spec @ getDefaultImagePullSecrets m,
          pdTerminationGracePeriodSeconds = Some 0,
          pdContainers =
            [\<lparr>cnName = containerName,
              cnCommand = command,
              cnArgs = args,
              cnImage = spImage spec,
              cnEnv = mergeEnvVars (spExtraEnv spec) predefinedEnvVars,
              cnEnvFrom = env_from_sources spec,
              cnResources = spResources spec,
              cnVolumeMounts = tmp_volume_mount # spExtraVolumeMounts spec,
              cnSecurityContext = getContainerSecurityContext spec\<rparr>],
          pdSecurityContext = getPodSecurityContext spec,
          pdAutomountServiceAccountToken = getAutoMountServiceAccountToken spec,
          pdRestartPolicy = ''Never'',
          pdDNSPolicy = getDNSPolicy spec,
          pdNodeSelector = spNodeSelector spec,
          pdAffinity = spAffinity spec,
          pdTolerations = spTolerations spec,
          pdTopologySpreadConstraints = spTopologySpreadConstraints spec,
          pdVolumes = tmp_volume # spExtraVolumes spec\<rparr>,
       jbConditions = [], jbStartTime = None, jbCompletionTime = None,
       jbFailed = 0, jbSucceeded = 0\<rparr>)"

definition discovery_command :: string where
  "discovery_command = ''renovate --autodiscover --write-discovered-repos /tmp/repos.json >> /tmp/logs.json 2>&1 && cat /tmp/repos.json || cat /tmp/logs.json''"

definition newDiscoveryJob :: "settings \<Rightarrow> renovate_job \<Rightarrow> k8s_job" where
  "newDiscoveryJob m job =
     batch_job m job ''discovery'' [''/bin/sh'', ''-c''] [discovery_command] (discovery_env job)
       DiscoveryJobType (DiscoveryJobName job)"

definition newRenovateJob :: "settings \<Rightarrow> renovate_job \<Rightarrow> string \<Rightarrow> k8s_job" where
  "newRenovateJob m job project =
     batch_job m job ''renovate'' [''renovate''] [''--base-dir'', ''/tmp'', project]
       (getDefaultEnvVars job) ExecutorJobType (ExecutorJobName job project)"

section \<open>Lemmas\<close>

lemma mergeEnvVars_filter:
  "mergeEnvVars extraEnv predefinedEnv =
     extraEnv @ filter (\<lambda>env. evName env \<notin> evName ` set extraEnv) predefinedEnv"
proof -
  have "fold (\<lambda>env result. if P env then result @ [env] else result) xs acc = acc @ filter P xs"
    for P :: "env_var \<Rightarrow> bool" and xs acc
    by (induction xs arbitrary: acc) auto
  then show ?thesis by (simp add: mergeEnvVars_def)
qed

lemma getJobLabels_user:
  "getJobLabels (Some md) t n l =
     (case mdLabels md l of Some v \<Rightarrow> Some v
      | None \<Rightarrow> if l = JOB_LABEL_NAME then Some n
                else if l = JOB_LABEL_TYPE then Some (job_type_string t) else None)"
  by (simp add: getJobLabels_def Let_def map_add_def split: option.split)

text \<open>The labels that \<open>GetJobByLabel\<close> looks for, unless the user's metadata hides them.\<close>

definition keeps_operator_labels :: "renovate_job_spec \<Rightarrow> bool" where
  "keeps_operator_labels spec \<longleftrightarrow> (case spMetadata spec of None \<Rightarrow> True
     | Some md \<Rightarrow> mdLabels md JOB_LABEL_NAME = None \<and> mdLabels md JOB_LABEL_TYPE = None)"

lemma getJobLabels_found:
  "keeps_operator_labels spec \<Longrightarrow>
   getJobLabels (spMetadata spec) t n JOB_LABEL_NAME = Some n \<and>
   getJobLabels (spMetadata spec) t n JOB_LABEL_TYPE = Some (job_type_string t)"
  by (auto simp: keeps_operator_labels_def getJobLabels_def Let_def map_add_def split: option.splits)

end
