(* ===== verification/Json_Text.thy ===== *)
theory Json_Text
  imports Json
begin

text \<open>
  The scanner against the grammar: \<open>json_text\<close> writes a value in JSON's canonical form, and
  reading it back gives the value, alone or before any other bytes. Programs that write the
  operator's inputs (Renovate's log lines and its list of discovered repositories) write
  JSON of this form.
\<close>

section \<open>Writing\<close>

definition plain_char :: "char \<Rightarrow> bool" where
  "plain_char c \<longleftrightarrow> 32 \<le> (of_char c :: nat) \<and> (of_char c :: nat) < 128"

definition quote_char :: "char \<Rightarrow> string" where
  "quote_char c = (if c = CHR 0x22 \<or> c = CHR 0x5C then [CHR 0x5C, c] else [c])"

definition quote_string :: "string \<Rightarrow> string" where
  "quote_string s = CHR 0x22 # concat (map quote_char s) @ [CHR 0x22]"

fun num_run :: "num_state \<Rightarrow> string \<Rightarrow> num_state option" where
  "num_run n [] = Some n"
| "num_run n (c # cs) = (case num_step n c of None \<Rightarrow> None | Some n' \<Rightarrow> num_run n' cs)"

definition num_literal :: "string \<Rightarrow> bool" where
  "num_literal s =
     (case s of
        [] \<Rightarrow> False
      | c # cs \<Rightarrow>
          (case num_start c of
             None \<Rightarrow> False
           | Some n \<Rightarrow> (case num_run n cs of None \<Rightarrow> False | Some n' \<Rightarrow> num_final n')))"

text \<open>Values with printable ASCII strings and well-formed numbers.\<close>

fun plain_json :: "json \<Rightarrow> bool" where
  "plain_json JNull = True"
| "plain_json (JBool b) = True"
| "plain_json (JNum n) = num_literal n"
| "plain_json (JStr s) = list_all plain_char s"
| "plain_json (JArr vs) = list_all plain_json vs"
| "plain_json (JObj ms) = list_all (\<lambda>(k, v). list_all plain_char k \<and> plain_json v) ms"

fun json_text :: "json \<Rightarrow> string" where
  "json_text JNull = ''null''"
| "json_text (JBool b) = (if b then ''true'' else ''false'')"
| "json_text (JNum n) = n"
| "json_text (JStr s) = quote_string s"
| "json_text (JArr vs) = ''['' @ strings_Join (map json_text vs) '','' @ '']''"
| "json_text (JObj ms) =
     ''{'' @ strings_Join (map (\<lambda>(k, v). quote_string k @ '':'' @ json_text v) ms) '','' @ ''}''"

fun json_depth :: "json \<Rightarrow> nat" where
  "json_depth (JArr vs) = Suc (foldr (\<lambda>v d. max (json_depth v) d) vs 0)"
| "json_depth (JObj ms) = Suc (foldr (\<lambda>(k, v) d. max (json_depth v) d) ms 0)"
| "json_depth _ = 0"

section \<open>Strings and numbers\<close>

lemma plain_bytes: "plain_char c \<Longrightarrow> (of_char c :: nat) < 128 \<and> 32 \<le> (of_char c :: nat)"
  by (simp add: plain_char_def)

lemma of_char_quotes:
  "(of_char c :: nat) = 92 \<longleftrightarrow> c = CHR 0x5C" "(of_char c :: nat) = 34 \<longleftrightarrow> c = CHR 0x22"
proof -
  have "(of_char c :: nat) = of_char CHR 0x5C \<longleftrightarrow> c = CHR 0x5C"
    and "(of_char c :: nat) = of_char CHR 0x22 \<longleftrightarrow> c = CHR 0x22"
    by (simp_all only: of_char_eq_iff)
  then show "(of_char c :: nat) = 92 \<longleftrightarrow> c = CHR 0x5C" "(of_char c :: nat) = 34 \<longleftrightarrow> c = CHR 0x22"
    by simp_all
qed

lemma unquote_escape: "e \<noteq> 117 \<Longrightarrow> unquote (92 # e # bs) = simple_escape e # unquote bs"
  by (subst unquote.simps) simp

lemma unquote_ascii: "b < 128 \<Longrightarrow> b \<noteq> 92 \<Longrightarrow> unquote (b # bs) = b # unquote bs"
  by (subst unquote.simps) simp

lemma unquote_Nil [simp]: "unquote [] = []"
  by (subst unquote.simps) simp

lemma unquote_quote_char:
  assumes "plain_char c"
  shows "unquote (bytes_of (quote_char c) @ bs) = of_char c # unquote bs"
proof (cases "c = CHR 0x22 \<or> c = CHR 0x5C")
  case True
  then show ?thesis
    by (auto simp: quote_char_def bytes_of_def unquote_escape simple_escape_def)
next
  case False
  then show ?thesis
    using plain_bytes [OF assms]
    by (simp add: quote_char_def bytes_of_def unquote_ascii of_char_quotes)
qed

lemma unquote_plain:
  "list_all plain_char s \<Longrightarrow> unquote (bytes_of (concat (map quote_char s))) = bytes_of s"
proof (induction s)
  case Nil
  then show ?case by (simp add: bytes_of_def)
next
  case (Cons c s)
  have "bytes_of (concat (map quote_char (c # s))) =
      bytes_of (quote_char c) @ bytes_of (concat (map quote_char s))"
    by (simp add: bytes_of_def)
  with Cons show ?case
    by (simp add: unquote_quote_char) (simp add: bytes_of_def)
qed

lemma unquote_string_plain:
  "list_all plain_char s \<Longrightarrow> unquote_string (concat (map quote_char s)) = s"
  by (simp add: unquote_string_def unquote_plain) (simp add: bytes_of_def comp_def)

text \<open>Reading the body of a string literal up to its closing quote.\<close>

lemma json_before_id [simp]:
  "json_before c (MValue, st) = (MValue, st)" "json_before c (MArrFirst, st) = (MArrFirst, st)"
  "json_before c (MObjFirst, st) = (MObjFirst, st)" "json_before c (MKey, st) = (MKey, st)"
  "json_before c (MColon, st) = (MColon, st)" "json_before c (MAfter, st) = (MAfter, st)"
  "json_before c (MString k e acc, st) = (MString k e acc, st)"
  "json_before c (MLiteral r v, st) = (MLiteral r v, st)"
  "json_before c (MDone v, st) = (MDone v, st)" "json_before c (MFail, st) = (MFail, st)"
  by (simp_all add: json_before_def)

lemma step_quote_char:
  assumes "plain_char c"
  shows "foldl json_step (MString k SPlain acc, st) (quote_char c) =
    (MString k SPlain (acc @ quote_char c), st)"
  using plain_bytes [OF assms] by (auto simp: quote_char_def json_step_def)

lemma step_quoted:
  "list_all plain_char s \<Longrightarrow>
   foldl json_step (MString k SPlain acc, st) (concat (map quote_char s)) =
     (MString k SPlain (acc @ concat (map quote_char s)), st)"
  by (induction s arbitrary: acc) (auto simp: step_quote_char)

lemma step_close:
  "json_step (MString k SPlain acc, st) CHR 0x22 = json_close_string k (unquote_string acc) st"
  by (simp add: json_step_def)

lemma step_number:
  "num_run n cs = Some n' \<Longrightarrow>
   foldl json_step (MNumber n acc, st) cs = (MNumber n' (acc @ cs), st)"
  by (induction cs arbitrary: n acc)
    (auto simp: json_step_def json_before_def split: option.splits if_splits)

text \<open>A value may begin where one is expected, and at the front of an array.\<close>

definition value_mode :: "json_mode \<Rightarrow> bool" where
  "value_mode m \<longleftrightarrow> m = MValue \<or> m = MArrFirst"

definition begins :: "char \<Rightarrow> bool" where
  "begins c \<longleftrightarrow> \<not> is_json_space c \<and> c \<noteq> CHR '']''"

lemma step_begin:
  "value_mode m \<Longrightarrow> begins c \<Longrightarrow> json_step (m, st) c = json_begin c st"
  by (auto simp: value_mode_def begins_def json_step_def)

lemma begins_simps [simp]:
  "begins CHR 0x22" "begins CHR ''[''" "begins CHR ''{''" "begins CHR ''t''"
  "begins CHR ''f''" "begins CHR ''n''"
  by (simp_all add: begins_def is_json_space_def)

lemma num_start_begins: "num_start c = Some n \<Longrightarrow> begins c"
  by (auto simp: num_start_def begins_def is_json_space_def is_digit_def split: if_splits)

lemma num_start_not:
  "num_start CHR 0x22 = None" "num_start CHR ''['' = None" "num_start CHR ''{'' = None"
  "num_start CHR ''t'' = None" "num_start CHR ''f'' = None" "num_start CHR ''n'' = None"
  by (simp_all add: num_start_def is_digit_def)

lemma begin_number:
  assumes "num_start c = Some n"
  shows "json_begin c st = (MNumber n [c], st)"
proof -
  have ne: "c \<noteq> d" if "num_start d = None" for d
    using that assms by auto
  show ?thesis
    using assms by (simp only: json_begin_def num_start_not [THEN ne] if_False option.case)
qed

lemma num_step_delimiter:
  "c \<in> {CHR '','', CHR '']'', CHR ''}''} \<Longrightarrow> num_step n c = None"
  by (cases n) (auto simp: is_digit_def)

section \<open>Reading back\<close>

text \<open>
  The text of a value, read: the value is delivered, or it is a number that is complete but
  may still be continued.
\<close>

definition value_read :: "json \<Rightarrow> json_frame list \<Rightarrow> json_state \<Rightarrow> bool" where
  "value_read v st s \<longleftrightarrow> s = json_deliver v st \<or>
     (\<exists>n acc. v = JNum acc \<and> num_final n \<and> s = (MNumber n acc, st))"

definition reads :: "json \<Rightarrow> bool" where
  "reads v \<longleftrightarrow> (\<forall>m st. value_mode m \<longrightarrow> length st + json_depth v \<le> 10000 \<longrightarrow>
     value_read v st (foldl json_step (m, st) (json_text v)))"

lemma reads_value:
  "reads v \<Longrightarrow> value_mode m \<Longrightarrow> length st + json_depth v \<le> 10000 \<Longrightarrow>
   value_read v st (foldl json_step (m, st) (json_text v))"
  unfolding reads_def by blast

lemma step_delivered:
  assumes "value_read v (f # st) s" and "d \<in> {CHR '','', CHR '']'', CHR ''}''}"
  shows "json_step s d = json_step (json_deliver v (f # st)) d"
  using assms num_step_delimiter [OF assms(2)]
  by (cases f) (auto simp: value_read_def json_step_def json_before_def)

lemma value_mode_simps [simp]: "value_mode MValue" "value_mode MArrFirst"
  by (simp_all add: value_mode_def)

lemma step_after:
  "json_step (MAfter, FArr acc # st) CHR '','' = (MValue, FArr acc # st)"
  "json_step (MAfter, FArr acc # st) CHR '']'' = json_deliver (JArr acc) st"
  "json_step (MAfter, FObj ms k # st) CHR '','' = (MKey, FObj ms k # st)"
  "json_step (MAfter, FObj ms k # st) CHR ''}'' = json_deliver (JObj ms) st"
  by (simp_all add: json_step_def is_json_space_def)

lemma step_literal:
  "json_step (MLiteral (x # xs) v, st) x =
     (if xs = [] then json_deliver v st else (MLiteral xs v, st))"
  by (simp add: json_step_def)

lemma read_elements:
  assumes "vs \<noteq> []" and "\<forall>v \<in> set vs. reads v \<and> Suc (length st) + json_depth v \<le> 10000"
    and "value_mode m"
  shows "foldl json_step (m, FArr acc # st) (strings_Join (map json_text vs) '','' @ '']'') =
    json_deliver (JArr (acc @ vs)) st"
  using assms
proof (induction vs arbitrary: acc m)
  case Nil
  then show ?case by simp
next
  case (Cons v vs)
  have v: "value_read v (FArr acc # st) (foldl json_step (m, FArr acc # st) (json_text v))"
    using Cons.prems by (intro reads_value) auto
  note step = step_delivered [OF v]
  show ?case
  proof (cases "vs = []")
    case True
    then show ?thesis using step by (simp add: step_after)
  next
    case False
    with Cons.IH [OF False, of MValue "acc @ [v]"] Cons.prems step show ?thesis
      by (simp add: Join_Cons step_after)
  qed
qed

lemma read_key:
  assumes "m = MKey \<or> m = MObjFirst" and "list_all plain_char k"
  shows "foldl json_step (m, FObj ms k0 # st) (quote_string k @ '':'') = (MValue, FObj ms k # st)"
proof -
  have "json_step (m, FObj ms k0 # st) CHR 0x22 = (MString True SPlain [], FObj ms k0 # st)"
    using assms(1) by (auto simp: json_step_def is_json_space_def)
  moreover have "json_step (MColon, FObj ms k # st) CHR '':'' = (MValue, FObj ms k # st)"
    by (simp add: json_step_def is_json_space_def)
  ultimately show ?thesis
    using assms(2) by (simp add: quote_string_def step_quoted step_close unquote_string_plain)
qed

lemma read_members:
  assumes "ms \<noteq> []" and "\<forall>(k, v) \<in> set ms. list_all plain_char k \<and> reads v \<and>
      Suc (length st) + json_depth v \<le> 10000"
    and "m = MKey \<or> m = MObjFirst"
  shows "foldl json_step (m, FObj acc k0 # st)
      (strings_Join (map (\<lambda>(k, v). quote_string k @ '':'' @ json_text v) ms) '','' @ ''}'') =
    json_deliver (JObj (acc @ ms)) st"
  using assms
proof (induction ms arbitrary: acc m k0)
  case Nil
  then show ?case by simp
next
  case (Cons kv ms)
  obtain k v where kv: "kv = (k, v)" by (cases kv)
  have key: "foldl json_step (m, FObj acc k0 # st) (quote_string k @ '':'') =
      (MValue, FObj acc k # st)"
    using Cons.prems kv by (intro read_key) auto
  have v: "value_read v (FObj acc k # st) (foldl json_step (MValue, FObj acc k # st) (json_text v))"
    using Cons.prems kv by (intro reads_value) auto
  note step = step_delivered [OF v] key
  show ?case
  proof (cases "ms = []")
    case True
    then show ?thesis using step kv by (simp add: step_after)
  next
    case False
    with Cons.IH [OF False, of MKey "acc @ [(k, v)]" k] Cons.prems step kv show ?thesis
      by (simp add: Join_Cons step_after)
  qed
qed

lemma depth_arr: "v \<in> set vs \<Longrightarrow> json_depth v < json_depth (JArr vs)"
  by (induction vs) (auto simp: less_Suc_eq_le le_max_iff_disj)

lemma depth_obj: "(k, v) \<in> set ms \<Longrightarrow> json_depth v < json_depth (JObj ms)"
  by (induction ms) (auto simp: less_Suc_eq_le le_max_iff_disj)

lemma reads_plain: "plain_json v \<Longrightarrow> reads v"
proof (induction v)
  case JNull
  then show ?case
    by (simp add: reads_def value_read_def step_begin json_begin_def step_literal)
next
  case (JBool b)
  then show ?case
    by (cases b) (simp_all add: reads_def value_read_def step_begin json_begin_def step_literal)
next
  case (JNum s)
  then obtain c cs n n' where s: "s = c # cs" "num_start c = Some n" "num_run n cs = Some n'"
      "num_final n'"
    by (auto simp: num_literal_def split: list.splits option.splits)
  have "json_step (m, st) c = (MNumber n [c], st)" if "value_mode m" for m and st :: "json_frame list"
    using that s(2) by (simp add: step_begin num_start_begins begin_number)
  with s step_number [OF s(3), of "[c]"] show ?case
    by (auto simp: reads_def value_read_def)
next
  case (JStr s)
  have "json_step (m, st) CHR 0x22 = (MString False SPlain [], st)" if "value_mode m" for m and st :: "json_frame list"
    using that by (simp add: step_begin json_begin_def)
  with JStr show ?case
    by (auto simp: reads_def value_read_def quote_string_def step_quoted step_close
        unquote_string_plain)
next
  case (JArr vs)
  show ?case
    unfolding reads_def
  proof (intro allI impI)
    fix m and st :: "json_frame list" assume m: "value_mode m" and d: "length st + json_depth (JArr vs) \<le> 10000"
    have "json_step (m, st) CHR ''['' = (MArrFirst, FArr [] # st)"
      using m d by (simp add: step_begin json_begin_def json_push_def)
    moreover have "json_step (MArrFirst, FArr [] # st) CHR '']'' = json_deliver (JArr []) st"
      by (simp add: json_step_def is_json_space_def)
    moreover have "\<forall>v \<in> set vs. reads v \<and> Suc (length st) + json_depth v \<le> 10000"
      using JArr d depth_arr by (fastforce simp: list_all_iff simp del: json_depth.simps)
    ultimately show "value_read (JArr vs) st (foldl json_step (m, st) (json_text (JArr vs)))"
      using read_elements [of vs st MArrFirst "[]"]
      by (cases "vs = []") (simp_all add: value_read_def)
  qed
next
  case (JObj ms)
  show ?case
    unfolding reads_def
  proof (intro allI impI)
    fix m and st :: "json_frame list" assume m: "value_mode m" and d: "length st + json_depth (JObj ms) \<le> 10000"
    have "json_step (m, st) CHR ''{'' = (MObjFirst, FObj [] [] # st)"
      using m d by (simp add: step_begin json_begin_def json_push_def)
    moreover have "json_step (MObjFirst, FObj [] [] # st) CHR ''}'' = json_deliver (JObj []) st"
      by (simp add: json_step_def is_json_space_def)
    moreover have "\<forall>(k, v) \<in> set ms. list_all plain_char k \<and> reads v \<and>
        Suc (length st) + json_depth v \<le> 10000"
      using JObj d depth_obj by (fastforce simp: list_all_iff simp del: json_depth.simps)
    ultimately show "value_read (JObj ms) st (foldl json_step (m, st) (json_text (JObj ms)))"
      using read_members [of ms st MObjFirst "[]" "[]"]
      by (cases "ms = []") (simp_all add: value_read_def)
  qed
qed

lemma unmarshal_json_text:
  assumes "plain_json v" and "json_depth v \<le> 10000"
  shows "json_unmarshal (json_text v) = Some v"
proof -
  have "value_read v [] (foldl json_step (MValue, []) (json_text v))"
    using assms by (intro reads_value) (simp_all add: reads_plain)
  then show ?thesis
    by (auto simp: json_unmarshal_def json_result_def value_read_def)
qed

text \<open>A stream that holds one whole text is read as that text.\<close>

lemma step_fail: "json_step (MFail, st) c = (MFail, st)"
  by (simp add: json_step_def)

lemma foldl_fail: "foldl json_step (MFail, st) cs = (MFail, st)"
  by (induction cs) (simp_all add: step_fail)

lemma stream_step_agrees:
  "fst (json_step s c) \<noteq> MFail \<Longrightarrow> json_stream_step s c = json_step s c"
  by (auto simp: json_step_def json_stream_step_def split: prod.splits json_mode.splits if_splits)

lemma stream_agrees:
  "fst (foldl json_step s cs) \<noteq> MFail \<Longrightarrow> foldl json_stream_step s cs = foldl json_step s cs"
proof (induction cs arbitrary: s)
  case Nil
  then show ?case by simp
next
  case (Cons c cs)
  obtain m st where step: "json_step s c = (m, st)" by fastforce
  have "m \<noteq> MFail"
    using Cons.prems step by (auto simp: foldl_fail)
  with step have "json_stream_step s c = json_step s c" by (simp add: stream_step_agrees)
  with Cons show ?case by simp
qed

lemma decode_first_json_text:
  assumes "plain_json v" and "json_depth v \<le> 10000"
  shows "json_decode_first (json_text v) = Some v"
proof -
  have "value_read v [] (foldl json_step (MValue, []) (json_text v))"
    using assms by (intro reads_value) (simp_all add: reads_plain)
  moreover from this have "fst (foldl json_step (MValue, []) (json_text v)) \<noteq> MFail"
    by (auto simp: value_read_def)
  ultimately show ?thesis
    by (auto simp: json_decode_first_def stream_agrees json_result_def value_read_def)
qed

section \<open>Numbers in JSON\<close>

lemma num_run_digits: "list_all is_digit ds \<Longrightarrow> num_run NInt ds = Some NInt"
  by (induction ds) auto

lemma show_nat_digits: "list_all is_digit (show_nat n)"
proof (induction n rule: show_nat.induct)
  case (1 n)
  then show ?case
    by (cases "n < 10") (simp_all add: show_nat.simps [of n] digit_char_props)
qed

lemma show_nat_hd_zero: "hd (show_nat n) = CHR ''0'' \<Longrightarrow> n = 0"
proof (induction n rule: show_nat.induct)
  case (1 n)
  show ?case
  proof (cases "n < 10")
    case True
    with "1.prems" have "of_char (digit_char n) = (48 :: nat)"
      by (simp add: show_nat.simps [of n])
    with True show ?thesis by (simp add: digit_char_props)
  next
    case False
    with 1 show ?thesis by (simp add: show_nat.simps [of n])
  qed
qed

lemma num_literal_show_nat: "num_literal (show_nat n)"
proof (cases "n = 0")
  case True
  then show ?thesis
    by (simp add: show_nat.simps [of 0] digit_char_def num_literal_def num_start_def num_final_def)
next
  case False
  obtain c cs where c: "show_nat n = c # cs" by (meson neq_Nil_conv show_nat_not_Nil)
  have "c \<noteq> CHR ''0''" using show_nat_hd_zero [of n] False c by auto
  moreover have "is_digit c" "list_all is_digit cs" using show_nat_digits [of n] c by auto
  moreover have "c \<noteq> CHR ''-''" using show_nat_hd [of n] c by simp
  ultimately show ?thesis
    using c num_run_digits [of cs] by (simp add: num_literal_def num_start_def num_final_def)
qed

lemma dec_int_show_nat:
  assumes "int n < 2 ^ 63"
  shows "dec_int (JNum (show_nat n)) x = Some (int n)"
  using assms ParseInt_show_int [of 64 "int n"]
  by (simp add: dec_int_def show_int_def in_range_def)

lemma list_all_Cons_Nil: "list_all P []" "list_all P (x # xs) \<longleftrightarrow> P x \<and> list_all P xs"
  by simp_all

end
