(* ===== verification/Log_Parser.thy ===== *)
theory Log_Parser
  imports Json_Text
begin

text \<open>
  The log parser of \<open>src/src/internal/parser/logParser.go\<close>, with the part of \<open>bufio.Scanner\<close>
  it and the discovery use: lines without their newline and one carriage return before it,
  up to the first line that does not fit the scanner's buffer, where scanning stops for good.
\<close>

section \<open>\<open>bufio.Scanner\<close> with \<open>ScanLines\<close>\<close>

definition newline :: char where
  "newline = CHR 0x0A"

definition drop_cr :: "string \<Rightarrow> string" where
  "drop_cr l = (if l \<noteq> [] \<and> last l = CHR 0x0D then butlast l else l)"

definition text_lines :: "string \<Rightarrow> string list" where
  "text_lines s =
     (let ls = strings_Split newline s in if last ls = [] then butlast ls else ls)"

definition scan_lines :: "int \<Rightarrow> string \<Rightarrow> string list" where
  "scan_lines limit s =
     map drop_cr (takeWhile (\<lambda>l. int (length l) < limit) (text_lines s))"

section \<open>The parser\<close>

record log_parse_result =
  lpHasIssues :: bool
  lpRenovateResultStatus :: "string option"

record renovate_log_entry =
  leLevel :: int
  leMsg :: string

record repository_finished_entry =
  rfMsg :: string
  rfResult :: string

definition log_entry :: "string \<Rightarrow> renovate_log_entry option" where
  "log_entry line =
     unmarshal_into (dec_struct [(''level'', dec_field dec_int leLevel leLevel_update),
                                 (''msg'', dec_field dec_string leMsg leMsg_update)])
       \<lparr>leLevel = 0, leMsg = []\<rparr> line"

definition finished_entry :: "string \<Rightarrow> repository_finished_entry option" where
  "finished_entry line =
     unmarshal_into (dec_struct [(''msg'', dec_field dec_string rfMsg rfMsg_update),
                                 (''result'', dec_field dec_string rfResult rfResult_update)])
       \<lparr>rfMsg = [], rfResult = []\<rparr> line"

definition finished_status :: "string \<Rightarrow> string" where
  "finished_status result =
     (if result = ''disabled-by-config'' then ''Disabled''
      else if result = ''disabled-closed-onboarding'' then ''Onboarding Closed''
      else if result = ''disabled-no-config'' then ''No Config''
      else if result = [] then ''Unknown''
      else result)"

definition parse_log_line :: "string \<Rightarrow> log_parse_result \<Rightarrow> log_parse_result" where
  "parse_log_line line result =
     (if line = [] then result
      else case log_entry line of
        None \<Rightarrow> result
      | Some entry \<Rightarrow>
          let result = (if leLevel entry \<ge> 40 then result\<lparr>lpHasIssues := True\<rparr> else result)
          in if leMsg entry = ''Repository finished''
             then (case finished_entry line of
                     None \<Rightarrow> result
                   | Some finished \<Rightarrow>
                       result\<lparr>lpRenovateResultStatus := Some (finished_status (rfResult finished))\<rparr>)
             else result)"

definition ParseRenovateLogs :: "string \<Rightarrow> log_parse_result" where
  "ParseRenovateLogs logs =
     (let result = \<lparr>lpHasIssues = False, lpRenovateResultStatus = None\<rparr>
      in if logs = [] then result
         else fold parse_log_line (scan_lines (1024 * 1024) logs) result)"

section \<open>Lines of a text\<close>

definition unlines :: "string list \<Rightarrow> string" where
  "unlines ls = concat (map (\<lambda>l. l @ [newline]) ls)"

definition clean_line :: "string \<Rightarrow> bool" where
  "clean_line l \<longleftrightarrow> newline \<notin> set l \<and> (l \<noteq> [] \<longrightarrow> last l \<noteq> CHR 0x0D)"

lemma Split_append:
  "sep \<notin> set l \<Longrightarrow> strings_Split sep (l @ sep # rest) = l # strings_Split sep rest"
  by (induction l) auto

lemma Split_unlines:
  "\<forall>l \<in> set ls. newline \<notin> set l \<Longrightarrow> strings_Split newline (unlines ls @ rest) = ls @ strings_Split newline rest"
  by (induction ls) (auto simp: unlines_def Split_append)

lemma text_lines_unlines:
  assumes "\<forall>l \<in> set ls. newline \<notin> set l"
  shows "text_lines (unlines ls) = ls"
  using Split_unlines [OF assms, of "[]"] by (simp add: text_lines_def)

lemma scan_lines_unlines:
  assumes "\<forall>l \<in> set ls. clean_line l \<and> int (length l) < limit"
  shows "scan_lines limit (unlines ls) = ls"
proof -
  have "map drop_cr ls = ls"
    using assms by (intro map_idI) (auto simp: drop_cr_def clean_line_def)
  moreover have "takeWhile (\<lambda>l. int (length l) < limit) ls = ls"
    using assms by (simp add: takeWhile_eq_all_conv)
  moreover have "text_lines (unlines ls) = ls"
    using assms by (intro text_lines_unlines) (simp add: clean_line_def)
  ultimately show ?thesis by (simp only: scan_lines_def)
qed

section \<open>What a log says\<close>

text \<open>
  A log as Renovate writes it: lines that are entries, with a level, a message and, for the
  message that ends a run, a result; and lines that are no JSON.
\<close>

datatype log_line = Noise string | Entry nat string | Finished nat string

fun entry_json :: "log_line \<Rightarrow> json" where
  "entry_json (Noise s) = JNull"
| "entry_json (Entry l m) = JObj [(''level'', JNum (show_nat l)), (''msg'', JStr m)]"
| "entry_json (Finished l r) = JObj [(''level'', JNum (show_nat l)), (''result'', JStr r),
     (''msg'', JStr ''Repository finished'')]"

fun line_text :: "log_line \<Rightarrow> string" where
  "line_text (Noise s) = s"
| "line_text e = json_text (entry_json e)"

fun line_ok :: "log_line \<Rightarrow> bool" where
  "line_ok (Noise s) \<longleftrightarrow> json_unmarshal s = None"
| "line_ok (Entry l m) \<longleftrightarrow> int l < 2 ^ 63 \<and> list_all plain_char m \<and> m \<noteq> ''Repository finished''"
| "line_ok (Finished l r) \<longleftrightarrow> int l < 2 ^ 63 \<and> list_all plain_char r"

fun line_issue :: "log_line \<Rightarrow> bool" where
  "line_issue (Noise s) = False"
| "line_issue (Entry l m) = (40 \<le> l)"
| "line_issue (Finished l r) = (40 \<le> l)"

fun line_result :: "log_line \<Rightarrow> string option" where
  "line_result (Finished l r) = Some (finished_status r)"
| "line_result _ = None"

text \<open>The last result a log reports.\<close>

fun last_result :: "log_line list \<Rightarrow> string option \<Rightarrow> string option" where
  "last_result [] r = r"
| "last_result (l # ls) r = last_result ls (case line_result l of None \<Rightarrow> r | Some x \<Rightarrow> Some x)"

lemma log_field_names [simp]:
  "fold_name ''level'' = ''level''" "fold_name ''msg'' = ''msg''"
  "fold_name ''result'' = ''result''"
  by (simp_all add: lower_char_def)

lemma entry_plain: "line_ok e \<Longrightarrow> plain_json (entry_json e)"
  by (cases e) (simp_all only: line_ok.simps entry_json.simps plain_json.simps list_all_Cons_Nil
      prod.case num_literal_show_nat simp_thms, simp_all add: plain_char_def)

lemma entry_depth: "json_depth (entry_json e) \<le> 10000"
  by (cases e) simp_all

lemma entry_unmarshal:
  assumes "line_ok e" and "\<forall>s. e \<noteq> Noise s"
  shows "json_unmarshal (line_text e) = Some (entry_json e)"
proof -
  have "json_unmarshal (json_text (entry_json e)) = Some (entry_json e)"
    by (intro unmarshal_json_text entry_plain entry_depth assms(1))
  with assms(2) show ?thesis by (cases e) (simp_all del: json_text.simps entry_json.simps)
qed

lemma parse_log_line_spec:
  assumes "line_ok e"
  shows "parse_log_line (line_text e) r =
    \<lparr>lpHasIssues = lpHasIssues r \<or> line_issue e,
     lpRenovateResultStatus = (case line_result e of None \<Rightarrow> lpRenovateResultStatus r
       | Some x \<Rightarrow> Some x)\<rparr>"
proof (cases e)
  case (Noise s)
  with assms show ?thesis
    by (simp add: parse_log_line_def log_entry_def unmarshal_into_def)
next
  case (Entry l m)
  with entry_unmarshal [OF assms] have "json_unmarshal (line_text e) = Some (entry_json e)" by simp
  with assms Entry have "log_entry (line_text e) = Some \<lparr>leLevel = int l, leMsg = m\<rparr>"
    by (simp add: log_entry_def unmarshal_into_def dec_struct_def dec_field_def dec_int_show_nat
        dec_string_def del: line_text.simps)
  moreover have "line_text e \<noteq> []" using Entry by simp
  ultimately show ?thesis
    using assms Entry by (simp add: parse_log_line_def del: line_text.simps)
next
  case (Finished l m)
  with entry_unmarshal [OF assms] have u: "json_unmarshal (line_text e) = Some (entry_json e)" by simp
  with assms Finished have
      "log_entry (line_text e) = Some \<lparr>leLevel = int l, leMsg = ''Repository finished''\<rparr>"
    by (simp add: log_entry_def unmarshal_into_def dec_struct_def dec_field_def dec_int_show_nat
        dec_string_def del: line_text.simps)
  moreover from u assms Finished have
      "finished_entry (line_text e) = Some \<lparr>rfMsg = ''Repository finished'', rfResult = m\<rparr>"
    by (simp add: finished_entry_def unmarshal_into_def dec_struct_def dec_field_def
        dec_string_def del: line_text.simps)
  moreover have "line_text e \<noteq> []" using Finished by simp
  ultimately show ?thesis
    using assms Finished by (simp add: parse_log_line_def del: line_text.simps)
qed

lemma fold_parse_log_line:
  "\<forall>e \<in> set es. line_ok e \<Longrightarrow>
   fold parse_log_line (map line_text es) r =
     \<lparr>lpHasIssues = lpHasIssues r \<or> (\<exists>e \<in> set es. line_issue e),
      lpRenovateResultStatus = last_result es (lpRenovateResultStatus r)\<rparr>"
  by (induction es arbitrary: r) (auto simp: parse_log_line_spec)

text \<open>The whole parser on a log of such lines.\<close>

lemma parse_log_text:
  assumes "\<forall>e \<in> set es. line_ok e \<and> clean_line (line_text e) \<and>
      int (length (line_text e)) < 1024 * 1024"
  shows "ParseRenovateLogs (unlines (map line_text es)) =
    \<lparr>lpHasIssues = (\<exists>e \<in> set es. line_issue e),
     lpRenovateResultStatus = last_result es None\<rparr>"
proof (cases "es = []")
  case True
  then show ?thesis by (simp add: ParseRenovateLogs_def unlines_def)
next
  case False
  then have "unlines (map line_text es) \<noteq> []" by (cases es) (simp_all add: unlines_def)
  moreover have "scan_lines (1024 * 1024) (unlines (map line_text es)) = map line_text es"
    using assms by (intro scan_lines_unlines) auto
  moreover have "\<forall>e \<in> set es. line_ok e" using assms by blast
  ultimately show ?thesis
    by (simp add: ParseRenovateLogs_def fold_parse_log_line)
qed

text \<open>
  A line that is too long ends the scan: nothing after it is seen, whatever it says.
\<close>

lemma scan_lines_long:
  assumes "\<forall>l \<in> set ls. clean_line l \<and> int (length l) < limit"
    and "newline \<notin> set long" and "limit \<le> int (length long)"
  shows "scan_lines limit (unlines (ls @ [long]) @ rest) = ls"
proof -
  have nl: "\<forall>l \<in> set (ls @ [long]). newline \<notin> set l" using assms by (auto simp: clean_line_def)
  have "text_lines (unlines (ls @ [long]) @ rest) =
      ls @ long # (if last (strings_Split newline rest) = [] then butlast (strings_Split newline rest)
        else strings_Split newline rest)"
    unfolding text_lines_def Let_def Split_unlines [OF nl, of rest] by (simp add: butlast_append)
  moreover have "map drop_cr ls = ls"
    using assms(1) by (intro map_idI) (auto simp: drop_cr_def clean_line_def)
  moreover have "takeWhile (\<lambda>l. int (length l) < limit) (ls @ long # xs) = ls" for xs
    using assms by (simp add: takeWhile_append2 takeWhile_eq_all_conv)
  ultimately show ?thesis by (simp add: scan_lines_def)
qed

end
