(* ===== verification/Executor.thy ===== *)
theory Executor
  imports Renovate_Manager Job_Definitions Log_Parser
begin

text \<open>
  The executor, \<open>src/src/internal/renovate/executor.go\<close> and \<open>jobHelper.go\<close>: a loop that
  visits every resource, first records the outcome of its running projects and then starts
  scheduled ones, by priority, while there are free slots.
\<close>

section \<open>Job status\<close>

fun conditions_status :: "job_condition list \<Rightarrow> renovate_project_status option" where
  "conditions_status [] = None"
| "conditions_status (c # cs) =
     (if jcType c = ''Complete'' \<and> jcStatus c = ''True'' then Some JobStatusCompleted
      else if jcType c = ''Failed'' \<and> jcStatus c = ''True'' then Some JobStatusFailed
      else conditions_status cs)"

text \<open>\<open>Time.Sub\<close> saturates at the range of \<open>time.Duration\<close>.\<close>

definition time_Sub :: "time \<Rightarrow> time \<Rightarrow> int" where
  "time_Sub a b = max (- (2 ^ 63)) (min (2 ^ 63 - 1) (a - b))"

text \<open>
  The verb \<open>%.0f\<close> of the quotient of two integers: the nearest integer, a tie going to the
  even one. The code's floating-point quotients of nanoseconds differ from the exact ones
  by less than their distance to a tie.
\<close>

definition round_half_even :: "int \<Rightarrow> int \<Rightarrow> int" where
  "round_half_even n d =
     (let q = n div d; r = n mod d
      in if 2 * r < d then q else if 2 * r > d then q + 1 else if even q then q else q + 1)"

definition format_0f :: "int \<Rightarrow> int \<Rightarrow> string" where
  "format_0f n d =
     (if n < 0 then ''-'' @ show_nat (nat (round_half_even (- n) d))
      else show_nat (nat (round_half_even n d)))"

definition minute :: int where "minute = 60 * second"

definition hour :: int where "hour = 60 * minute"

text \<open>\<open>int(dur.Hours())\<close> is only taken of a duration of at least an hour, so it is \<open>div\<close>.\<close>

definition humanDuration :: "int \<Rightarrow> string" where
  "humanDuration dur =
     (if dur \<ge> hour then
        format_0f dur hour @ ''h '' @
        format_0f (dur - dur div hour * 60 * minute) minute @ ''m '' @
        format_0f (dur - dur div minute * 60 * second) second @ ''s''
      else if dur \<ge> minute then
        format_0f dur minute @ ''m '' @
        format_0f (dur - dur div minute * 60 * second) second @ ''s''
      else format_0f dur second @ ''s'')"

definition getJobStatus :: "time \<Rightarrow> k8s_job option \<Rightarrow> renovate_project_status \<times> string" where
  "getJobStatus now job =
     (case job of
        None \<Rightarrow> (JobStatusFailed, [])
      | Some job \<Rightarrow>
          let status = (case conditions_status (jbConditions job) of
                          Some st \<Rightarrow> st | None \<Rightarrow> JobStatusRunning);
              durationStr =
                (case jbStartTime job of
                   None \<Rightarrow> []
                 | Some startTime \<Rightarrow>
                     let endTime = (case jbCompletionTime job of None \<Rightarrow> now | Some t \<Rightarrow> t)
                     in humanDuration (time_Sub endTime startTime))
          in (status, durationStr))"

section \<open>Running projects\<close>

definition executor_selector :: "renovate_job \<Rightarrow> string \<Rightarrow> job_selector" where
  "executor_selector rj project =
     \<lparr>seJobName = ExecutorJobName rj project, seJobType = ExecutorJobType,
      seNamespace = rjNamespace rj, seGeneration = None\<rparr>"

text \<open>
  What the log of a finished job says: nothing if there is no job or its log cannot be read,
  both of which the code only logs.
\<close>

definition finished_log :: "'w env \<Rightarrow> k8s_job option \<Rightarrow> 'w sys \<Rightarrow> log_parse_result" where
  "finished_log E job s =
     (let unknown = \<lparr>lpHasIssues = False, lpRenovateResultStatus = None\<rparr>
      in case job of
           None \<Rightarrow> unknown
         | Some job \<Rightarrow>
             (case eClientset E (syWorld s) of
                Some err \<Rightarrow> unknown
              | None \<Rightarrow>
                  (case GetLastJobLog E job s of
                     Inl err \<Rightarrow> unknown
                   | Inr logs \<Rightarrow> ParseRenovateLogs logs)))"

definition finish_metrics ::
    "renovate_job \<Rightarrow> string \<Rightarrow> renovate_project_status \<Rightarrow> bool \<Rightarrow> metric_op list \<Rightarrow> metric_op list" where
  "finish_metrics rj project newStatus hasIssues ms =
     CaptureRenovateProjectExecution (rjNamespace rj) (rjName rj) project (status_string newStatus)
       (SetDependencyIssues (rjNamespace rj) (rjName rj) project hasIssues
         (SetRunFailed (rjNamespace rj) (rjName rj) project (newStatus = JobStatusFailed) ms))"

definition finish_project ::
    "'w env \<Rightarrow> renovate_job \<Rightarrow> string \<Rightarrow> k8s_job option \<Rightarrow> renovate_project_status \<Rightarrow> string \<Rightarrow>
     'w sys \<Rightarrow> go_error option \<times> 'w sys" where
  "finish_project E rj project job newStatus durationStr s =
     (let jobId = \<lparr>riName = rjName rj, riNamespace = rjNamespace rj\<rparr>;
          parseResult = finished_log E job s;
          newProjectStatus = (mk_update newStatus 0)
            \<lparr>suDuration := Some durationStr,
             suRenovateResultStatus := lpRenovateResultStatus parseResult\<rparr>;
          s = s\<lparr>syMetrics := finish_metrics rj project newStatus (lpHasIssues parseResult) (syMetrics s)\<rparr>
      in case UpdateProjectStatus E project jobId newProjectStatus s of
           (Some err, s) \<Rightarrow> (Some err, s)
         | (None, s) \<Rightarrow>
             (case job of
                None \<Rightarrow> (None, s)
              | Some job \<Rightarrow>
                  if newStatus = JobStatusCompleted \<and>
                     GetValue (sySettings s) ''DELETE_SUCCESSFUL_JOBS'' = ''true''
                  then DeleteJob E job s else (None, s)))"

text \<open>The first pass: the number of projects still running, or the error that ended it.\<close>

fun process_running ::
    "'w env \<Rightarrow> renovate_job \<Rightarrow> project_status list \<Rightarrow> int \<Rightarrow> 'w sys \<Rightarrow> (go_error + int) \<times> 'w sys" where
  "process_running E rj [] runningProjects s = (Inr runningProjects, s)"
| "process_running E rj (p # ps) runningProjects s =
     (if psStatus p \<noteq> JobStatusRunning then process_running E rj ps runningProjects s
      else case (case GetJobByLabel E (executor_selector rj (psName p)) s of
                   Inl err \<Rightarrow>
                     if is_not_found err then Inr (None, JobStatusFailed, []) else Inl err
                 | Inr job \<Rightarrow> Inr (Some job, getJobStatus (eNow E (syWorld s)) (Some job))) of
             Inl err \<Rightarrow> (Inl err, s)
           | Inr (job, newStatus, durationStr) \<Rightarrow>
               if newStatus \<noteq> JobStatusRunning then
                 (case finish_project E rj (psName p) job newStatus durationStr s of
                    (Some err, s) \<Rightarrow> (Inl err, s)
                  | (None, s) \<Rightarrow> process_running E rj ps (runningProjects - 1) s)
               else process_running E rj ps runningProjects s)"

section \<open>Scheduled projects\<close>

definition start_project ::
    "'w env \<Rightarrow> renovate_job \<Rightarrow> string \<Rightarrow> 'w sys \<Rightarrow> go_error option \<times> 'w sys" where
  "start_project E rj project s =
     (let jobId = \<lparr>riName = rjName rj, riNamespace = rjNamespace rj\<rparr>;
          job = newRenovateJob (sySettings s) rj project
      in case eSetControllerReference E rj job of
           Inl err \<Rightarrow> (Some (ErrWrap ''failed to set controller reference'' err), s)
         | Inr owner \<Rightarrow>
             (case CreateJobWithGeneration E (job\<lparr>jbOwner := owner\<rparr>) (executor_selector rj project) s of
                (Inl err, s) \<Rightarrow>
                  (Some (ErrWrap (''failed to create RenovateJob for project '' @ project) err), s)
              | (Inr generation, s) \<Rightarrow>
                  UpdateProjectStatus E project jobId (mk_update JobStatusRunning 0) s))"

fun start_scheduled ::
    "'w env \<Rightarrow> renovate_job \<Rightarrow> project_status list \<Rightarrow> int \<Rightarrow> 'w sys \<Rightarrow> go_error option \<times> 'w sys" where
  "start_scheduled E rj [] runningProjects s = (None, s)"
| "start_scheduled E rj (p # ps) runningProjects s =
     (if psStatus p \<noteq> JobStatusScheduled then start_scheduled E rj ps runningProjects s
      else if runningProjects < sint (spParallelism (rjSpec rj)) then
        (case start_project E rj (psName p) s of
           (Some err, s) \<Rightarrow> (Some err, s)
         | (None, s) \<Rightarrow> start_scheduled E rj ps (runningProjects + 1) s)
      else start_scheduled E rj ps runningProjects s)"

text \<open>
  The order of the starts: of two priorities the higher one comes first. \<open><\<close> is the comparison the
  code hands to \<open>sort.SliceStable\<close>, and \<open>sort_key\<close> is stable.
\<close>

datatype rank = Rank (rank_priority: int32)

instantiation rank :: linorder
begin

definition less_eq_rank :: "rank \<Rightarrow> rank \<Rightarrow> bool" where
  "a \<le> b \<longleftrightarrow> sint (rank_priority b) \<le> sint (rank_priority a)"

definition less_rank :: "rank \<Rightarrow> rank \<Rightarrow> bool" where
  "a < b \<longleftrightarrow> sint (rank_priority a) > sint (rank_priority b)"

instance
  by standard (auto simp: less_eq_rank_def less_rank_def intro: rank.expand signed_word_eqI)

end

lemma rank_le [simp]: "Rank p \<le> Rank q \<longleftrightarrow> sint q \<le> sint p"
  by (simp add: less_eq_rank_def)

lemma rank_less [simp]: "Rank p < Rank q \<longleftrightarrow> sint q < sint p"
  by (simp add: less_rank_def)

lemma rank_eq_iff: "Rank p = Rank q \<longleftrightarrow> sint p = sint q"
  by (auto intro: signed_word_eqI)

definition by_priority :: "project_status list \<Rightarrow> project_status list" where
  "by_priority = sort_key (\<lambda>p. Rank (psPriority p))"

definition reconcileProjects :: "'w env \<Rightarrow> renovate_job \<Rightarrow> 'w sys \<Rightarrow> go_error option \<times> 'w sys" where
  "reconcileProjects E rj s =
     (case process_running E rj (projects_of rj) (int (running (projects_of rj))) s of
        (Inl err, s) \<Rightarrow> (Some err, s)
      | (Inr runningProjects, s) \<Rightarrow>
          start_scheduled E rj (by_priority (projects_of rj)) runningProjects s)"

section \<open>The loop\<close>

text \<open>
  The executor's own state: the lock of every resource it has seen. One goroutine runs the
  loop; \<open>TryLock\<close> is what keeps a second execution of a resource out.
\<close>

record 'w executor =
  exSyncer :: "string \<rightharpoonup> bool"
  exSys :: "'w sys"

text \<open>\<open>NewRenovateExecutor\<close>: no lock exists yet. The map \<open>updateJobSync\<close> is never used.\<close>

definition NewRenovateExecutor :: "'w sys \<Rightarrow> 'w executor" where
  "NewRenovateExecutor s = \<lparr>exSyncer = Map.empty, exSys = s\<rparr>"

lemma NewRenovateExecutor_simps [simp]:
  "exSyncer (NewRenovateExecutor s) = Map.empty" "exSys (NewRenovateExecutor s) = s"
  by (simp_all add: NewRenovateExecutor_def)

definition set_executor_running :: "'w env \<Rightarrow> string \<Rightarrow> bool \<Rightarrow> 'w sys \<Rightarrow> 'w sys" where
  "set_executor_running E name b s =
     s\<lparr>syHealth := SetExecutorHealth (eNow E (syWorld s))
         (\<lambda>h. h\<lparr>elExecutor := (elExecutor h)(name \<mapsto> \<lparr>ehIsRunning = b, ehLastUpdate = zero_time\<rparr>)\<rparr>)
         (syHealth s)\<rparr>"

definition syncOnJobExecution :: "'w env \<Rightarrow> string \<Rightarrow> 'w executor \<Rightarrow> bool \<times> 'w executor" where
  "syncOnJobExecution E name x =
     (let locker = (exSyncer x name \<noteq> Some True)
      in (locker, x\<lparr>exSyncer := (exSyncer x)(name \<mapsto> True),
                    exSys := set_executor_running E name locker (exSys x)\<rparr>))"

definition unlock_execution :: "'w env \<Rightarrow> string \<Rightarrow> 'w executor \<Rightarrow> 'w executor" where
  "unlock_execution E name x =
     x\<lparr>exSyncer := (exSyncer x)(name \<mapsto> False),
       exSys := set_executor_running E name False (exSys x)\<rparr>"

definition executeRenovateJob ::
    "'w env \<Rightarrow> renovate_job_identifier \<Rightarrow> 'w executor \<Rightarrow> go_error option \<times> 'w executor" where
  "executeRenovateJob E job x =
     (let name = identifier_Fullname job
      in case syncOnJobExecution E name x of
           (False, x) \<Rightarrow> (None, x)
         | (True, x) \<Rightarrow>
             (let (r, s) = (case GetRenovateJob E (riName job) (riNamespace job) (exSys x) of
                              Inl err \<Rightarrow> (Some err, exSys x)
                            | Inr renovateJob \<Rightarrow> reconcileProjects E renovateJob (exSys x))
              in (r, unlock_execution E name (x\<lparr>exSys := s\<rparr>))))"

text \<open>An error of one resource is logged and the next one is visited.\<close>

definition execute :: "'w env \<Rightarrow> 'w executor \<Rightarrow> 'w executor" where
  "execute E x =
     (case ListRenovateJobs E (exSys x) of
        Inl err \<Rightarrow> x
      | Inr renovateJobs \<Rightarrow> fold (\<lambda>job x. snd (executeRenovateJob E job x)) renovateJobs x)"

text \<open>\<open>n\<close> rounds of the loop, ten seconds apart; the loop ends when the process does.\<close>

fun executor_rounds :: "'w env \<Rightarrow> nat \<Rightarrow> 'w executor \<Rightarrow> 'w executor" where
  "executor_rounds E 0 x = x"
| "executor_rounds E (Suc n) x =
     (let x = execute E x
      in executor_rounds E n
           (x\<lparr>exSys := (exSys x)\<lparr>syWorld := eSleep E (10 * second) (syWorld (exSys x))\<rparr>\<rparr>))"

definition Start :: "'w env \<Rightarrow> nat \<Rightarrow> 'w executor \<Rightarrow> 'w executor" where
  "Start E n x =
     executor_rounds E n
       (x\<lparr>exSys := (exSys x)\<lparr>syHealth := SetExecutorHealth (eNow E (syWorld (exSys x)))
            (\<lambda>h. h\<lparr>elRunning := True\<rparr>) (syHealth (exSys x))\<rparr>\<rparr>)"

section \<open>What was started\<close>

text \<open>The jobs created, in order, and the project each runs for: its last argument.\<close>

fun created_jobs :: "kube_call list \<Rightarrow> k8s_job list" where
  "created_jobs [] = []"
| "created_jobs (JobCreated j # cs) = j # created_jobs cs"
| "created_jobs (_ # cs) = created_jobs cs"

definition job_project :: "k8s_job \<Rightarrow> string" where
  "job_project j = last (cnArgs (hd (pdContainers (jbPodSpec j))))"

definition started :: "'w sys \<Rightarrow> string list" where
  "started s = map job_project (created_jobs (syCalls s))"

text \<open>The runs whose end was counted.\<close>

fun is_run :: "metric_op \<Rightarrow> bool" where
  "is_run (Inc ProjectRuns ls) = True"
| "is_run _ = False"

definition finished_runs :: "'w sys \<Rightarrow> nat" where
  "finished_runs s = length (filter is_run (syMetrics s))"

lemma created_append [simp]: "created_jobs (cs @ ds) = created_jobs cs @ created_jobs ds"
  by (induction cs rule: created_jobs.induct) auto

lemma created_updates [simp]: "created_jobs (map StatusUpdated rjs) = []"
  by (induction rjs) auto

lemma status_only_started:
  assumes "status_only s s'"
  shows "started s' = started s" and "finished_runs s' = finished_runs s"
    and "sySettings s' = sySettings s"
  using assms by (auto elim!: status_onlyE simp: started_def finished_runs_def)

lemma DeleteJob_started:
  assumes "DeleteJob E job s = (r, s')"
  shows "started s' = started s" and "finished_runs s' = finished_runs s"
    and "sySettings s' = sySettings s"
  using DeleteJob_frame [OF assms] by (auto simp: started_def finished_runs_def)

lemma finish_metrics_runs:
  "length (filter is_run (finish_metrics rj p st b ms)) = Suc (length (filter is_run ms))"
  by (simp add: finish_metrics_def CaptureRenovateProjectExecution_def SetDependencyIssues_def
      SetRunFailed_def Let_def)

lemma finish_project_started:
  assumes "retry_law I E" and "finish_project E rj p job st d s = (r, s')"
  shows "started s' = started s" and "finished_runs s' = Suc (finished_runs s)"
    and "sySettings s' = sySettings s"
proof -
  let ?log = "finished_log E job s"
  let ?s = "s\<lparr>syMetrics := finish_metrics rj p st (lpHasIssues ?log) (syMetrics s)\<rparr>"
  obtain r1 s1 where u: "UpdateProjectStatus E p \<lparr>riName = rjName rj, riNamespace = rjNamespace rj\<rparr>
      ((mk_update st 0)\<lparr>suDuration := Some d,
        suRenovateResultStatus := lpRenovateResultStatus ?log\<rparr>) ?s = (r1, s1)"
    by fastforce
  note s1 = status_only_started [OF UpdateProjectStatus_only [OF assms(1) u]]
  have "s' = s1 \<or> (\<exists>j. DeleteJob E j s1 = (r, s'))"
    using assms(2) u by (auto simp: finish_project_def Let_def split: option.splits if_splits)
  with s1 have "started s' = started ?s \<and> finished_runs s' = finished_runs ?s \<and>
      sySettings s' = sySettings ?s"
    by (auto dest: DeleteJob_started)
  moreover have "started ?s = started s" "finished_runs ?s = Suc (finished_runs s)"
    by (simp_all add: started_def finished_runs_def finish_metrics_runs)
  ultimately show "started s' = started s" and "finished_runs s' = Suc (finished_runs s)"
    and "sySettings s' = sySettings s" by simp_all
qed

lemma conditions_status_finished:
  "conditions_status cs = Some st \<Longrightarrow> st \<in> {JobStatusCompleted, JobStatusFailed}"
  by (induction cs) (auto split: if_splits)

lemma getJobStatus_cases:
  "getJobStatus now job = (st, d) \<Longrightarrow> st \<noteq> JobStatusRunning \<Longrightarrow>
   st \<in> {JobStatusCompleted, JobStatusFailed}"
  using conditions_status_finished
  by (auto simp: getJobStatus_def Let_def split: option.splits)

text \<open>One iteration of the first pass.\<close>

lemma process_running_Cons:
  assumes "process_running E rj (p # ps) k s = (r, s')"
  obtains (pass) "process_running E rj ps k s = (r, s')"
  | (stop) e where "r = Inl e" and "s' = s"
  | (failed) job st d e where "psStatus p = JobStatusRunning"
      and "st \<in> {JobStatusCompleted, JobStatusFailed}"
      and "finish_project E rj (psName p) job st d s = (Some e, s')" and "r = Inl e"
  | (freed) job st d s1 where "psStatus p = JobStatusRunning"
      and "st \<in> {JobStatusCompleted, JobStatusFailed}"
      and "finish_project E rj (psName p) job st d s = (None, s1)"
      and "process_running E rj ps (k - 1) s1 = (r, s')"
proof (cases "psStatus p = JobStatusRunning")
  case False
  with assms that(1) show ?thesis by simp
next
  case run: True
  show ?thesis
  proof (cases "GetJobByLabel E (executor_selector rj (psName p)) s")
    case (Inl err)
    show ?thesis
    proof (cases "is_not_found err")
      case True
      obtain r1 s1 where f: "finish_project E rj (psName p) None JobStatusFailed [] s = (r1, s1)"
        by fastforce
      show ?thesis
      proof (cases r1)
        case None
        with assms run Inl True f show ?thesis
          by (intro that(4) [of JobStatusFailed None "[]" s1]) auto
      next
        case (Some e)
        with assms run Inl True f show ?thesis
          by (intro that(3) [of JobStatusFailed None "[]" e]) auto
      qed
    next
      case False
      with assms run Inl that(2) show ?thesis by auto
    qed
  next
    case (Inr job)
    obtain st d where st: "getJobStatus (eNow E (syWorld s)) (Some job) = (st, d)" by fastforce
    show ?thesis
    proof (cases "st = JobStatusRunning")
      case True
      with assms run Inr st that(1) show ?thesis by simp
    next
      case False
      obtain r1 s1 where f: "finish_project E rj (psName p) (Some job) st d s = (r1, s1)"
        by fastforce
      show ?thesis
      proof (cases r1)
        case None
        with assms run Inr st False f getJobStatus_cases [OF st False] show ?thesis
          by (intro that(4) [of st "Some job" d s1]) auto
      next
        case (Some e)
        with assms run Inr st False f getJobStatus_cases [OF st False] show ?thesis
          by (intro that(3) [of st "Some job" d e]) auto
      qed
    qed
  qed
qed

lemma process_running_started:
  assumes "retry_law I E" and "process_running E rj ps k s = (r, s')"
  shows "started s' = started s \<and> finished_runs s \<le> finished_runs s' \<and>
    sySettings s' = sySettings s \<and>
    (\<forall>k'. r = Inr k' \<longrightarrow> k' + int (finished_runs s') = k + int (finished_runs s))"
  using assms(2)
proof (induction ps arbitrary: k s)
  case Nil
  then show ?case by auto
next
  case (Cons p ps)
  from Cons.prems show ?case
  proof (cases rule: process_running_Cons)
    case pass
    then show ?thesis by (rule Cons.IH)
  next
    case (stop e)
    then show ?thesis by simp
  next
    case (failed job st d e)
    with finish_project_started [OF assms(1) failed(3)] show ?thesis by simp
  next
    case (freed job st d s1)
    note f = finish_project_started [OF assms(1) freed(3)]
    show ?thesis
      using Cons.IH [OF freed(4)] unfolding f by (elim conjE, intro conjI allI impI) simp_all
  qed
qed

lemma job_project_new:
  "job_project ((newRenovateJob m rj p)\<lparr>jbOwner := x, jbLabels := l\<rparr>) = p"
  by (simp add: job_project_def newRenovateJob_def batch_job_def Let_def)

lemma start_project_started:
  assumes "retry_law I E" and "start_project E rj p s = (r, s')"
  shows "(started s' = started s @ [p] \<or> r \<noteq> None \<and> started s' = started s) \<and>
    finished_runs s' = finished_runs s"
proof (cases "eSetControllerReference E rj (newRenovateJob (sySettings s) rj p)")
  case (Inl e)
  with assms(2) show ?thesis by (auto simp: start_project_def)
next
  case (Inr owner)
  let ?job = "(newRenovateJob (sySettings s) rj p)\<lparr>jbOwner := owner\<rparr>"
  obtain rc s1 where c: "CreateJobWithGeneration E ?job (executor_selector rj p) s = (rc, s1)"
    by fastforce
  from c show ?thesis
  proof (cases rule: CreateJob_cases)
    case (refused e e')
    with assms(2) Inr c show ?thesis
      by (auto simp: start_project_def Let_def started_def finished_runs_def)
  next
    case (created g)
    then have s1: "started s1 = started s @ [p]" "finished_runs s1 = finished_runs s"
      by (simp_all add: started_def finished_runs_def labelled_job_def job_project_new)
    have "UpdateProjectStatus E p \<lparr>riName = rjName rj, riNamespace = rjNamespace rj\<rparr>
        (mk_update JobStatusRunning 0) s1 = (r, s')"
      using assms(2) Inr c created by (simp add: start_project_def Let_def)
    from status_only_started [OF UpdateProjectStatus_only [OF assms(1) this]] s1
    show ?thesis by simp
  qed
qed

definition scheduled_names :: "project_status list \<Rightarrow> string list" where
  "scheduled_names ps = map psName (filter (\<lambda>p. psStatus p = JobStatusScheduled) ps)"

definition free_slots :: "renovate_job \<Rightarrow> int \<Rightarrow> nat" where
  "free_slots rj k = nat (sint (spParallelism (rjSpec rj)) - k)"

lemma scheduled_names_Cons [simp]:
  "scheduled_names (p # ps) =
     (if psStatus p = JobStatusScheduled then psName p # scheduled_names ps else scheduled_names ps)"
  "scheduled_names [] = []"
  by (simp_all add: scheduled_names_def)

lemma free_slots_step:
  "k < sint (spParallelism (rjSpec rj)) \<Longrightarrow> free_slots rj k = Suc (free_slots rj (k + 1))"
  "\<not> k < sint (spParallelism (rjSpec rj)) \<Longrightarrow> free_slots rj k = 0"
  by (simp_all add: free_slots_def)

lemma start_scheduled_started:
  assumes "retry_law I E" and "start_scheduled E rj ps k s = (r, s')"
  shows "\<exists>ns. started s' = started s @ ns \<and>
    prefix ns (take (free_slots rj k) (scheduled_names ps)) \<and>
    (r = None \<longrightarrow> ns = take (free_slots rj k) (scheduled_names ps)) \<and>
    finished_runs s' = finished_runs s"
  using assms(2)
proof (induction ps arbitrary: k s)
  case Nil
  then show ?case by auto
next
  case (Cons p ps)
  show ?case
  proof (cases "psStatus p = JobStatusScheduled \<and> k < sint (spParallelism (rjSpec rj))")
    case True
    obtain r1 s1 where p: "start_project E rj (psName p) s = (r1, s1)" by fastforce
    note s1 = start_project_started [OF assms(1) p]
    show ?thesis
    proof (cases r1)
      case (Some e)
      with Cons.prems True p have "r \<noteq> None" "s' = s1" by auto
      with s1 True show ?thesis
        by (auto simp: free_slots_step)
    next
      case None
      with Cons.prems True p have "start_scheduled E rj ps (k + 1) s1 = (r, s')" by simp
      from Cons.IH [OF this] s1 None True show ?thesis
        by (auto simp: free_slots_step)
    qed
  next
    case False
    with Cons.prems have "start_scheduled E rj ps k s = (r, s')" by (simp split: if_splits)
    from Cons.IH [OF this] False show ?thesis
      by (auto simp: free_slots_step)
  qed
qed

lemma reconcileProjects_started:
  assumes "retry_law I E" and "reconcileProjects E rj s = (r, s')"
  shows "\<exists>ns. started s' = started s @ ns \<and>
    prefix ns (take (free_slots rj (int (running (projects_of rj)) -
      int (finished_runs s' - finished_runs s))) (scheduled_names (by_priority (projects_of rj)))) \<and>
    (r = None \<longrightarrow> ns = take (free_slots rj (int (running (projects_of rj)) -
      int (finished_runs s' - finished_runs s))) (scheduled_names (by_priority (projects_of rj))))"
proof -
  obtain r1 s1 where p: "process_running E rj (projects_of rj) (int (running (projects_of rj))) s
      = (r1, s1)" by fastforce
  note s1 = process_running_started [OF assms(1) p]
  show ?thesis
  proof (cases r1)
    case (Inl e)
    with assms(2) p obtain y where "r = Some y" "s' = s1" by (auto simp: reconcileProjects_def)
    with s1 show ?thesis by (intro exI [of _ "[]"]) simp
  next
    case (Inr k)
    with assms(2) p have step: "start_scheduled E rj (by_priority (projects_of rj)) k s1 = (r, s')"
      by (simp add: reconcileProjects_def)
    have k: "k = int (running (projects_of rj)) - int (finished_runs s1 - finished_runs s)"
      using s1 Inr by auto
    show ?thesis
      using start_scheduled_started [OF assms(1) step] s1 unfolding k by (elim exE conjE) simp
  qed
qed

section \<open>Running projects under the executor\<close>

text \<open>
  The set that covers the running projects shrinks by the projects the first pass finishes
  and grows by the ones the second starts; the counter of the loop bounds its size.
\<close>

abbreviation job_id :: "renovate_job \<Rightarrow> renovate_job_identifier" where
  "job_id rj \<equiv> \<lparr>riName = rjName rj, riNamespace = rjNamespace rj\<rparr>"

abbreviation rj_key :: "renovate_job \<Rightarrow> string \<times> string" where
  "rj_key rj \<equiv> (rjName rj, rjNamespace rj)"

lemma covered_world:
  "syWorld s = syWorld s' \<Longrightarrow> store.covered (I, E) k s C = store.covered (I, E) k s' C"
  by (simp add: store.covered_def store_sane_def store_running_def)

lemma covered_mono: "store.covered e k s C \<Longrightarrow> C \<subseteq> D \<Longrightarrow> store.covered e k s D"
  by (auto simp: store.covered_def)

lemma store_okD:
  assumes "store_ok (I, E) k"
  shows "kube_laws I E" "retry_law I E" "interference I" "never_starts I (key_of k)"
  using assms by (simp_all add: store_ok_def)

lemma covered_interference:
  assumes "store_ok (I, E) k" and "I (sview E s) (sview E s')" and "store.covered (I, E) k s C"
  shows "store.covered (I, E) k s' C"
  using never_startsD [OF store_okD(4) [OF assms(1)] assms(2)] assms(3)
  by (auto simp: store.covered_def store_sane_def store_running_def)

lemma finish_project_covered:
  assumes ok: "store_ok (I, E) (job_id rj)"
    and st: "st \<in> {JobStatusCompleted, JobStatusFailed}"
    and f: "finish_project E rj p job st d s = (r, s')"
    and c: "store.covered (I, E) (job_id rj) s C"
  shows "store.covered (I, E) (job_id rj) s' C"
    and "r = None \<Longrightarrow> store.covered (I, E) (job_id rj) s' (C - {p})"
proof -
  let ?log = "finished_log E job s"
  let ?s = "s\<lparr>syMetrics := finish_metrics rj p st (lpHasIssues ?log) (syMetrics s)\<rparr>"
  let ?u = "(mk_update st 0)\<lparr>suDuration := Some d,
        suRenovateResultStatus := lpRenovateResultStatus ?log\<rparr>"
  obtain r1 s1 where u: "UpdateProjectStatus E p (job_id rj) ?u ?s = (r1, s1)" by fastforce
  have cs: "store.covered (I, E) (job_id rj) ?s C" using c covered_world [of ?s s] by simp
  have u': "UpdateProjectStatus (snd (I, E)) p (job_id rj) ?u ?s = (r1, s1)" using u by simp
  have stu: "suStatus ?u \<in> {JobStatusCompleted, JobStatusFailed}" using st by simp
  have c1: "store.covered (I, E) (job_id rj) s1 C"
    using st by (intro store.covered_other [OF ok u' cs]) auto
  have step: "s' = s1 \<or> (\<exists>j. DeleteJob E j s1 = (r, s'))"
    and err: "r1 \<noteq> None \<Longrightarrow> r \<noteq> None"
    using f u by (auto simp: finish_project_def Let_def split: option.splits if_splits)
  have keep: "store.covered (I, E) (job_id rj) s' D"
    if "store.covered (I, E) (job_id rj) s1 D" for D
    using step that covered_interference [OF ok] DeleteJob_view [OF store_okD(1) [OF ok]] by blast
  show "store.covered (I, E) (job_id rj) s' C" by (rule keep [OF c1])
  assume "r = None"
  with err have "r1 = None" by blast
  with u' have "UpdateProjectStatus (snd (I, E)) p (job_id rj) ?u ?s = (None, s1)" by simp
  from store.covered_finished [OF ok this cs stu]
  show "store.covered (I, E) (job_id rj) s' (C - {p})" by (rule keep)
qed

lemma process_running_covered:
  assumes ok: "store_ok (I, E) (job_id rj)"
    and "process_running E rj ps k s = (r, s')"
    and "store.covered (I, E) (job_id rj) s C" and "finite C" and "int (card C) \<le> k"
    and "distinct (map psName ps)" and "running_names ps \<subseteq> C"
  shows "store.covered (I, E) (job_id rj) s' C \<and>
    (\<forall>k'. r = Inr k' \<longrightarrow> (\<exists>D \<subseteq> C. int (card D) \<le> k' \<and> k' \<le> k \<and>
       store.covered (I, E) (job_id rj) s' D))"
  using assms(2-)
proof (induction ps arbitrary: k s C)
  case Nil
  then show ?case by auto
next
  case (Cons p ps)
  have rest: "distinct (map psName ps)" "running_names ps \<subseteq> C"
    using Cons.prems(5,6) by (auto split: if_splits)
  from Cons.prems(1) show ?case
  proof (cases rule: process_running_Cons)
    case pass
    show ?thesis by (rule Cons.IH [OF pass Cons.prems(2-4) rest])
  next
    case (stop e)
    with Cons.prems(2) show ?thesis by simp
  next
    case (failed job st d e)
    with finish_project_covered(1) [OF ok failed(2,3) Cons.prems(2)] show ?thesis by simp
  next
    case (freed job st d s1)
    note c1 = finish_project_covered(2) [OF ok freed(2,3) Cons.prems(2) refl]
    have p: "psName p \<in> C" using Cons.prems(6) freed(1) by simp
    have card: "int (card (C - {psName p})) \<le> k - 1"
    proof -
      have "0 < card C" using p Cons.prems(3) card_gt_0_iff by blast
      with p Cons.prems(3,4) show ?thesis by simp
    qed
    have sub: "running_names ps \<subseteq> C - {psName p}"
      using rest Cons.prems(5) running_names_subset [of ps] by auto
    have "finite (C - {psName p})" using Cons.prems(3) by simp
    from Cons.IH [OF freed(4) c1 this card rest(1) sub]
    have IH: "store.covered (I, E) (job_id rj) s' (C - {psName p})"
      "\<And>k'. r = Inr k' \<Longrightarrow> \<exists>D \<subseteq> C - {psName p}. int (card D) \<le> k' \<and> k' \<le> k - 1 \<and>
         store.covered (I, E) (job_id rj) s' D" by blast+
    have "store.covered (I, E) (job_id rj) s' C" by (rule covered_mono [OF IH(1)]) auto
    moreover have "\<exists>D \<subseteq> C. int (card D) \<le> k' \<and> k' \<le> k \<and> store.covered (I, E) (job_id rj) s' D"
      if r: "r = Inr k'" for k'
    proof -
      from IH(2) [OF r] obtain D where "D \<subseteq> C - {psName p}" "int (card D) \<le> k'" "k' \<le> k - 1"
        "store.covered (I, E) (job_id rj) s' D" by blast
      then show ?thesis by (intro exI [of _ D] conjI) auto
    qed
    ultimately show ?thesis by blast
  qed
qed

lemma start_project_covered:
  assumes ok: "store_ok (I, E) (job_id rj)" and "start_project E rj p s = (r, s')"
    and c: "store.covered (I, E) (job_id rj) s C"
  shows "store.covered (I, E) (job_id rj) s' (insert p C)"
proof (cases "eSetControllerReference E rj (newRenovateJob (sySettings s) rj p)")
  case (Inl e)
  with assms(2) have "s' = s" by (simp add: start_project_def)
  with c show ?thesis by (auto intro: covered_mono)
next
  case (Inr owner)
  let ?job = "(newRenovateJob (sySettings s) rj p)\<lparr>jbOwner := owner\<rparr>"
  obtain rc s1 where cr: "CreateJobWithGeneration E ?job (executor_selector rj p) s = (rc, s1)"
    by fastforce
  have c1: "store.covered (I, E) (job_id rj) s1 C"
    by (rule covered_interference [OF ok CreateJob_view [OF store_okD(1) [OF ok] cr] c])
  show ?thesis
  proof (cases rc)
    case (Inl e)
    with assms(2) Inr cr have "s' = s1" by (simp add: start_project_def Let_def)
    with c1 show ?thesis by (auto intro: covered_mono)
  next
    case (Inr g)
    with assms(2) \<open>eSetControllerReference _ _ _ = _\<close> cr
    have "UpdateProjectStatus (snd (I, E)) p (job_id rj) (mk_update JobStatusRunning 0) s1 = (r, s')"
      by (simp add: start_project_def Let_def)
    from store.covered_start [OF ok this c1] show ?thesis .
  qed
qed

lemma start_scheduled_covered:
  assumes ok: "store_ok (I, E) (job_id rj)" and "start_scheduled E rj ps k s = (r, s')"
    and "store.covered (I, E) (job_id rj) s C" and "finite C" and "int (card C) \<le> k"
  shows "\<exists>D. finite D \<and> int (card D) \<le> max k (sint (spParallelism (rjSpec rj))) \<and>
    store.covered (I, E) (job_id rj) s' D"
  using assms(2-)
proof (induction ps arbitrary: k s C)
  case Nil
  then show ?case by (intro exI [of _ C]) auto
next
  case (Cons p ps)
  show ?case
  proof (cases "psStatus p = JobStatusScheduled \<and> k < sint (spParallelism (rjSpec rj))")
    case True
    obtain r1 s1 where p: "start_project E rj (psName p) s = (r1, s1)" by fastforce
    note c1 = start_project_covered [OF ok p Cons.prems(2)]
    have fin: "finite (insert (psName p) C)" using Cons.prems(3) by simp
    have card: "int (card (insert (psName p) C)) \<le> k + 1"
      using Cons.prems(3,4) by (simp add: card_insert_if)
    show ?thesis
    proof (cases r1)
      case (Some e)
      with Cons.prems(1) True p have "s' = s1" by simp
      with c1 fin card True show ?thesis by (intro exI [of _ "insert (psName p) C"]) simp
    next
      case None
      with Cons.prems(1) True p have "start_scheduled E rj ps (k + 1) s1 = (r, s')" by simp
      from Cons.IH [OF this c1 fin card] True show ?thesis by (simp add: max_def split: if_splits)
    qed
  next
    case False
    with Cons.prems(1) have "start_scheduled E rj ps k s = (r, s')" by (simp split: if_splits)
    from Cons.IH [OF this Cons.prems(2-4)] show ?thesis .
  qed
qed

lemma reconcileProjects_covered:
  assumes ok: "store_ok (I, E) (job_id rj)" and "reconcileProjects E rj s = (r, s')"
    and "store.covered (I, E) (job_id rj) s (running_names (projects_of rj))"
    and "distinct (map psName (projects_of rj))"
  shows "\<exists>D. finite D \<and> int (card D) \<le>
      max (int (running (projects_of rj))) (sint (spParallelism (rjSpec rj))) \<and>
    store.covered (I, E) (job_id rj) s' D"
proof -
  let ?C = "running_names (projects_of rj)" and ?k = "int (running (projects_of rj))"
  obtain r1 s1 where p: "process_running E rj (projects_of rj) ?k s = (r1, s1)" by fastforce
  have card: "int (card ?C) \<le> ?k" using card_running_names [OF assms(4)] by simp
  note c1 = process_running_covered [OF ok p assms(3) finite_running_names card assms(4) order_refl]
  show ?thesis
  proof (cases r1)
    case (Inl e)
    with assms(2) p have "s' = s1" by (simp add: reconcileProjects_def)
    with c1 card show ?thesis by (intro exI [of _ ?C]) simp
  next
    case (Inr k')
    with assms(2) p have step: "start_scheduled E rj (by_priority (projects_of rj)) k' s1 = (r, s')"
      by (simp add: reconcileProjects_def)
    from c1 Inr obtain D where D: "D \<subseteq> ?C" "int (card D) \<le> k'" "k' \<le> ?k"
      and cD: "store.covered (I, E) (job_id rj) s1 D" by blast
    have "finite D" by (rule finite_subset [OF D(1) finite_running_names])
    from start_scheduled_covered [OF ok step cD this D(2)] D(3) show ?thesis
      by (elim exE conjE) (auto simp: max_def split: if_splits)
  qed
qed

text \<open>The executor on one resource: what its visit leaves stored.\<close>

lemma covered_card:
  assumes "store.covered (I, E) k s D" and "finite D"
  shows "card (running_names (view_projects (sview E s) (key_of k))) \<le> card D"
    and "tidy (sview E s) (key_of k)"
  using assms by (auto simp: store.covered_def store_sane_def store_running_def intro: card_mono)

lemma executeRenovateJob_covered:
  assumes ok: "store_ok (I, E) job" and v: "sview E (exSys x) (key_of job) = Some (sp, st)"
    and tidy: "tidy (sview E (exSys x)) (key_of job)"
    and ex: "executeRenovateJob E job x = (r, x')"
  shows "tidy (sview E (exSys x')) (key_of job)"
    and "int (card (running_names (view_projects (sview E (exSys x')) (key_of job)))) \<le>
      max (int (running (rsProjects st))) (sint (spParallelism sp))"
proof -
  obtain b x1 where sync: "syncOnJobExecution E (identifier_Fullname job) x = (b, x1)" by fastforce
  have w1: "syWorld (exSys x1) = syWorld (exSys x)"
    using sync by (auto simp: syncOnJobExecution_def Let_def set_executor_running_def)
  have st: "distinct (map psName (rsProjects st))"
    using v tidy by (simp add: tidy_def view_projects_def)
  have c0: "store.covered (I, E) job (exSys x1) (running_names (rsProjects st))"
    using v tidy w1
    by (simp add: store.covered_def store_sane_def store_running_def view_projects_def)
  have "\<exists>D. finite D \<and> int (card D) \<le> max (int (running (rsProjects st))) (sint (spParallelism sp)) \<and>
      store.covered (I, E) job (exSys x') D"
  proof (cases "b \<and> (\<exists>rj. GetRenovateJob E (riName job) (riNamespace job) (exSys x1) = Inr rj)")
    case False
    have "syWorld (exSys x') = syWorld (exSys x1)"
    proof (cases b)
      case True
      with False obtain e where "GetRenovateJob E (riName job) (riNamespace job) (exSys x1) = Inl e"
        by (meson sum.exhaust)
      with ex sync True show ?thesis
        by (auto simp: executeRenovateJob_def Let_def unlock_execution_def set_executor_running_def)
    next
      case False
      with ex sync show ?thesis by (simp add: executeRenovateJob_def Let_def)
    qed
    with c0 card_running_names [OF st] show ?thesis
      by (intro exI [of _ "running_names (rsProjects st)"])
        (simp add: covered_world [of "exSys x'" "exSys x1"])
  next
    case True
    then obtain rj where rj: "loadRenovateJob E (riName job) (riNamespace job) (exSys x1) = Inr rj"
      by (auto simp: GetRenovateJob_def)
    have id: "job_id rj = job"
      using load_identity [OF store_okD(1) [OF ok] rj] by simp
    have "rjSpec rj = sp" and rst: "rjStatus rj = st"
      using load_view [OF rj] v w1 by simp_all
    obtain r2 s2 where rec: "reconcileProjects E rj (exSys x1) = (r2, s2)" by fastforce
    have "syWorld (exSys x') = syWorld s2"
      using ex sync True rj rec
      by (auto simp: executeRenovateJob_def Let_def unlock_execution_def set_executor_running_def
          GetRenovateJob_def)
    moreover have "\<exists>D. finite D \<and> int (card D) \<le>
        max (int (running (projects_of rj))) (sint (spParallelism (rjSpec rj))) \<and>
        store.covered (I, E) (job_id rj) s2 D"
      by (rule reconcileProjects_covered [OF _ rec]) (use ok c0 st in \<open>simp_all add: rst id\<close>)
    ultimately show ?thesis
      by (simp add: id rst \<open>rjSpec rj = sp\<close> covered_world [of "exSys x'" s2])
  qed
  then obtain D where D: "finite D" "store.covered (I, E) job (exSys x') D"
    and card: "int (card D) \<le> max (int (running (rsProjects st))) (sint (spParallelism sp))" by blast
  from covered_card(2) [OF D(2,1)] show "tidy (sview E (exSys x')) (key_of job)" .
  from covered_card(1) [OF D(2,1)] card
  show "int (card (running_names (view_projects (sview E (exSys x')) (key_of job)))) \<le>
      max (int (running (rsProjects st))) (sint (spParallelism sp))" by linarith
qed

end
