(* ===== verification/Executor_Properties.thy ===== *)
theory Executor_Properties
  imports Executor Memory_Server "HOL-Library.Multiset"
begin

text \<open>
  Properties of the executor (\<open>executor.go\<close>, \<open>jobHelper.go\<close>), of the log parser it uses
  (\<open>logParser.go\<close>) and of the jobs it submits (\<open>jobDefinitions.go\<close>).
\<close>

text \<open>
  One visit of the executor never leaves more projects running than were running before or
  than the resource's parallelism allows, whichever is larger, whatever fails on the way and
  whatever other writers that start nothing do meanwhile; and it keeps project names distinct.
\<close>
theorem parallelism_respected:
  assumes "kube_laws I E" and "retry_law I E" and "interference I" and "never_starts I (key_of job)"
    and "sview E (exSys x) (key_of job) = Some (sp, st)"
    and "tidy (sview E (exSys x)) (key_of job)"
    and "executeRenovateJob E job x = (r, x')"
  shows "tidy (sview E (exSys x')) (key_of job) \<and>
    int (card (running_names (view_projects (sview E (exSys x')) (key_of job)))) \<le>
      max (int (running (rsProjects st))) (sint (spParallelism sp))"
  using executeRenovateJob_covered [of I E job x sp st r x'] assms by (simp add: store_ok_def)

theorem parallelism_respected_witness:
  "card (running_names (view_projects (sview memory_env (exSys (snd (executeRenovateJob memory_env
     example_id \<lparr>exSyncer = Map.empty, exSys = example_sys\<rparr>)))) (key_of example_id))) \<le> 2"
proof -
  let ?x = "\<lparr>exSyncer = Map.empty, exSys = example_sys\<rparr>"
  have v: "sview memory_env (exSys ?x) (key_of example_id) =
      Some (rjSpec example_job, rjStatus example_job)"
    using example_view by simp
  have t: "tidy (sview memory_env (exSys ?x)) (key_of example_id)" using example_tidy by simp
  have "int (running (rsProjects (rjStatus example_job))) = 1"
    and "sint (spParallelism (rjSpec example_job)) = 2"
    by (simp_all add: example_job_def example_project_def)
  with parallelism_respected [OF memory_laws memory_retry interference_eq eq_never_starts v t
      prod.collapse [symmetric]]
  show ?thesis by simp
qed

lemma by_priority_order:
  "sorted_wrt (\<lambda>p q. sint (psPriority q) \<le> sint (psPriority p)) (by_priority ps)"
proof -
  have "sorted (map (\<lambda>p. Rank (psPriority p)) (by_priority ps))" by (simp add: by_priority_def)
  then show ?thesis by (simp add: sorted_wrt_map)
qed

lemma by_priority_stable:
  "filter (\<lambda>p. sint (psPriority p) = k) (by_priority ps) = filter (\<lambda>p. sint (psPriority p) = k) ps"
proof (cases "\<exists>q :: int32. sint q = k")
  case True
  then obtain q :: int32 where "sint q = k" by blast
  then show ?thesis using sort_key_stable [of "\<lambda>p. Rank (psPriority p)" "Rank q" ps]
    by (simp add: by_priority_def rank_eq_iff eq_commute [of k] del: rank.inject)
qed (simp add: filter_empty_conv by_priority_def)

text \<open>The two laws have no other solution.\<close>

lemma by_priority_unique:
  assumes o: "sorted_wrt (\<lambda>p q. sint (psPriority q) \<le> sint (psPriority p)) ordered"
    and f: "\<forall>k. filter (\<lambda>p. sint (psPriority p) = k) ordered = filter (\<lambda>p. sint (psPriority p) = k) ps"
  shows "ordered = by_priority ps"
proof -
  have "mset ordered = mset ps"
  proof (rule multiset_eqI)
    fix x
    have "filter ((=) x) l = filter ((=) x) (filter (\<lambda>p. sint (psPriority p) = sint (psPriority x)) l)"
      for l :: "project_status list" by (simp add: filter_filter) (rule filter_cong, auto)
    then have "filter ((=) x) ordered = filter ((=) x) ps" using f by metis
    then show "count (mset ordered) x = count (mset ps) x" by (simp add: count_mset count_list_eq_length_filter)
  qed
  moreover have "filter (\<lambda>p. Rank (psPriority k) = Rank (psPriority p)) ordered =
      filter (\<lambda>p. Rank (psPriority k) = Rank (psPriority p)) ps" for k
    using f by (simp add: rank_eq_iff eq_commute [of "sint (psPriority k)"] del: rank.inject)
  moreover have "sorted (map (\<lambda>p. Rank (psPriority p)) ordered)" using o by (simp add: sorted_wrt_map)
  ultimately show ?thesis unfolding by_priority_def by (intro properties_for_sort_key [symmetric])
qed

text \<open>
  C2: The executor starts scheduled projects strictly by priority and fills exactly the free
  slots: the projects it submits jobs for are, in this order, an initial part of the scheduled
  ones by falling priority, equal priorities in list order, as many as the parallelism leaves
  free after the runs it found finished, and all of those when it reports no error.
\<close>
theorem starts_by_priority:
  assumes "retry_law I E" and "reconcileProjects E rj s = (r, s')"
  shows "\<exists>ns ordered. started s' = started s @ ns \<and>
    sorted_wrt (\<lambda>p q. sint (psPriority q) \<le> sint (psPriority p)) ordered \<and>
    (\<forall>k. filter (\<lambda>p. sint (psPriority p) = k) ordered =
       filter (\<lambda>p. sint (psPriority p) = k) (projects_of rj)) \<and>
    prefix ns (take (free_slots rj (int (running (projects_of rj)) -
      int (finished_runs s' - finished_runs s))) (scheduled_names ordered)) \<and>
    (r = None \<longrightarrow> ns = take (free_slots rj (int (running (projects_of rj)) -
      int (finished_runs s' - finished_runs s))) (scheduled_names ordered))"
  using reconcileProjects_started [OF assms] by_priority_order by_priority_stable by blast

theorem starts_by_priority_witness:
  "\<exists>ns. started (snd (reconcileProjects memory_env example_job example_sys)) = ns \<and>
     prefix ns [''c'', ''a'']"
proof -
  have order: "scheduled_names (by_priority (projects_of example_job)) = [''c'', ''a'']"
    by (simp add: example_job_def example_project_def by_priority_def sort_key_def)
  obtain ns ordered where ns: "started (snd (reconcileProjects memory_env example_job example_sys)) =
      started example_sys @ ns"
    and o: "sorted_wrt (\<lambda>p q. sint (psPriority q) \<le> sint (psPriority p)) ordered"
      "\<forall>k. filter (\<lambda>p. sint (psPriority p) = k) ordered =
         filter (\<lambda>p. sint (psPriority p) = k) (projects_of example_job)"
    and "prefix ns (take (free_slots example_job
        (int (running (projects_of example_job)) -
         int (finished_runs (snd (reconcileProjects memory_env example_job example_sys)) -
           finished_runs example_sys))) (scheduled_names ordered))"
    using starts_by_priority [OF memory_retry prod.collapse [symmetric], of example_job example_sys] by blast
  then have "prefix ns [''c'', ''a'']"
    unfolding order by_priority_unique [OF o] using take_is_prefix prefix_order.trans by blast
  moreover have "started example_sys = []" by (simp add: started_def example_sys_def)
  ultimately show ?thesis using ns by simp
qed

text \<open>
  C31: The executor's lock is a lock: while it is held a visit of the resource changes nothing but
  the health entry, and a visit that takes it releases it on every path and leaves the health
  entry not running.
\<close>
theorem execution_lock:
  "(exSyncer x (identifier_Fullname job) = Some True \<longrightarrow>
     fst (executeRenovateJob E job x) = None \<and>
     exSyncer (snd (executeRenovateJob E job x)) = exSyncer x \<and>
     (\<exists>h. exSys (snd (executeRenovateJob E job x)) = (exSys x)\<lparr>syHealth := h\<rparr>)) \<and>
   (exSyncer x (identifier_Fullname job) \<noteq> Some True \<longrightarrow>
     exSyncer (snd (executeRenovateJob E job x)) = (exSyncer x)(identifier_Fullname job \<mapsto> False) \<and>
     map_option ehIsRunning (elExecutor (ahExecutor (syHealth
       (exSys (snd (executeRenovateJob E job x))))) (identifier_Fullname job)) = Some False)"
proof (intro conjI impI)
  let ?n = "identifier_Fullname job"
  let ?x1 = "snd (syncOnJobExecution E ?n x)"
  {
    assume held: "exSyncer x ?n = Some True"
    then have ex: "executeRenovateJob E job x = (None, ?x1)"
      by (simp add: executeRenovateJob_def syncOnJobExecution_def Let_def)
    then show "fst (executeRenovateJob E job x) = None" by simp
    from ex held show "exSyncer (snd (executeRenovateJob E job x)) = exSyncer x"
      by (auto simp: syncOnJobExecution_def Let_def)
    from ex show "\<exists>h. exSys (snd (executeRenovateJob E job x)) = (exSys x)\<lparr>syHealth := h\<rparr>"
      by (auto simp: syncOnJobExecution_def Let_def set_executor_running_def)
  }
  assume "exSyncer x ?n \<noteq> Some True"
  then obtain x1 where sync: "syncOnJobExecution E ?n x = (True, x1)"
    and lock: "exSyncer x1 = (exSyncer x)(?n \<mapsto> True)"
    by (simp add: syncOnJobExecution_def Let_def)
  obtain r s where run: "(case GetRenovateJob E (riName job) (riNamespace job) (exSys x1) of
        Inl err \<Rightarrow> (Some err, exSys x1)
      | Inr renovateJob \<Rightarrow> reconcileProjects E renovateJob (exSys x1)) = (r, s)"
    by fastforce
  have ex: "executeRenovateJob E job x = (r, unlock_execution E ?n (x1\<lparr>exSys := s\<rparr>))"
    by (simp add: executeRenovateJob_def Let_def sync run)
  from ex lock show "exSyncer (snd (executeRenovateJob E job x)) = (exSyncer x)(?n \<mapsto> False)"
    by (simp add: unlock_execution_def)
  from ex show "map_option ehIsRunning (elExecutor (ahExecutor (syHealth
       (exSys (snd (executeRenovateJob E job x))))) ?n) = Some False"
    by (simp add: unlock_execution_def set_executor_running_def exec_reg.entries_set)
qed

theorem execution_lock_witness:
  "exSyncer (snd (executeRenovateJob memory_env example_id
     \<lparr>exSyncer = Map.empty, exSys = example_sys\<rparr>)) = [''job-ns'' \<mapsto> False]"
proof -
  have n: "identifier_Fullname example_id = ''job-ns''"
    by (simp add: identifier_Fullname_def example_id_def)
  show ?thesis
    using execution_lock [of "\<lparr>exSyncer = Map.empty, exSys = example_sys\<rparr>" example_id memory_env]
    unfolding n by simp
qed



text \<open>
  C37: A line of a mebibyte or more ends the parse: nothing after it counts, not even the line
  that reports the result of the run.
\<close>
theorem long_line_ends_parse:
  assumes "\<forall>e \<in> set es. line_ok e \<and> clean_line (line_text e) \<and>
      int (length (line_text e)) < 1024 * 1024"
    and "newline \<notin> set long" and "1024 * 1024 \<le> int (length long)"
  shows "ParseRenovateLogs (unlines (map line_text es @ [long]) @ rest) =
    ParseRenovateLogs (unlines (map line_text es))"
proof -
  have clean: "\<forall>l \<in> set (map line_text es). clean_line l \<and> int (length l) < 1024 * 1024"
    using assms(1) by simp
  have ne: "(unlines (map line_text es @ [long]) @ rest = []) = False" by (simp add: unlines_def)
  have "ParseRenovateLogs (unlines (map line_text es @ [long]) @ rest) =
      fold parse_log_line (map line_text es) \<lparr>lpHasIssues = False, lpRenovateResultStatus = None\<rparr>"
    by (simp only: ParseRenovateLogs_def Let_def ne if_False
        scan_lines_long [OF clean assms(2,3), of rest])
  also have "\<dots> = ParseRenovateLogs (unlines (map line_text es))"
  proof (cases "es = []")
    case True
    then show ?thesis by (simp add: ParseRenovateLogs_def unlines_def)
  next
    case False
    then have "(unlines (map line_text es) = []) = False" by (cases es) (simp_all add: unlines_def)
    then show ?thesis
      by (simp only: ParseRenovateLogs_def Let_def if_False scan_lines_unlines [OF clean])
  qed
  finally show ?thesis .
qed

theorem long_line_ends_parse_witness:
  "ParseRenovateLogs (unlines [replicate 1048576 CHR ''x'', json_text (JObj [(''level'', JNum ''50'')])]) =
    \<lparr>lpHasIssues = False, lpRenovateResultStatus = None\<rparr>"
proof -
  have "newline \<notin> set (replicate 1048576 CHR ''x'')" by (simp add: newline_def)
  with long_line_ends_parse [of "[]" "replicate 1048576 CHR ''x''"
      "unlines [json_text (JObj [(''level'', JNum ''50'')])]"]
  show ?thesis by (simp add: unlines_def ParseRenovateLogs_def)
qed

end
