(* ===== verification/Http.thy ===== *)
theory Http
  imports Renovate_Manager
begin

text \<open>
  Requests and responses as the handlers see them: the query and the header are read by name
  with an empty string for what is missing, the body is what \<open>io.ReadAll\<close> returns, \<open>None\<close>
  when reading fails. A response is a status and, where the handler writes one, a body.
\<close>

record http_request =
  rqQuery :: "string \<Rightarrow> string"
  rqHeader :: "string \<Rightarrow> string"
  rqVar :: "string \<Rightarrow> string"
  rqBody :: "string option"

datatype http_body =
    EmptyBody
  | JsonObject "(string \<times> string) list"
  | JsonValue json
  | PlainText string

record http_response =
  reStatus :: nat
  reBody :: http_body

definition respond :: "nat \<Rightarrow> http_body \<Rightarrow> http_response" where
  "respond st b = \<lparr>reStatus = st, reBody = b\<rparr>"

text \<open>\<open>writeJSON\<close> with a map of strings.\<close>

definition write_json :: "nat \<Rightarrow> (string \<times> string) list \<Rightarrow> http_response" where
  "write_json st ms = respond st (JsonObject ms)"

type_synonym 'w handler = "http_request \<Rightarrow> 'w sys \<Rightarrow> http_response go_run \<times> 'w sys"

end
