(* ===== verification/Webhook.thy ===== *)
theory Webhook
  imports Http Json_Text
begin

text \<open>
  The webhook server, \<open>src/src/webhook\<close>: the recognition of Renovate's checkboxes
  (\<open>renovateCheckbox.go\<close>), the events of the three platforms with their decoders
  (\<open>gitlab.go\<close>, \<open>github.go\<close>, \<open>forgejo.go\<close>) and the authentication in front of them
  (\<open>server.go\<close>). Matching a request to a route is the router library's: the choice is an
  argument of \<open>webhook_server\<close>.
\<close>

section \<open>Checkboxes\<close>

definition renovate_patterns :: "string list" where
  "renovate_patterns =
    [''## Detected Dependencies'',
     ''<!-- rebase-check -->'',
     ''<!--renovate-debug:'',
     ''<!-- rebase-all-open-prs -->'',
     ''<!-- rebase-branch='',
     ''<!-- approve-all-pending-prs -->'',
     ''<!-- approvePr-branch='',
     ''<!-- approve-branch='',
     ''<!-- recreate-branch='',
     ''<!-- unschedule-branch='',
     ''<!-- create-config-migration-pr -->'',
     ''<!-- create-all-awaiting-schedule-prs -->'',
     ''<!-- create-all-rate-limited-prs -->'',
     ''<!-- unlimit-branch='',
     ''<!-- manual job -->'']"

definition isRenovateContent :: "string \<Rightarrow> bool" where
  "isRenovateContent description \<longleftrightarrow>
     description \<noteq> [] \<and> list_ex (strings_Contains description) renovate_patterns"

definition hasCheckboxBeenChecked :: "string \<Rightarrow> bool" where
  "hasCheckboxBeenChecked current \<longleftrightarrow>
     current \<noteq> [] \<and>
     (strings_Contains current ''- [x]'' \<or> strings_Contains current ''- [X]'')"

definition verifyRenovateDescriptionChange :: "string \<Rightarrow> bool" where
  "verifyRenovateDescriptionChange current \<longleftrightarrow>
     isRenovateContent current \<and> hasCheckboxBeenChecked current"

section \<open>GitLab events\<close>

record gitlab_project =
  glpID :: int
  glpName :: string
  glpNamespace :: string
  glpPathWithNamespace :: string

record gitlab_object_attributes =
  gloID :: int
  gloAction :: string

record gitlab_change_description =
  glcPrevious :: string
  glcCurrent :: string

record gitlab_event =
  glObjectKind :: string
  glEventType :: string
  glProject :: gitlab_project
  glObjectAttributes :: gitlab_object_attributes
  glDescription :: gitlab_change_description

definition zero_gitlab :: gitlab_event where
  "zero_gitlab = \<lparr>glObjectKind = [], glEventType = [],
     glProject = \<lparr>glpID = 0, glpName = [], glpNamespace = [], glpPathWithNamespace = []\<rparr>,
     glObjectAttributes = \<lparr>gloID = 0, gloAction = []\<rparr>,
     glDescription = \<lparr>glcPrevious = [], glcCurrent = []\<rparr>\<rparr>"

definition dec_gitlab_project :: "gitlab_project decoder" where
  "dec_gitlab_project = dec_struct
     [(''id'', dec_field dec_int glpID glpID_update),
      (''name'', dec_field dec_string glpName glpName_update),
      (''namespace'', dec_field dec_string glpNamespace glpNamespace_update),
      (''path_with_namespace'', dec_field dec_string glpPathWithNamespace glpPathWithNamespace_update)]"

definition dec_gitlab_attributes :: "gitlab_object_attributes decoder" where
  "dec_gitlab_attributes = dec_struct
     [(''id'', dec_field dec_int gloID gloID_update),
      (''action'', dec_field dec_string gloAction gloAction_update)]"

definition dec_gitlab_description :: "gitlab_change_description decoder" where
  "dec_gitlab_description = dec_struct
     [(''previous'', dec_field dec_string glcPrevious glcPrevious_update),
      (''current'', dec_field dec_string glcCurrent glcCurrent_update)]"

text \<open>\<open>Changes\<close> is a struct around the one field \<open>description\<close>.\<close>

definition dec_gitlab_event :: "gitlab_event decoder" where
  "dec_gitlab_event = dec_struct
     [(''object_kind'', dec_field dec_string glObjectKind glObjectKind_update),
      (''event_type'', dec_field dec_string glEventType glEventType_update),
      (''project'', dec_field dec_gitlab_project glProject glProject_update),
      (''object_attributes'', dec_field dec_gitlab_attributes glObjectAttributes glObjectAttributes_update),
      (''changes'', dec_field (dec_struct [(''description'', dec_gitlab_description)])
        glDescription glDescription_update)]"

definition isValidGitLabEvent :: "gitlab_event \<Rightarrow> bool \<times> string" where
  "isValidGitLabEvent payload =
     (if glObjectKind payload \<noteq> ''merge_request'' \<and> glObjectKind payload \<noteq> ''issue''
      then (False, ''object kind is not merge_request or issue'')
      else if gloAction (glObjectAttributes payload) \<noteq> ''update''
      then (False, ''event action is not update'')
      else if glcCurrent (glDescription payload) = [] \<and> glcPrevious (glDescription payload) = []
      then (False, ''no description change detected'')
      else if \<not> verifyRenovateDescriptionChange (glcCurrent (glDescription payload))
      then (False, ''not a valid renovate checkbox change'')
      else (True, []))"

section \<open>GitHub events\<close>

record github_pull_request =
  ghpID :: int
  ghpNumber :: int
  ghpBody :: string

record github_issue =
  ghiID :: int
  ghiNumber :: int
  ghiBody :: string

record github_repository =
  ghrID :: int
  ghrName :: string
  ghrFullName :: string

record github_event =
  ghAction :: string
  ghPullRequest :: "github_pull_request option"
  ghIssue :: "github_issue option"
  ghRepository :: github_repository

definition zero_github :: github_event where
  "zero_github = \<lparr>ghAction = [], ghPullRequest = None, ghIssue = None,
     ghRepository = \<lparr>ghrID = 0, ghrName = [], ghrFullName = []\<rparr>\<rparr>"

definition dec_github_pull_request :: "github_pull_request decoder" where
  "dec_github_pull_request = dec_struct
     [(''id'', dec_field dec_int ghpID ghpID_update),
      (''number'', dec_field dec_int ghpNumber ghpNumber_update),
      (''body'', dec_field dec_string ghpBody ghpBody_update)]"

definition dec_github_issue :: "github_issue decoder" where
  "dec_github_issue = dec_struct
     [(''id'', dec_field dec_int ghiID ghiID_update),
      (''number'', dec_field dec_int ghiNumber ghiNumber_update),
      (''body'', dec_field dec_string ghiBody ghiBody_update)]"

definition dec_github_repository :: "github_repository decoder" where
  "dec_github_repository = dec_struct
     [(''id'', dec_field dec_int ghrID ghrID_update),
      (''name'', dec_field dec_string ghrName ghrName_update),
      (''full_name'', dec_field dec_string ghrFullName ghrFullName_update)]"

definition dec_github_event :: "github_event decoder" where
  "dec_github_event = dec_struct
     [(''action'', dec_field dec_string ghAction ghAction_update),
      (''pull_request'', dec_field (dec_pointer \<lparr>ghpID = 0, ghpNumber = 0, ghpBody = []\<rparr>
        dec_github_pull_request) ghPullRequest ghPullRequest_update),
      (''issue'', dec_field (dec_pointer \<lparr>ghiID = 0, ghiNumber = 0, ghiBody = []\<rparr>
        dec_github_issue) ghIssue ghIssue_update),
      (''repository'', dec_field dec_github_repository ghRepository ghRepository_update)]"

definition isValidGitHubEvent :: "github_event \<Rightarrow> bool \<times> string" where
  "isValidGitHubEvent payload =
     (if ghAction payload \<noteq> ''edited'' then (False, ''event action is not edited'')
      else if ghPullRequest payload = None \<and> ghIssue payload = None
      then (False, ''event is neither pull request nor issue'')
      else if (case ghPullRequest payload of None \<Rightarrow> True | Some pr \<Rightarrow> ghpBody pr = []) \<and>
              (case ghIssue payload of None \<Rightarrow> True | Some i \<Rightarrow> ghiBody i = [])
      then (False, ''no body change detected'')
      else let currentBody = (case ghPullRequest payload of
                                Some pr \<Rightarrow> ghpBody pr
                              | None \<Rightarrow> (case ghIssue payload of Some i \<Rightarrow> ghiBody i | None \<Rightarrow> []))
           in if \<not> verifyRenovateDescriptionChange currentBody
              then (False, ''not a valid renovate checkbox change'')
              else (True, []))"

section \<open>Forgejo events\<close>

record forgejo_user =
  fjuLogin :: string

record forgejo_pull_request =
  fjpID :: int
  fjpNumber :: int
  fjpBody :: string
  fjpUser :: "forgejo_user option"

record forgejo_issue =
  fjiID :: int
  fjiNumber :: int
  fjiTitle :: string
  fjiBody :: string

record forgejo_repository =
  fjrID :: int
  fjrName :: string
  fjrFullName :: string

record forgejo_event =
  fjAction :: string
  fjPullRequest :: "forgejo_pull_request option"
  fjIssue :: "forgejo_issue option"
  fjRepository :: forgejo_repository

definition zero_forgejo :: forgejo_event where
  "zero_forgejo = \<lparr>fjAction = [], fjPullRequest = None, fjIssue = None,
     fjRepository = \<lparr>fjrID = 0, fjrName = [], fjrFullName = []\<rparr>\<rparr>"

definition dec_forgejo_user :: "forgejo_user decoder" where
  "dec_forgejo_user = dec_struct [(''login'', dec_field dec_string fjuLogin fjuLogin_update)]"

definition dec_forgejo_pull_request :: "forgejo_pull_request decoder" where
  "dec_forgejo_pull_request = dec_struct
     [(''id'', dec_field dec_int fjpID fjpID_update),
      (''number'', dec_field dec_int fjpNumber fjpNumber_update),
      (''body'', dec_field dec_string fjpBody fjpBody_update),
      (''user'', dec_field (dec_pointer \<lparr>fjuLogin = []\<rparr> dec_forgejo_user) fjpUser fjpUser_update)]"

definition dec_forgejo_issue :: "forgejo_issue decoder" where
  "dec_forgejo_issue = dec_struct
     [(''id'', dec_field dec_int fjiID fjiID_update),
      (''number'', dec_field dec_int fjiNumber fjiNumber_update),
      (''title'', dec_field dec_string fjiTitle fjiTitle_update),
      (''body'', dec_field dec_string fjiBody fjiBody_update)]"

definition dec_forgejo_repository :: "forgejo_repository decoder" where
  "dec_forgejo_repository = dec_struct
     [(''id'', dec_field dec_int fjrID fjrID_update),
      (''name'', dec_field dec_string fjrName fjrName_update),
      (''full_name'', dec_field dec_string fjrFullName fjrFullName_update)]"

definition dec_forgejo_event :: "forgejo_event decoder" where
  "dec_forgejo_event = dec_struct
     [(''action'', dec_field dec_string fjAction fjAction_update),
      (''pull_request'', dec_field (dec_pointer \<lparr>fjpID = 0, fjpNumber = 0, fjpBody = [],
        fjpUser = None\<rparr> dec_forgejo_pull_request) fjPullRequest fjPullRequest_update),
      (''issue'', dec_field (dec_pointer \<lparr>fjiID = 0, fjiNumber = 0, fjiTitle = [], fjiBody = []\<rparr>
        dec_forgejo_issue) fjIssue fjIssue_update),
      (''repository'', dec_field dec_forgejo_repository fjRepository fjRepository_update)]"

definition isValidForgejoEvent :: "string \<Rightarrow> forgejo_event \<Rightarrow> bool \<times> string" where
  "isValidForgejoEvent event payload =
     (if event = ''issues'' then
        (if fjAction payload \<noteq> ''edited'' then (False, ''issue action is not edited'')
         else case fjIssue payload of
           None \<Rightarrow> (False, ''no issue body'')
         | Some i \<Rightarrow>
             if fjiBody i = [] then (False, ''no issue body'')
             else if \<not> verifyRenovateDescriptionChange (fjiBody i)
             then (False, ''not a valid renovate checkbox change'')
             else (True, []))
      else if event = ''pull_request'' then
        (case fjPullRequest payload of
           None \<Rightarrow> (False, ''no pull request in payload'')
         | Some pr \<Rightarrow>
             if fjpBody pr = [] then (False, ''no pull request body'')
             else if \<not> isRenovateContent (fjpBody pr) then (False, ''not a Renovate pull request'')
             else if fjAction payload = ''closed'' \<or> fjAction payload = ''reopened'' then (True, [])
             else if fjAction payload = ''edited'' then
               (if \<not> hasCheckboxBeenChecked (fjpBody pr) then (False, ''no checked checkbox'')
                else (True, []))
             else (False, ''pull request action is not edited, closed, or reopened''))
      else (False, ''unsupported event type: '' @ event))"

section \<open>Handlers\<close>

definition query_id :: "http_request \<Rightarrow> renovate_job_identifier" where
  "query_id r = \<lparr>riName = rqQuery r ''job'', riNamespace = rqQuery r ''namespace''\<rparr>"

text \<open>The tail the three event handlers share: the query, the update and the answer.\<close>

definition schedule_event ::
    "'w env \<Rightarrow> string \<Rightarrow> string \<Rightarrow> http_request \<Rightarrow> 'w sys \<Rightarrow> http_response \<times> 'w sys" where
  "schedule_event E label project r s =
     (if rqQuery r ''namespace'' = [] \<or> rqQuery r ''job'' = []
      then (write_json 400 [(''error'', ''missing namespace or job query parameter'')], s)
      else case UpdateProjectStatus E project (query_id r) (mk_update JobStatusScheduled 1) s of
             (Some err, s) \<Rightarrow> (write_json 500 [(''message'', ''failed to process webhook'')], s)
           | (None, s) \<Rightarrow>
               (write_json 202 [(''message'', ''renovate job scheduled''), (label, project)], s))"

definition decode_request :: "'a decoder \<Rightarrow> 'a \<Rightarrow> http_request \<Rightarrow> 'a option" where
  "decode_request d zero r =
     (case rqBody r of None \<Rightarrow> None | Some body \<Rightarrow> decode_body d zero body)"

definition gitLabWebhook :: "'w env \<Rightarrow> http_request \<Rightarrow> 'w sys \<Rightarrow> http_response \<times> 'w sys" where
  "gitLabWebhook E r s =
     (case decode_request dec_gitlab_event zero_gitlab r of
        None \<Rightarrow> (write_json 400 [(''error'', ''failed to decode payload'')], s)
      | Some payload \<Rightarrow>
          (case isValidGitLabEvent payload of
             (False, reason) \<Rightarrow>
               (write_json 200 [(''message'', ''event ignored''), (''reason'', reason)], s)
           | (True, _) \<Rightarrow>
               schedule_event E ''project'' (glpPathWithNamespace (glProject payload)) r s))"

definition githubWebhook :: "'w env \<Rightarrow> http_request \<Rightarrow> 'w sys \<Rightarrow> http_response \<times> 'w sys" where
  "githubWebhook E r s =
     (case decode_request dec_github_event zero_github r of
        None \<Rightarrow> (write_json 400 [(''error'', ''failed to decode payload'')], s)
      | Some payload \<Rightarrow>
          (case isValidGitHubEvent payload of
             (False, reason) \<Rightarrow>
               (write_json 200 [(''message'', ''event ignored''), (''reason'', reason)], s)
           | (True, _) \<Rightarrow>
               schedule_event E ''repository'' (ghrFullName (ghRepository payload)) r s))"

definition forgejoWebhook :: "'w env \<Rightarrow> http_request \<Rightarrow> 'w sys \<Rightarrow> http_response \<times> 'w sys" where
  "forgejoWebhook E r s =
     (let event = rqHeader r ''X-Forgejo-Event''
      in if event = [] then (write_json 400 [(''error'', ''missing X-Forgejo-Event header'')], s)
         else case decode_request dec_forgejo_event zero_forgejo r of
                None \<Rightarrow> (write_json 400 [(''error'', ''failed to decode payload'')], s)
              | Some payload \<Rightarrow>
                  (case isValidForgejoEvent event payload of
                     (False, reason) \<Rightarrow>
                       (write_json 200 [(''message'', ''event ignored''), (''reason'', reason)], s)
                   | (True, _) \<Rightarrow>
                       schedule_event E ''repository'' (fjrFullName (fjRepository payload)) r s))"

definition runRenovate :: "'w env \<Rightarrow> http_request \<Rightarrow> 'w sys \<Rightarrow> http_response \<times> 'w sys" where
  "runRenovate E r s =
     (if rqQuery r ''namespace'' = []
      then (write_json 400 [(''error'', ''missing namespace query parameter'')], s)
      else if rqQuery r ''job'' = []
      then (write_json 400 [(''error'', ''missing job query parameter'')], s)
      else if rqQuery r ''project'' = []
      then (write_json 400 [(''error'', ''missing project query parameter'')], s)
      else case UpdateProjectStatus E (rqQuery r ''project'') (query_id r)
                  (mk_update JobStatusScheduled 1) s of
             (Some err, s) \<Rightarrow> (write_json 500 [(''error'', ''failed to run renovate for project'')], s)
           | (None, s) \<Rightarrow> (respond 200 EmptyBody, s))"

section \<open>Authentication\<close>

text \<open>The token of an authorisation header; \<open>None\<close> when its format is refused.\<close>

definition bearer_token :: "string \<Rightarrow> string option" where
  "bearer_token authHeader =
     (if strings_HasPrefix authHeader ''Bearer '' then
        (case strings_Split CHR '' '' authHeader of
           [a, b] \<Rightarrow> if a \<noteq> ''Bearer'' then None else Some (strings_TrimSpace b)
         | _ \<Rightarrow> None)
      else Some (strings_TrimSpace authHeader))"

definition validateBearerToken ::
    "'w env \<Rightarrow> renovate_job_identifier \<Rightarrow> string \<Rightarrow> 'w sys \<Rightarrow> (bool \<times> string) go_run" where
  "validateBearerToken E job authHeader s =
     (if authHeader = [] then Returns (False, ''missing authorization header'')
      else case bearer_token authHeader of
             None \<Rightarrow> Returns (False, ''invalid authorization header format'')
           | Some token \<Rightarrow>
               (case IsWebhookTokenValid E job token s of
                  Panics m \<Rightarrow> Panics m
                | Returns (Inl err) \<Rightarrow> Returns (False, error_text err)
                | Returns (Inr valid) \<Rightarrow>
                    Returns (if \<not> valid then (False, ''invalid token'') else (True, []))))"

definition validateSignature ::
    "'w env \<Rightarrow> http_request \<Rightarrow> renovate_job_identifier \<Rightarrow> string \<Rightarrow> 'w sys \<Rightarrow> (bool \<times> string) go_run"
where
  "validateSignature E r job signature s =
     (if signature = [] then Returns (False, ''missing signature header'')
      else case rqBody r of
             None \<Rightarrow> Returns (False, ''failed to read request body'')
           | Some body \<Rightarrow>
               (case IsWebhookSignatureValid E job signature body s of
                  Panics m \<Rightarrow> Panics m
                | Returns (Inr True) \<Rightarrow> Returns (True, [])
                | Returns _ \<Rightarrow> Returns (False, ''invalid signature'')))"

definition first_header :: "http_request \<Rightarrow> string \<Rightarrow> string \<Rightarrow> string" where
  "first_header r a b = (if rqHeader r a = [] then rqHeader r b else rqHeader r a)"

definition checked ::
    "(bool \<times> string) go_run \<Rightarrow> 'w handler \<Rightarrow> http_request \<Rightarrow> 'w sys \<Rightarrow>
     http_response go_run \<times> 'w sys" where
  "checked v serve r s =
     (case v of
        Panics m \<Rightarrow> (Panics m, s)
      | Returns (valid, reason) \<Rightarrow>
          if \<not> valid then (Returns (write_json 401 [(''error'', reason)]), s) else serve r s)"

definition authMiddleware :: "'w env \<Rightarrow> 'w handler \<Rightarrow> 'w handler" where
  "authMiddleware E serve r s =
     (case GetRenovateJob E (rqQuery r ''job'') (rqQuery r ''namespace'') s of
        Inl err \<Rightarrow> (Returns (write_json 401 [(''error'', ''renovate job not found'')]), s)
      | Inr renovateJob \<Rightarrow>
          if (case spWebhook (rjSpec renovateJob) of None \<Rightarrow> True | Some wh \<Rightarrow> \<not> whEnabled wh)
          then (Returns (write_json 401 [(''error'', ''webhook not enabled for this renovate job'')]), s)
          else if (case Option.bind (spWebhook (rjSpec renovateJob)) whAuthentication of
                     None \<Rightarrow> True | Some auth \<Rightarrow> \<not> waEnabled auth)
          then serve r s
          else let authHeader = first_header r ''Authorization'' ''X-Gitlab-Token''
               in if authHeader \<noteq> []
                  then checked (validateBearerToken E (query_id r) authHeader s) serve r s
                  else let signature = first_header r ''X-Hub-Signature-256'' ''X-Forgejo-Signature''
                       in if signature \<noteq> []
                          then checked (validateSignature E r (query_id r) signature s) serve r s
                          else (Returns (write_json 401
                            [(''error'', ''no valid authentication method provided'')]), s))"

datatype webhook_route = ScheduleRoute | GitLabRoute | GitHubRoute | ForgejoRoute

text \<open>The router chooses one of the four routes, or answers itself with an error.\<close>

definition webhook_routes ::
    "'w env \<Rightarrow> (http_request \<Rightarrow> http_response + webhook_route) \<Rightarrow> 'w handler" where
  "webhook_routes E mux r s =
     (case mux r of
        Inl response \<Rightarrow> (Returns response, s)
      | Inr ScheduleRoute \<Rightarrow> apfst Returns (runRenovate E r s)
      | Inr GitLabRoute \<Rightarrow> apfst Returns (gitLabWebhook E r s)
      | Inr GitHubRoute \<Rightarrow> apfst Returns (githubWebhook E r s)
      | Inr ForgejoRoute \<Rightarrow> apfst Returns (forgejoWebhook E r s))"

definition webhook_server ::
    "'w env \<Rightarrow> (http_request \<Rightarrow> http_response + webhook_route) \<Rightarrow> 'w handler" where
  "webhook_server E mux = authMiddleware E (webhook_routes E mux)"

section \<open>Lemmas\<close>

text \<open>A handler either leaves the state alone or performs the one scheduling update.\<close>

definition schedules_only ::
    "'w env \<Rightarrow> http_request \<Rightarrow> 'w sys \<Rightarrow> 'w sys \<Rightarrow> bool" where
  "schedules_only E r s s' \<longleftrightarrow> s' = s \<or>
     (\<exists>project. s' = snd (UpdateProjectStatus E project (query_id r)
        (mk_update JobStatusScheduled 1) s))"

lemma schedules_only_refl [simp]: "schedules_only E r s s"
  by (simp add: schedules_only_def)

lemma schedules_onlyI:
  "UpdateProjectStatus E project (query_id r) (mk_update JobStatusScheduled 1) s = (x, s') \<Longrightarrow>
   schedules_only E r s s'"
  unfolding schedules_only_def by (metis snd_conv)

lemma schedule_event_only:
  "schedules_only E r s (snd (schedule_event E label project r s))"
  by (auto simp: schedule_event_def intro: schedules_onlyI split: prod.splits option.splits)

lemma webhook_routes_only: "schedules_only E r s (snd (webhook_routes E mux r s))"
proof -
  have "schedules_only E r s (snd (runRenovate E r s))"
    by (auto simp: runRenovate_def intro: schedules_onlyI split: prod.splits option.splits)
  moreover have "schedules_only E r s (snd (gitLabWebhook E r s))"
    by (auto simp: gitLabWebhook_def schedule_event_only split: option.split prod.split bool.split)
  moreover have "schedules_only E r s (snd (githubWebhook E r s))"
    by (auto simp: githubWebhook_def schedule_event_only split: option.split prod.split bool.split)
  moreover have "schedules_only E r s (snd (forgejoWebhook E r s))"
    by (auto simp: forgejoWebhook_def Let_def schedule_event_only
        split: option.split prod.split bool.split)
  ultimately show ?thesis
    by (auto simp: webhook_routes_def split: sum.split webhook_route.split)
qed

text \<open>What a caller must show for a resource whose authentication is enabled.\<close>

definition presented_token :: "http_request \<Rightarrow> string option" where
  "presented_token r =
     (let h = first_header r ''Authorization'' ''X-Gitlab-Token''
      in if h = [] then None else bearer_token h)"

definition authenticated :: "'w env \<Rightarrow> http_request \<Rightarrow> 'w sys \<Rightarrow> bool" where
  "authenticated E r s \<longleftrightarrow>
     (\<exists>token. presented_token r = Some token \<and>
        IsWebhookTokenValid E (query_id r) token s = Returns (Inr True)) \<or>
     (\<exists>body. rqBody r = Some body \<and>
        IsWebhookSignatureValid E (query_id r)
          (first_header r ''X-Hub-Signature-256'' ''X-Forgejo-Signature'') body s = Returns (Inr True))"

definition admitted :: "'w env \<Rightarrow> http_request \<Rightarrow> 'w sys \<Rightarrow> bool" where
  "admitted E r s \<longleftrightarrow>
     (\<exists>rj wh. GetRenovateJob E (rqQuery r ''job'') (rqQuery r ''namespace'') s = Inr rj \<and>
        spWebhook (rjSpec rj) = Some wh \<and> whEnabled wh \<and>
        (\<forall>auth. whAuthentication wh = Some auth \<longrightarrow> waEnabled auth \<longrightarrow> authenticated E r s))"

lemma bearer_valid:
  assumes "validateBearerToken E job h s = Returns (True, reason)"
  shows "\<exists>token. h \<noteq> [] \<and> bearer_token h = Some token \<and>
    IsWebhookTokenValid E job token s = Returns (Inr True)"
  using assms
  by (auto simp: validateBearerToken_def split: if_splits option.splits go_run.splits sum.splits)

lemma signature_valid:
  assumes "validateSignature E r job sig s = Returns (True, reason)"
  shows "\<exists>body. rqBody r = Some body \<and>
    IsWebhookSignatureValid E job sig body s = Returns (Inr True)"
  using assms
  by (auto simp: validateSignature_def split: if_splits option.splits go_run.splits sum.splits
      bool.splits)

end
