(* ===== verification/Webhook_Properties.thy ===== *)
theory Webhook_Properties
  imports Webhook Memory_Server
begin

text \<open>
  Properties of the webhook server: who may schedule, what a request can do, which events
  count, and what a GitHub payload leads to from its text to the answer.
\<close>

section \<open>Lemmas\<close>

lemma checked_cases:
  assumes "checked v serve r s = (res, s')" and "s' \<noteq> s"
  shows "\<exists>reason. v = Returns (True, reason)" and "serve r s = (res, s')"
  using assms by (auto simp: checked_def split: go_run.splits prod.splits if_splits)

lemma authMiddleware_admits:
  assumes "authMiddleware E serve r s = (res, s')" and "s' \<noteq> s"
  shows "admitted E r s \<and> serve r s = (res, s')"
proof -
  obtain rj where rj: "GetRenovateJob E (rqQuery r ''job'') (rqQuery r ''namespace'') s = Inr rj"
    using assms by (auto simp: authMiddleware_def split: sum.splits)
  with assms obtain wh where wh: "spWebhook (rjSpec rj) = Some wh" "whEnabled wh"
    by (auto simp: authMiddleware_def split: option.splits if_splits)
  show ?thesis
  proof (cases "\<exists>auth. whAuthentication wh = Some auth \<and> waEnabled auth")
    case False
    then have off: "(case Option.bind (spWebhook (rjSpec rj)) whAuthentication of
        None \<Rightarrow> True | Some auth \<Rightarrow> \<not> waEnabled auth)"
      using wh by (auto split: option.split)
    with assms rj wh have "serve r s = (res, s')"
      by (simp add: authMiddleware_def)
    with rj wh False show ?thesis unfolding admitted_def by blast
  next
    case True
    then obtain auth where auth: "whAuthentication wh = Some auth" "waEnabled auth" by blast
    let ?h = "first_header r ''Authorization'' ''X-Gitlab-Token''"
    let ?sig = "first_header r ''X-Hub-Signature-256'' ''X-Forgejo-Signature''"
    have mw: "(if ?h \<noteq> [] then checked (validateBearerToken E (query_id r) ?h s) serve r s
        else if ?sig \<noteq> [] then checked (validateSignature E r (query_id r) ?sig s) serve r s
        else (Returns (write_json 401 [(''error'', ''no valid authentication method provided'')]), s))
      = (res, s')"
      using assms(1) rj wh auth by (auto simp: authMiddleware_def Let_def split: if_splits)
    have "authenticated E r s \<and> serve r s = (res, s')"
    proof (cases "?h = []")
      case False
      with mw have c: "checked (validateBearerToken E (query_id r) ?h s) serve r s = (res, s')" by simp
      obtain reason where v: "validateBearerToken E (query_id r) ?h s = Returns (True, reason)"
        using checked_cases(1) [OF c assms(2)] by blast
      from bearer_valid [OF v] have "authenticated E r s"
        unfolding authenticated_def presented_token_def Let_def by auto
      with checked_cases(2) [OF c assms(2)] show ?thesis by blast
    next
      case True
      with mw assms(2) have c: "checked (validateSignature E r (query_id r) ?sig s) serve r s = (res, s')"
        by (auto split: if_splits)
      obtain reason where v: "validateSignature E r (query_id r) ?sig s = Returns (True, reason)"
        using checked_cases(1) [OF c assms(2)] by blast
      from signature_valid [OF v] have "authenticated E r s"
        unfolding authenticated_def by blast
      with checked_cases(2) [OF c assms(2)] show ?thesis by blast
    qed
    with rj wh show ?thesis unfolding admitted_def by blast
  qed
qed

lemma webhook_field_names [simp]:
  "fold_name ''action'' = ''action''" "fold_name ''pull_request'' = ''pull_request''"
  "fold_name ''issue'' = ''issue''" "fold_name ''repository'' = ''repository''"
  "fold_name ''id'' = ''id''" "fold_name ''number'' = ''number''" "fold_name ''body'' = ''body''"
  "fold_name ''name'' = ''name''" "fold_name ''full_name'' = ''full_name''"
  by (simp_all add: lower_char_def)

text \<open>The payload GitHub sends when an issue was edited, its parts the handler reads.\<close>

definition issue_edited :: "string \<Rightarrow> string \<Rightarrow> json" where
  "issue_edited body repo =
     JObj [(''action'', JStr ''edited''), (''issue'', JObj [(''body'', JStr body)]),
           (''repository'', JObj [(''full_name'', JStr repo)])]"

lemma issue_edited_plain:
  assumes "list_all plain_char body" and "list_all plain_char repo"
  shows "plain_json (issue_edited body repo)"
  using assms by (simp add: issue_edited_def) (simp add: plain_char_def)

lemma issue_edited_decoded:
  "dec_github_event (issue_edited body repo) zero_github =
     Some \<lparr>ghAction = ''edited'', ghPullRequest = None,
       ghIssue = Some \<lparr>ghiID = 0, ghiNumber = 0, ghiBody = body\<rparr>,
       ghRepository = \<lparr>ghrID = 0, ghrName = [], ghrFullName = repo\<rparr>\<rparr>"
  by (simp add: issue_edited_def dec_github_event_def zero_github_def dec_struct_def dec_field_def
      dec_string_def dec_pointer_def dec_github_issue_def dec_github_repository_def)

section \<open>Properties\<close>

text \<open>
  C3: A webhook request changes something only if the resource it names exists and has its webhook
  enabled, and, where authentication is enabled, only with a bearer or GitLab token that is one of
  the secret's tokens or a signature that is the HMAC of the body under one of them; and then all
  it does is one scheduling update of that resource with priority 1, whatever the router chose.
\<close>
theorem webhook_authenticated:
  assumes "webhook_server E mux r s = (res, s')"
  shows "s' = s \<or> admitted E r s \<and>
    (\<exists>project. s' = snd (UpdateProjectStatus E project (query_id r)
       (mk_update JobStatusScheduled 1) s))"
proof (cases "s' = s")
  case False
  with assms have "admitted E r s" and "webhook_routes E mux r s = (res, s')"
    using authMiddleware_admits [of E "webhook_routes E mux" r s res s']
    by (auto simp: webhook_server_def)
  then have "schedules_only E r s s'"
    using webhook_routes_only [of E r s mux] by simp
  with False \<open>admitted E r s\<close> show ?thesis by (auto simp: schedules_only_def)
qed simp

definition example_request :: http_request where
  "example_request = \<lparr>rqQuery = (\<lambda>k. if k = ''job'' then ''job'' else if k = ''namespace'' then ''ns''
      else if k = ''project'' then ''a'' else []),
     rqHeader = (\<lambda>k. []), rqVar = (\<lambda>k. []), rqBody = Some []\<rparr>"

theorem webhook_authenticated_witness:
  "snd (webhook_server memory_env (\<lambda>r. Inr ScheduleRoute) example_request example_sys) = example_sys"
proof -
  have "\<not> admitted memory_env example_request example_sys"
    by (auto simp: admitted_def GetRenovateJob_def loadRenovateJob_def memory_env_def memory_get_def
        example_sys_def example_memory_def example_request_def example_job_def zero_spec_def)
  with webhook_authenticated [OF prod.collapse [symmetric],
      of memory_env "\<lambda>r. Inr ScheduleRoute" example_request example_sys]
  show ?thesis by blast
qed

text \<open>
  C32: The token check accepts exactly the tokens listed, separated by commas, in the secret the
  resource names, and only while its webhook authentication is enabled; with authentication
  enabled and no secret named the check panics.
\<close>
theorem token_check:
  "(IsWebhookTokenValid E job token s = Returns (Inr True) \<longleftrightarrow>
     (\<exists>rj wh auth ref data allTokens. loadRenovateJob E (riName job) (riNamespace job) s = Inr rj \<and>
        spWebhook (rjSpec rj) = Some wh \<and> whAuthentication wh = Some auth \<and> waEnabled auth \<and>
        waSecretRef auth = Some ref \<and> eGetSecret E (rjNamespace rj) (skName ref) (syWorld s) = Inr data \<and>
        data (skKey ref) = Some allTokens \<and> token \<in> set (strings_Split CHR '','' allTokens))) \<and>
   ((\<exists>m. IsWebhookTokenValid E job token s = Panics m) \<longleftrightarrow>
     (\<exists>rj wh auth. loadRenovateJob E (riName job) (riNamespace job) s = Inr rj \<and>
        spWebhook (rjSpec rj) = Some wh \<and> whAuthentication wh = Some auth \<and> waEnabled auth \<and>
        waSecretRef auth = None))"
  by (auto simp: IsWebhookTokenValid_def webhook_tokens_def getRenovateJobTokens_def
      split: sum.splits option.splits if_splits)

text \<open>
  A secret that ends in a comma, or is empty, admits the empty token.
\<close>
theorem empty_token_accepted:
  assumes "loadRenovateJob E (riName job) (riNamespace job) s = Inr rj"
    and "spWebhook (rjSpec rj) = Some wh" and "whAuthentication wh = Some auth" and "waEnabled auth"
    and "waSecretRef auth = Some ref"
    and "eGetSecret E (rjNamespace rj) (skName ref) (syWorld s) = Inr data"
    and "data (skKey ref) = Some tokens" and "tokens = [] \<or> last tokens = CHR '',''"
  shows "IsWebhookTokenValid E job [] s = Returns (Inr True)"
proof -
  have "[] \<in> set (strings_Split CHR '','' tokens)"
  proof (cases "tokens = []")
    case False
    with assms(8) have "tokens = butlast tokens @ [CHR '','']"
      by (metis append_butlast_last_id)
    then have "strings_Split CHR '','' tokens = strings_Split CHR '','' (butlast tokens) @ [[]]"
      by (metis Split_snoc)
    then show ?thesis by simp
  qed simp
  with assms show ?thesis
    by (simp add: IsWebhookTokenValid_def webhook_tokens_def getRenovateJobTokens_def)
qed

definition secured_job :: renovate_job where
  "secured_job = example_job\<lparr>rjSpec := zero_spec\<lparr>spWebhook := Some \<lparr>whEnabled = True,
     whAuthentication = Some \<lparr>waEnabled = True, waSecretRef = Some \<lparr>skName = ''sec'', skKey = ''tok''\<rparr>\<rparr>,
     whForgejo = None\<rparr>\<rparr>\<rparr>"

definition secured_sys :: "memory sys" where
  "secured_sys = example_sys\<lparr>syWorld := example_memory
     \<lparr>meJobs := [(''job'', ''ns'') \<mapsto> secured_job],
      meSecrets := [(''ns'', ''sec'') \<mapsto> [''tok'' \<mapsto> ''t1,t2,'']]\<rparr>\<rparr>"

theorem empty_token_accepted_witness:
  "IsWebhookTokenValid memory_env example_id [] secured_sys = Returns (Inr True)"
  by (rule empty_token_accepted [of memory_env example_id secured_sys secured_job
        "\<lparr>whEnabled = True, whAuthentication = Some \<lparr>waEnabled = True,
          waSecretRef = Some \<lparr>skName = ''sec'', skKey = ''tok''\<rparr>\<rparr>, whForgejo = None\<rparr>"
        "\<lparr>waEnabled = True, waSecretRef = Some \<lparr>skName = ''sec'', skKey = ''tok''\<rparr>\<rparr>"
        "\<lparr>skName = ''sec'', skKey = ''tok''\<rparr>" "[''tok'' \<mapsto> ''t1,t2,'']" "''t1,t2,''"])
    (simp_all add: loadRenovateJob_def memory_env_def memory_get_def example_id_def secured_sys_def
      secured_job_def example_job_def example_sys_def)

text \<open>
  C33: The Forgejo filter accepts exactly the edits of an issue whose body carries a Renovate
  marker and a checked box, and of a Renovate pull request its closing and reopening and an edit
  whose body has a checked box.
\<close>
theorem forgejo_filter:
  "fst (isValidForgejoEvent event payload) \<longleftrightarrow>
     (event = ''issues'' \<and> fjAction payload = ''edited'' \<and>
      (\<exists>i. fjIssue payload = Some i \<and> (\<exists>m \<in> set renovate_patterns. sublist m (fjiBody i)) \<and>
         (sublist ''- [x]'' (fjiBody i) \<or> sublist ''- [X]'' (fjiBody i)))) \<or>
     (event = ''pull_request'' \<and>
      (\<exists>pr. fjPullRequest payload = Some pr \<and> (\<exists>m \<in> set renovate_patterns. sublist m (fjpBody pr)) \<and>
         (fjAction payload = ''closed'' \<or> fjAction payload = ''reopened'' \<or>
          fjAction payload = ''edited'' \<and>
          (sublist ''- [x]'' (fjpBody pr) \<or> sublist ''- [X]'' (fjpBody pr)))))"
proof -
  have "[] \<notin> set renovate_patterns" by (simp add: renovate_patterns_def)
  then have content: "isRenovateContent d \<longleftrightarrow> (\<exists>m \<in> set renovate_patterns. sublist m d)" for d
    by (auto simp: isRenovateContent_def list_ex_iff strings_Contains_iff)
  have box: "hasCheckboxBeenChecked d \<longleftrightarrow> sublist ''- [x]'' d \<or> sublist ''- [X]'' d" for d
    by (auto simp: hasCheckboxBeenChecked_def strings_Contains_iff)
  have empty: "isRenovateContent d \<Longrightarrow> d \<noteq> []" for d by (simp add: isRenovateContent_def)
  show ?thesis
    unfolding isValidForgejoEvent_def verifyRenovateDescriptionChange_def box [symmetric]
      content [symmetric]
    using empty by (auto split: option.split)
qed

theorem forgejo_filter_witness:
  "\<not> fst (isValidForgejoEvent ''issues'' (zero_forgejo\<lparr>fjAction := ''opened''\<rparr>))"
  using forgejo_filter [of "''issues''" "zero_forgejo\<lparr>fjAction := ''opened''\<rparr>"] by simp



end
