(* ===== verification/Discovery.thy ===== *)
theory Discovery
  imports Renovate_Manager Job_Definitions Log_Parser "HOL-Library.List_Lexorder"
    "HOL-Library.Char_ord"
begin

text \<open>
  Discovery: the job that lists a platform's repositories, the wait for its end and the reading
  of its log, \<open>src/src/internal/renovate/discoveryAgent.go\<close> and \<open>podLogs.go\<close>. The lock of the
  agent keeps the two operations of one resource apart; each is one step of the model.

  \<open>sort.Strings\<close> orders bytes lexicographically, which is the order of
  \<open>HOL-Library.List_Lexorder\<close> on lists of characters.
\<close>

section \<open>Reading the log\<close>

definition repository_of :: "json \<Rightarrow> string option" where
  "repository_of v = dec_struct [(''repository'', dec_string)] v []"

fun discovered_elements :: "json list \<Rightarrow> go_error + string list" where
  "discovered_elements [] = Inr []"
| "discovered_elements (elem # elems) =
     (case (case dec_string elem [] of
              Some s \<Rightarrow> Some s
            | None \<Rightarrow> (case repository_of elem of
                         Some repo \<Rightarrow> if repo \<noteq> [] then Some repo else None
                       | None \<Rightarrow> None)) of
        None \<Rightarrow> Inl (ErrMsg ''unsupported element in discovered projects array'')
      | Some name \<Rightarrow>
          (case discovered_elements elems of Inl e \<Rightarrow> Inl e | Inr names \<Rightarrow> Inr (name # names)))"

definition parseLineForDiscoveredProjects :: "string \<Rightarrow> go_error + string list" where
  "parseLineForDiscoveredProjects line =
     (let line = strings_TrimSpace line
      in if line = [] \<or> hd line \<noteq> CHR ''['' then Inl (ErrMsg ''line does not start with ['')
         else case unmarshal_into (dec_slice [] dec_string) [] line of
                Some discovered \<Rightarrow> Inr discovered
              | None \<Rightarrow>
                  (case unmarshal_into (dec_slice JNull (\<lambda>v x. Some v)) [] line of
                     None \<Rightarrow> Inl (ErrOther ''invalid JSON'')
                   | Some raw \<Rightarrow> discovered_elements raw))"

fun first_parsed :: "string list \<Rightarrow> string list option" where
  "first_parsed [] = None"
| "first_parsed (line # lines) =
     (case parseLineForDiscoveredProjects line of
        Inr discovered \<Rightarrow> Some discovered
      | Inl err \<Rightarrow> first_parsed lines)"

definition parseDiscoveredProjects :: "string \<Rightarrow> go_error + string list" where
  "parseDiscoveredProjects logs =
     (case parseLineForDiscoveredProjects logs of
        Inr discovered \<Rightarrow> Inr discovered
      | Inl err \<Rightarrow>
          (case first_parsed (scan_lines (64 * 1024) logs) of
             Some discovered \<Rightarrow> Inr discovered
           | None \<Rightarrow> Inl (ErrMsg ''no valid JSON array found in discovery logs'')))"

text \<open>
  The latest successful pod. \<open>sort.Slice\<close> does not promise an order between pods of one start
  time; the model keeps theirs.
\<close>

definition getLatestSuccessfulPodLog :: "'w env \<Rightarrow> k8s_job \<Rightarrow> 'w sys \<Rightarrow> go_error + string" where
  "getLatestSuccessfulPodLog E job s =
     (case ePodsOfJobName E (jbNamespace job) (jbName job) (syWorld s) of
        Inl err \<Rightarrow> Inl err
      | Inr pods \<Rightarrow>
          let succeededPods = filter (\<lambda>p. poPhase p = ''Succeeded'' \<and> poStartTime p \<noteq> None) pods
          in if succeededPods = []
             then Inl (ErrMsg (''no successful pods found for job '' @ jbName job))
             else let latestPod = hd (sort_key (\<lambda>p. - the (poStartTime p)) succeededPods)
                  in case eClientset E (syWorld s) of
                       Some err \<Rightarrow> Inl (ErrWrap ''failed to get Kubernetes client'' err)
                     | None \<Rightarrow> ePodLogs E (poNamespace latestPod) (poName latestPod) None (syWorld s))"

definition getDiscoveredProjectsFromJobLogs ::
    "'w env \<Rightarrow> k8s_job \<Rightarrow> 'w sys \<Rightarrow> go_error + string list" where
  "getDiscoveredProjectsFromJobLogs E job s =
     (case getLatestSuccessfulPodLog E job s of
        Inl err \<Rightarrow> Inl (ErrWrap (''failed to get logs for job '' @ jbName job) err)
      | Inr logs \<Rightarrow>
          (case parseDiscoveredProjects logs of
             Inl err \<Rightarrow> Inl (ErrWrap ''failed to parse discovered projects from logs'' err)
           | Inr discovered \<Rightarrow> if discovered = [] then Inr [] else Inr (sort discovered)))"

section \<open>The agent\<close>

definition discovery_selector :: "renovate_job \<Rightarrow> string option \<Rightarrow> job_selector" where
  "discovery_selector job generation =
     \<lparr>seJobName = DiscoveryJobName job, seJobType = DiscoveryJobType,
      seNamespace = rjNamespace job, seGeneration = generation\<rparr>"

definition CreateDiscoveryJob :: "'w env \<Rightarrow> renovate_job \<Rightarrow> 'w sys \<Rightarrow> (go_error + string) \<times> 'w sys" where
  "CreateDiscoveryJob E renovateJob s =
     (let discoveryJob = newDiscoveryJob (sySettings s) renovateJob
      in case eSetControllerReference E renovateJob discoveryJob of
           Inl err \<Rightarrow> (Inl (ErrWrap ''failed to set controller reference'' err), s)
         | Inr owner \<Rightarrow>
             (case CreateJobWithGeneration E (discoveryJob\<lparr>jbOwner := owner\<rparr>)
                     (discovery_selector renovateJob None) s of
                (Inl err, s) \<Rightarrow> (Inl (ErrWrap ''failed to create discovery job'' err), s)
              | (Inr generation, s) \<Rightarrow> (Inr generation, s)))"

definition sleep :: "'w env \<Rightarrow> time \<Rightarrow> 'w sys \<Rightarrow> 'w sys" where
  "sleep E d s = s\<lparr>syWorld := eSleep E d (syWorld s)\<rparr>"

text \<open>
  The retry of the lookup. Its loop runs while the last error is a missing job, with a lookup
  per attempt and no pause in between (a wait of length 0: others may act meanwhile). It ends
  with a job, when the attempts are used up, or with any other error, which it drops: the code
  then reads the status of a nil job.
\<close>

datatype lookup = Found k8s_job | GaveUp go_error | Dropped go_error

fun retry_lookup :: "nat \<Rightarrow> 'w env \<Rightarrow> job_selector \<Rightarrow> go_error \<Rightarrow> 'w sys \<Rightarrow> lookup \<times> 'w sys" where
  "retry_lookup tries E sel err s =
     (if \<not> is_not_found err then (Dropped err, s)
      else case tries of
             0 \<Rightarrow> (GaveUp err, s)
           | Suc tries \<Rightarrow>
               if tries = 0 then (GaveUp err, s)
               else let s = sleep E 0 s
                    in case GetJobByLabel E sel s of
                         Inl err \<Rightarrow> retry_lookup tries E sel err s
                       | Inr job \<Rightarrow> (Found job, s))"

definition job_outcome :: "k8s_job \<Rightarrow> renovate_project_status" where
  "job_outcome job =
     (if sint (jbFailed job) > 0 then JobStatusFailed
      else if sint (jbSucceeded job) > 0 then JobStatusCompleted
      else JobStatusRunning)"

text \<open>\<open>Returns (Inl err)\<close> is the pair of \<open>JobStatusFailed\<close> and the error.\<close>

definition getDiscoveryJobStatusInternal ::
    "'w env \<Rightarrow> renovate_job \<Rightarrow> string \<Rightarrow> 'w sys \<Rightarrow>
     (go_error + renovate_project_status) go_run \<times> 'w sys" where
  "getDiscoveryJobStatusInternal E job generation s =
     (let sel = discovery_selector job (Some generation)
      in case GetJobByLabel E sel s of
           Inr existingDiscoveryJob \<Rightarrow> (Returns (Inr (job_outcome existingDiscoveryJob)), s)
         | Inl err \<Rightarrow>
             if is_not_found err then
               (case retry_lookup 5 E sel err (sleep E (1 * second) s) of
                  (Found existingDiscoveryJob, s) \<Rightarrow>
                    (Returns (Inr (job_outcome existingDiscoveryJob)), s)
                | (GaveUp err, s) \<Rightarrow> (Returns (Inl (ErrWrap ''discovery job not found'' err)), s)
                | (Dropped err, s) \<Rightarrow> (Panics ''nil pointer dereference'', s))
             else (Returns (Inl (ErrWrap ''failed to get discovery job'' err)), s))"

definition GetDiscoveryJobStatus ::
    "'w env \<Rightarrow> renovate_job \<Rightarrow> string \<Rightarrow> 'w sys \<Rightarrow>
     (go_error + renovate_project_status) go_run \<times> 'w sys" where
  "GetDiscoveryJobStatus E job generation s = getDiscoveryJobStatusInternal E job generation s"

definition discovery_result :: "'w env \<Rightarrow> renovate_job \<Rightarrow> 'w sys \<Rightarrow> go_error + string list" where
  "discovery_result E job s =
     (case GetJobByLabel E (discovery_selector job None) s of
        Inl err \<Rightarrow> Inl (ErrWrap ''failed to get discovery job'' err)
      | Inr existingDiscoveryJob \<Rightarrow>
          (case getDiscoveredProjectsFromJobLogs E existingDiscoveryJob s of
             Inl err \<Rightarrow> Inl (ErrWrap ''failed to get discovered projects from job logs'' err)
           | Inr projects \<Rightarrow> Inr projects))"

text \<open>
  The wait has no bound of its own: \<open>None\<close> is a wait that never ends. One poll either ends the
  wait or is followed by another one, after five seconds if the job is running.
\<close>

definition poll ::
    "'w env \<Rightarrow> renovate_job \<Rightarrow> string \<Rightarrow> 'w sys \<Rightarrow>
     ((go_error + string list) go_run \<times> 'w sys) + 'w sys" where
  "poll E job generation s =
     (case getDiscoveryJobStatusInternal E job generation s of
        (Panics m, s) \<Rightarrow> Inl (Panics m, s)
      | (Returns (Inl err), s) \<Rightarrow>
          Inl (Returns (Inl (ErrWrap ''failed to get discovery job status'' err)), s)
      | (Returns (Inr status), s) \<Rightarrow>
          if status = JobStatusRunning then Inr (sleep E (5 * second) s)
          else if status = JobStatusCompleted then Inl (Returns (discovery_result E job s), s)
          else if status = JobStatusFailed then Inl (Returns (Inl (ErrMsg ''discovery job failed'')), s)
          else Inr s)"

partial_function (option) WaitForDiscoveryJob ::
    "'w env \<Rightarrow> renovate_job \<Rightarrow> string \<Rightarrow> 'w sys \<Rightarrow>
     ((go_error + string list) go_run \<times> 'w sys) option" where
  "WaitForDiscoveryJob E job generation s =
     (case poll E job generation s of
        Inl r \<Rightarrow> Some r
      | Inr s \<Rightarrow> WaitForDiscoveryJob E job generation s)"

definition Discover ::
    "'w env \<Rightarrow> renovate_job \<Rightarrow> 'w sys \<Rightarrow> ((go_error + string list) go_run \<times> 'w sys) option" where
  "Discover E job s =
     (case CreateDiscoveryJob E job s of
        (Inl err, s) \<Rightarrow>
          Some (Returns (Inl (ErrWrap ''failed to create or get discovery job'' err)), s)
      | (Inr generation, s) \<Rightarrow> WaitForDiscoveryJob E job generation s)"

section \<open>Lemmas\<close>

text \<open>The state after \<open>k\<close> polls that did not end the wait.\<close>

fun polls :: "nat \<Rightarrow> 'w env \<Rightarrow> renovate_job \<Rightarrow> string \<Rightarrow> 'w sys \<Rightarrow> 'w sys option" where
  "polls 0 E job g s = Some s"
| "polls (Suc k) E job g s = (case poll E job g s of Inl r \<Rightarrow> None | Inr s \<Rightarrow> polls k E job g s)"

lemma wait_ends:
  "polls k E job g s = Some s' \<Longrightarrow> poll E job g s' = Inl r \<Longrightarrow> WaitForDiscoveryJob E job g s = Some r"
proof (induction k arbitrary: s)
  case 0
  then show ?case by (simp add: WaitForDiscoveryJob.simps)
next
  case (Suc k)
  then show ?case by (subst WaitForDiscoveryJob.simps) (auto split: sum.splits)
qed

lemma wait_returns:
  "WaitForDiscoveryJob E job g s = Some r \<Longrightarrow>
   \<exists>k s'. polls k E job g s = Some s' \<and> poll E job g s' = Inl r"
proof (induction rule: WaitForDiscoveryJob.raw_induct [rotated, consumes 1])
  case (1 wait E job g s r)
  show ?case
  proof (cases "poll E job g s")
    case (Inl r')
    with 1(2) show ?thesis by (intro exI [of _ 0] exI [of _ s]) simp
  next
    case (Inr s1)
    with 1(2) have "wait E job g s1 = Some r" by simp
    from 1(1) [OF this] obtain k s' where "polls k E job g s1 = Some s'" "poll E job g s' = Inl r"
      by blast
    with Inr show ?thesis by (intro exI [of _ "Suc k"] exI [of _ s']) simp
  qed
qed

end
