(* ===== verification/Discovery_Properties.thy ===== *)
theory Discovery_Properties
  imports Discovery Memory_Server
begin

text \<open>
  Properties of the discovery: what it reads from a log, that its result is sorted, when the
  wait for its job ends, and where the lookup of the job goes wrong.
\<close>

section \<open>Lemmas\<close>

text \<open>The elements of the list Renovate writes: a name, or an object that carries it.\<close>

datatype discovered = Named string | Described string

fun discovered_json :: "discovered \<Rightarrow> json" where
  "discovered_json (Named n) = JStr n"
| "discovered_json (Described n) = JObj [(''repository'', JStr n)]"

fun discovered_name :: "discovered \<Rightarrow> string" where
  "discovered_name (Named n) = n"
| "discovered_name (Described n) = n"

definition discovered_ok :: "discovered \<Rightarrow> bool" where
  "discovered_ok d \<longleftrightarrow> list_all plain_char (discovered_name d) \<and>
     (case d of Described n \<Rightarrow> n \<noteq> [] | Named n \<Rightarrow> True)"

definition repository_list :: "discovered list \<Rightarrow> string" where
  "repository_list ds = json_text (JArr (map discovered_json ds))"

lemma fold_name_repository [simp]: "fold_name ''repository'' = ''repository''"
  by (simp add: lower_char_def)

lemma discovered_plain: "discovered_ok d \<Longrightarrow> plain_json (discovered_json d)"
  by (cases d) (simp_all only: discovered_ok_def discovered_json.simps plain_json.simps
      discovered_name.simps list_all_Cons_Nil prod.case simp_thms, simp_all add: plain_char_def)

lemma repository_list_read:
  assumes "\<forall>d \<in> set ds. discovered_ok d"
  shows "json_unmarshal (repository_list ds) = Some (JArr (map discovered_json ds))"
  unfolding repository_list_def
proof (rule unmarshal_json_text)
  show "plain_json (JArr (map discovered_json ds))"
    using assms by (simp add: list_all_iff discovered_plain)
  have "json_depth (discovered_json d) \<le> 1" for d by (cases d) simp_all
  then have "foldr (\<lambda>v d. max (json_depth v) d) (map discovered_json ds) 0 \<le> 1"
    by (induction ds) simp_all
  then show "json_depth (JArr (map discovered_json ds)) \<le> 10000" by simp
qed

lemma elements_read:
  "\<forall>d \<in> set ds. discovered_ok d \<Longrightarrow>
   discovered_elements (map discovered_json ds) = Inr (map discovered_name ds)"
proof (induction ds)
  case Nil
  then show ?case by simp
next
  case (Cons d ds)
  then show ?case
    by (cases d)
      (simp_all add: dec_string_def repository_of_def dec_struct_def discovered_ok_def)
qed

lemma raw_elements: "dec_all JNull (\<lambda>v x. Some v) vs = Some vs"
  by (induction vs) simp_all

lemma names_read:
  "dec_all [] dec_string (map discovered_json ds) = Some names \<Longrightarrow> names = map discovered_name ds"
proof (induction ds arbitrary: names)
  case Nil
  then show ?case by simp
next
  case (Cons d ds)
  then show ?case by (cases d) (auto simp: dec_string_def split: option.splits)
qed

lemma TrimSpace_id:
  assumes "s \<noteq> []" and "\<not> is_space (hd s)" and "\<not> is_space (last s)"
  shows "strings_TrimSpace s = s"
proof -
  have "dropWhile is_space s = s" using assms(1,2) by (cases s) simp_all
  moreover have "dropWhile is_space (rev s) = rev s"
    using assms(1,3) by (cases s rule: rev_cases) simp_all
  ultimately show ?thesis by (simp add: strings_TrimSpace_def)
qed

lemma repository_list_shape:
  "\<exists>mid. repository_list ds = ''['' @ mid @ '']''"
  by (simp add: repository_list_def)

lemma repository_list_trim: "strings_TrimSpace (repository_list ds) = repository_list ds"
proof -
  obtain mid where "repository_list ds = ''['' @ mid @ '']''" using repository_list_shape by blast
  then show ?thesis by (intro TrimSpace_id) (simp_all add: is_space_def)
qed

lemma line_read:
  assumes "\<forall>d \<in> set ds. discovered_ok d"
  shows "parseLineForDiscoveredProjects (repository_list ds) = Inr (map discovered_name ds)"
proof -
  have shape: "repository_list ds \<noteq> []" "hd (repository_list ds) = CHR ''[''"
    using repository_list_shape [of ds] by auto
  show ?thesis
  proof (cases "dec_all [] dec_string (map discovered_json ds)")
    case None
    with shape repository_list_read [OF assms] elements_read [OF assms] show ?thesis
      by (simp add: parseLineForDiscoveredProjects_def Let_def repository_list_trim
          unmarshal_into_def dec_slice_def raw_elements)
  next
    case (Some names)
    with shape repository_list_read [OF assms] names_read [OF Some] show ?thesis
      by (simp add: parseLineForDiscoveredProjects_def Let_def repository_list_trim
          unmarshal_into_def dec_slice_def)
  qed
qed

text \<open>A line of other output: it does not begin, after spaces, with a bracket.\<close>

definition noise_line :: "string \<Rightarrow> bool" where
  "noise_line l \<longleftrightarrow> l \<noteq> [] \<and> \<not> is_space (hd l) \<and> hd l \<noteq> CHR ''['' \<and> clean_line l \<and>
     int (length l) < 64 * 1024"

lemma noise_rejected:
  assumes "l \<noteq> []" and "\<not> is_space (hd l)" and "hd l \<noteq> CHR ''[''"
  shows "\<exists>e. parseLineForDiscoveredProjects (l @ rest) = Inl e"
proof -
  obtain c cs where l: "l = c # cs" using assms(1) by (cases l) auto
  with assms have c: "\<not> is_space c" "c \<noteq> CHR ''[''" by simp_all
  have "hd (strings_TrimSpace (l @ rest)) = c"
  proof -
    have d: "dropWhile is_space (l @ rest) = c # cs @ rest" using c l by simp
    have "dropWhile is_space (rev (c # xs)) \<noteq> [] \<and> last (dropWhile is_space (rev (c # xs))) = c" for xs
      using c(1) by (simp add: dropWhile_append3 last_appendR dropWhile_append)
    then show ?thesis unfolding strings_TrimSpace_def d
      by (metis hd_rev)
  qed
  with c(2) show ?thesis by (simp add: parseLineForDiscoveredProjects_def Let_def)
qed

lemma first_parsed_noise:
  "\<forall>l \<in> set ls. noise_line l \<Longrightarrow> first_parsed (ls @ rest) = first_parsed rest"
proof (induction ls)
  case Nil
  then show ?case by simp
next
  case (Cons l ls)
  then obtain e where "parseLineForDiscoveredProjects l = Inl e"
    using noise_rejected [of l "[]"] by (auto simp: noise_line_def)
  with Cons show ?case by simp
qed

section \<open>Properties\<close>



text \<open>
  What discovery returns is sorted and is what the log of the newest successful pod says, no
  name lost, added or duplicated.
\<close>
theorem discovered_sorted:
  assumes "getDiscoveredProjectsFromJobLogs E job s = Inr projects"
  shows "sorted projects \<and>
    (\<exists>logs names. getLatestSuccessfulPodLog E job s = Inr logs \<and>
       parseDiscoveredProjects logs = Inr names \<and>
       (\<forall>n. count_list projects n = count_list names n))"
proof -
  from assms obtain logs where logs: "getLatestSuccessfulPodLog E job s = Inr logs"
    by (auto simp: getDiscoveredProjectsFromJobLogs_def split: sum.splits)
  with assms obtain names where names: "parseDiscoveredProjects logs = Inr names"
    by (auto simp: getDiscoveredProjectsFromJobLogs_def split: sum.splits)
  from assms logs names have p: "projects = sort names"
    by (auto simp: getDiscoveredProjectsFromJobLogs_def split: if_splits)
  have "count_list (insort x xs) n = (if x = n then 1 else 0) + count_list xs n"
    for x n :: string and xs
    by (induction xs) auto
  then have "count_list (sort names) n = count_list names n" for n
    by (induction names) auto
  with logs names p show ?thesis by simp
qed

definition pod_log :: string where
  "pod_log = unlines [''WARN: slow'', repository_list [Named ''b'', Named ''a'']]"

definition pod_env :: "memory env" where
  "pod_env = memory_env\<lparr>
     ePodsOfJobName := (\<lambda>ns n w. Inr [\<lparr>poName = ''p'', poNamespace = ns, poCreationTimestamp = 0,
       poPhase = ''Succeeded'', poStartTime = Some 0, poFirstContainer = ''discovery''\<rparr>]),
     ePodLogs := (\<lambda>ns p c w. Inr pod_log)\<rparr>"

lemma pod_log_parsed: "parseDiscoveredProjects pod_log = Inr [''b'', ''a'']"
proof -
  have "\<exists>e. parseLineForDiscoveredProjects (''WARN: slow'' @ x) = Inl e" for x
    by (rule noise_rejected) (simp_all add: is_space_def)
  from this [of "[]"] this [of "newline # repository_list [Named ''b'', Named ''a''] @ [newline]"]
  obtain e f where e: "parseLineForDiscoveredProjects pod_log = Inl e"
    and f: "parseLineForDiscoveredProjects ''WARN: slow'' = Inl f"
    by (auto simp: pod_log_def unlines_def)
  have "parseLineForDiscoveredProjects (repository_list [Named ''b'', Named ''a'']) = Inr [''b'', ''a'']"
    by (subst line_read) (simp_all add: discovered_ok_def plain_char_def)
  moreover have "scan_lines (64 * 1024) pod_log =
      [''WARN: slow'', repository_list [Named ''b'', Named ''a'']]"
    unfolding pod_log_def
    by (rule scan_lines_unlines)
      (simp add: clean_line_def newline_def repository_list_def quote_string_def quote_char_def)
  ultimately show ?thesis using e f by (simp add: parseDiscoveredProjects_def)
qed

theorem discovered_sorted_witness:
  "getDiscoveredProjectsFromJobLogs pod_env (newDiscoveryJob Map.empty example_job) example_sys =
     Inr [''a'', ''b''] \<and> sorted [''a'', ''b'']"
proof -
  have log: "getLatestSuccessfulPodLog pod_env j example_sys = Inr pod_log" for j
    by (simp add: getLatestSuccessfulPodLog_def pod_env_def memory_env_def)
  have "sort [''b'', ''a''] = [''a'', ''b'']" by (simp add: less_char_def less_eq_char_def)
  then have run: "getDiscoveredProjectsFromJobLogs pod_env (newDiscoveryJob Map.empty example_job)
      example_sys = Inr [''a'', ''b'']"
    by (simp add: getDiscoveredProjectsFromJobLogs_def log pod_log_parsed)
  from run discovered_sorted [OF run] show ?thesis by blast
qed


text \<open>
  C36: The lookup of a discovery job that is missing at first and whose next lookup fails with
  another error reads the status of a job it does not have: the call panics instead of reporting
  that error.
\<close>
theorem lookup_error_dropped:
  assumes "GetJobByLabel E (discovery_selector job (Some g)) s = Inl e" and "is_not_found e"
    and "GetJobByLabel E (discovery_selector job (Some g)) (sleep E 0 (sleep E (1 * second) s)) = Inl e'"
    and "\<not> is_not_found e'"
  shows "fst (getDiscoveryJobStatusInternal E job g s) = Panics ''nil pointer dereference''"
proof -
  have "retry_lookup 5 E (discovery_selector job (Some g)) e (sleep E (1 * second) s) =
      (Dropped e', sleep E 0 (sleep E (1 * second) s))"
    using assms by (simp add: numeral_eq_Suc Let_def)
  with assms(1,2) show ?thesis
    by (simp add: getDiscoveryJobStatusInternal_def Let_def)
qed

definition failing_env :: "memory env" where
  "failing_env = memory_env\<lparr>eListJobs := (\<lambda>ns m w. if meClock w = 0 then Inr []
     else Inl (ErrOther ''connection refused''))\<rparr>"

definition failing_sys :: "memory sys" where
  "failing_sys = example_sys\<lparr>syWorld := example_memory\<lparr>meClock := 0\<rparr>\<rparr>"

theorem lookup_error_dropped_witness:
  "fst (getDiscoveryJobStatusInternal failing_env example_job ''1'' failing_sys) =
     Panics ''nil pointer dereference''"
  by (rule lookup_error_dropped [where e = "job_not_found (DiscoveryJobName example_job)" and
        e' = "ErrWrap (''listing jobs with label '' @ DiscoveryJobName example_job)
          (ErrOther ''connection refused'')"])
    (simp_all add: GetJobByLabel_def GetJobsByLabel_def failing_env_def failing_sys_def sleep_def
      memory_env_def example_sys_def example_memory_def second_def discovery_selector_def
      job_not_found_def)

end
