(* ===== verification/Ui_Http.thy ===== *)
theory Ui_Http
  imports Renovate_Manager
begin

text \<open>
  Requests and responses of the UI server, and the answers its handlers share,
  \<open>src/src/ui/error.go\<close>. A request carries what the handlers read: the method, the path, the query,
  header, cookies and body, the form values (\<open>None\<close> when the form cannot be parsed) and the session
  the middleware put into its context. A response carries its status, the cookies it sets, a
  redirect target and a body; constant response headers are left out.
\<close>

record session_data =
  sdEmail :: string
  sdName :: string
  sdExpiry :: int
  sdAccessToken :: string
  sdGroups :: "string list"

record ui_request =
  uqMethod :: string
  uqPath :: string
  uqQuery :: "string \<Rightarrow> string"
  uqHeader :: "string \<Rightarrow> string"
  uqCookie :: "string \<Rightarrow> string option"
  uqTLS :: bool
  uqBody :: "string option"
  uqForm :: "(string \<Rightarrow> string) option"
  uqSession :: "session_data option"

record cookie =
  ckName :: string
  ckValue :: string
  ckMaxAge :: int
  ckSecure :: bool
  ckSameSiteLax :: bool

text \<open>The entry of a resource in the job list.\<close>

record renovate_job_info =
  jiName :: string
  jiNamespace :: string
  jiCronExpression :: string
  jiNextSchedule :: time
  jiDiscoveryStatus :: renovate_project_status
  jiProjects :: "renovate_project_info list"
  jiPlatform :: string
  jiPlatformEndpoint :: string
  jiDebug :: bool

text \<open>
  Bodies as the values that are written: an error with its message, status and cause, a success
  message, the job list, the JSON lines of a log, a status, the login state.
\<close>

datatype ui_body =
    NoBody
  | TextBody string
  | HtmlBody string
  | ErrorBody string nat "go_error option"
  | SuccessBody string
  | VersionBody string
  | JobsBody "renovate_job_info list"
  | LogsBody "string list"
  | StatusBody renovate_project_status
  | AuthDisabledBody
  | AuthStatusBody "(string \<times> string) option"
  | UnauthorizedBody
  | LoggedOutPage
  | HealthBody application_health
  | StaticBody string

record ui_response =
  upStatus :: nat
  upCookies :: "cookie list"
  upLocation :: "string option"
  upBody :: ui_body

type_synonym 'w ui_handler = "ui_request \<Rightarrow> 'w sys \<Rightarrow> ui_response go_run \<times> 'w sys"

definition reply :: "nat \<Rightarrow> ui_body \<Rightarrow> ui_response" where
  "reply st b = \<lparr>upStatus = st, upCookies = [], upLocation = None, upBody = b\<rparr>"

definition writeError :: "string \<Rightarrow> nat \<Rightarrow> go_error option \<Rightarrow> ui_response" where
  "writeError message st err = reply st (ErrorBody message st err)"

definition writeSuccess :: "string \<Rightarrow> ui_response" where
  "writeSuccess message = reply 200 (SuccessBody message)"

definition internalServerError :: "go_error option \<Rightarrow> string \<Rightarrow> ui_response" where
  "internalServerError err message = writeError message 500 err"

definition badRequestError :: "go_error option \<Rightarrow> string \<Rightarrow> ui_response" where
  "badRequestError err message = writeError message 400 err"

text \<open>\<open>http.Error\<close> and \<open>http.Redirect\<close> with status 302.\<close>

definition http_error :: "string \<Rightarrow> nat \<Rightarrow> ui_response" where
  "http_error message st = reply st (TextBody message)"

definition redirect :: "string \<Rightarrow> ui_response" where
  "redirect target = (reply 302 NoBody)\<lparr>upLocation := Some target\<rparr>"

definition with_cookies :: "cookie list \<Rightarrow> ui_response \<Rightarrow> ui_response" where
  "with_cookies cs p = p\<lparr>upCookies := cs @ upCookies p\<rparr>"

end
