(* ===== verification/Base64.thy ===== *)
theory Base64
  imports Prelude
begin

text \<open>
  \<open>base64.URLEncoding\<close> of the standard library: the session cookie and the login state are random or sealed bytes in this encoding. The decoder skips line ends,
  wants the padding, and ignores the unused bits of the last digit, as Go's does.
\<close>

section \<open>Digits\<close>

definition base64_alphabet :: string where
  "base64_alphabet = ''ABCDEFGHIJKLMNOPQRSTUVWXYZabcdefghijklmnopqrstuvwxyz0123456789-_''"

definition base64_digit :: "nat \<Rightarrow> char" where
  "base64_digit n = base64_alphabet ! n"

definition base64_value :: "char \<Rightarrow> nat option" where
  "base64_value c = find_index (\<lambda>d. d = c) base64_alphabet"

section \<open>Encoding and decoding\<close>

fun base64_encode :: "string \<Rightarrow> string" where
  "base64_encode [] = []"
| "base64_encode [a] =
     [base64_digit (of_char a div 4), base64_digit (of_char a mod 4 * 16), CHR ''='', CHR ''='']"
| "base64_encode [a, b] =
     [base64_digit (of_char a div 4), base64_digit (of_char a mod 4 * 16 + of_char b div 16),
      base64_digit (of_char b mod 16 * 4), CHR ''='']"
| "base64_encode (a # b # c # rest) =
     base64_digit (of_char a div 4) # base64_digit (of_char a mod 4 * 16 + of_char b div 16) #
     base64_digit (of_char b mod 16 * 4 + of_char c div 64) # base64_digit (of_char c mod 64) #
     base64_encode rest"

definition byte_1 :: "nat \<Rightarrow> nat \<Rightarrow> char" where
  "byte_1 w x = char_of (w * 4 + x div 16)"

definition byte_2 :: "nat \<Rightarrow> nat \<Rightarrow> char" where
  "byte_2 x y = char_of (x mod 16 * 16 + y div 4)"

definition byte_3 :: "nat \<Rightarrow> nat \<Rightarrow> char" where
  "byte_3 y z = char_of (y mod 4 * 64 + z)"

fun decode_quanta :: "string \<Rightarrow> string option" where
  "decode_quanta [] = Some []"
| "decode_quanta (a # b # c # d # rest) =
     (case (base64_value a, base64_value b) of
        (Some w, Some x) \<Rightarrow>
          if c = CHR ''='' then
            (if d = CHR ''='' \<and> rest = [] then Some [byte_1 w x] else None)
          else (case base64_value c of
                  None \<Rightarrow> None
                | Some y \<Rightarrow>
                    if d = CHR ''='' then
                      (if rest = [] then Some [byte_1 w x, byte_2 x y] else None)
                    else (case base64_value d of
                            None \<Rightarrow> None
                          | Some z \<Rightarrow>
                              map_option (\<lambda>bs. byte_1 w x # byte_2 x y # byte_3 y z # bs)
                                (decode_quanta rest)))
      | _ \<Rightarrow> None)"
| "decode_quanta _ = None"

definition base64_decode :: "string \<Rightarrow> string option" where
  "base64_decode s = decode_quanta (filter (\<lambda>c. c \<noteq> CHR 0x0A \<and> c \<noteq> CHR 0x0D) s)"

section \<open>Round trip\<close>

lemma digits_all:
  "list_all (\<lambda>n. base64_value (base64_digit n) = Some n \<and> base64_digit n \<noteq> CHR ''='' \<and>
     base64_digit n \<noteq> CHR 0x0A \<and> base64_digit n \<noteq> CHR 0x0D) [0..<64]"
  by code_simp

lemma base64_digit_props:
  assumes "n < 64"
  shows "base64_value (base64_digit n) = Some n" and "base64_digit n \<noteq> CHR ''=''"
    and "base64_digit n \<noteq> CHR 0x0A" and "base64_digit n \<noteq> CHR 0x0D"
  using digits_all assms by (auto simp: list_all_iff)

lemma of_char_bound: "(of_char (c :: char) :: nat) < 256"
  by simp

lemma byte_parts: "of_char (b :: char) div 16 < (16 :: nat)" "of_char (c :: char) div 64 < (4 :: nat)"
  using of_char_bound [of b] of_char_bound [of c] by (simp_all add: less_mult_imp_div_less)

lemma sextets:
  fixes a b c :: nat
  assumes "a < 256" and "b < 256" and "c < 256"
  shows "a div 4 < 64" and "a mod 4 * 16 < 64" and "a mod 4 * 16 + b div 16 < 64"
    and "b mod 16 * 4 < 64" and "b mod 16 * 4 + c div 64 < 64" and "c mod 64 < 64"
  using assms by auto

lemma byte_1_sextet:
  assumes "e < 16"
  shows "byte_1 (of_char a div 4) (of_char a mod 4 * 16 + e) = a"
proof -
  have "(of_char a mod 4 * 16 + e) div 16 = (of_char a mod 4 :: nat)" using assms by simp
  then show ?thesis by (simp add: byte_1_def)
qed

lemma byte_2_sextet:
  assumes "e < 4" and "d < 4"
  shows "byte_2 (d * 16 + of_char b div 16) (of_char b mod 16 * 4 + e) = b"
proof -
  have "of_char b div 16 < (16 :: nat)"
    using of_char_bound [of b] by (simp add: less_mult_imp_div_less)
  then have "(d * 16 + of_char b div 16) mod 16 = (of_char b div 16 :: nat)" by simp
  moreover have "(of_char b mod 16 * 4 + e) div 4 = (of_char b mod 16 :: nat)"
    using assms(1) by simp
  ultimately show ?thesis by (simp add: byte_2_def)
qed

lemma byte_3_sextet: "byte_3 (d * 4 + of_char c div 64) (of_char c mod 64) = c"
proof -
  have "of_char c div 64 < (4 :: nat)"
    using of_char_bound [of c] by (simp add: less_mult_imp_div_less)
  then have "(d * 4 + of_char c div 64) mod 4 = (of_char c div 64 :: nat)" by simp
  then show ?thesis by (simp add: byte_3_def)
qed

lemma decode_quanta_encode: "decode_quanta (base64_encode s) = Some s"
proof (induction s rule: base64_encode.induct)
  case 1
  then show ?case by simp
next
  case (2 a)
  then show ?case
    using byte_1_sextet [of 0 a] sextets [OF of_char_bound [of a] of_char_bound [of a] of_char_bound [of a]]
    by (simp add: base64_digit_props)
next
  case (3 a b)
  then show ?case
    using byte_1_sextet [of "of_char b div 16" a] byte_2_sextet [of 0 "of_char a mod 4" b]
      sextets [OF of_char_bound [of a] of_char_bound [of b] of_char_bound [of b]] byte_parts(1) [of b]
    by (simp add: base64_digit_props)
next
  case (4 a b c rest)
  then show ?case
    using byte_1_sextet [of "of_char b div 16" a]
      byte_2_sextet [of "of_char c div 64" "of_char a mod 4" b]
      byte_3_sextet [of "of_char b mod 16" c]
      sextets [OF of_char_bound [of a] of_char_bound [of b] of_char_bound [of c]] byte_parts(1) [of b]
      byte_parts(2) [of c]
    by (simp add: base64_digit_props)
qed

lemma encode_no_newline: "list_all (\<lambda>c. c \<noteq> CHR 0x0A \<and> c \<noteq> CHR 0x0D) (base64_encode s)"
proof (induction s rule: base64_encode.induct)
  case 1
  then show ?case by simp
next
  case (2 a)
  then show ?case
    using sextets [OF of_char_bound [of a] of_char_bound [of a] of_char_bound [of a]]
    by (simp add: base64_digit_props)
next
  case (3 a b)
  then show ?case
    using sextets [OF of_char_bound [of a] of_char_bound [of b] of_char_bound [of b]]
    by (simp add: base64_digit_props)
next
  case (4 a b c rest)
  then show ?case
    using sextets [OF of_char_bound [of a] of_char_bound [of b] of_char_bound [of c]]
    by (simp add: base64_digit_props)
qed

lemma base64_decode_encode: "base64_decode (base64_encode s) = Some s"
proof -
  have "filter (\<lambda>c. c \<noteq> CHR 0x0A \<and> c \<noteq> CHR 0x0D) (base64_encode s) = base64_encode s"
    using encode_no_newline [of s] by (auto simp: filter_id_conv list_all_iff)
  then show ?thesis by (simp only: base64_decode_def decode_quanta_encode)
qed

lemma base64_encode_Nil [simp]: "base64_encode s = [] \<longleftrightarrow> s = []"
  by (cases s rule: base64_encode.cases) simp_all

end
