(* ===== verification/Json_Write.thy ===== *)
theory Json_Write
  imports Json_Text
begin

text \<open>
  \<open>json.Marshal\<close> of a JSON value, with the escaping of \<open>encoding/json\<close>: quotes, backslashes,
  control characters, the characters HTML gives a meaning and the two line separators are
  written as escapes, and bytes that are not UTF-8 as the replacement character. On text free of
  those it writes the canonical form of \<open>json_text\<close>, so what is marshalled is read back.
\<close>

definition hex_nibble :: "nat \<Rightarrow> char" where
  "hex_nibble n = ''0123456789abcdef'' ! n"

definition html_char :: "nat \<Rightarrow> bool" where
  "html_char b \<longleftrightarrow> b \<in> {38, 60, 62}"

definition escape_byte :: "nat \<Rightarrow> string" where
  "escape_byte b =
     (if b = 34 \<or> b = 92 then [CHR 0x5C, char_of b]
      else if 32 \<le> b \<and> \<not> html_char b then [char_of b]
      else if b = 8 then [CHR 0x5C, CHR ''b'']
      else if b = 12 then [CHR 0x5C, CHR ''f'']
      else if b = 10 then [CHR 0x5C, CHR ''n'']
      else if b = 13 then [CHR 0x5C, CHR ''r'']
      else if b = 9 then [CHR 0x5C, CHR ''t'']
      else CHR 0x5C # ''u00'' @ [hex_nibble (b div 16), hex_nibble (b mod 16)])"

function escape_bytes :: "nat list \<Rightarrow> string" where
  "escape_bytes bs =
     (case bs of
        [] \<Rightarrow> []
      | b # rest \<Rightarrow>
          if b < 128 then escape_byte b @ escape_bytes rest
          else if utf8_length bs = 0 then CHR 0x5C # ''ufffd'' @ escape_bytes rest
          else if take 3 bs = [226, 128, 168] then CHR 0x5C # ''u2028'' @ escape_bytes (drop 3 bs)
          else if take 3 bs = [226, 128, 169] then CHR 0x5C # ''u2029'' @ escape_bytes (drop 3 bs)
          else map char_of (take (utf8_length bs) bs) @ escape_bytes (drop (utf8_length bs) bs))"
  by auto
termination
  by (relation "measure length") auto

declare escape_bytes.simps [simp del]

definition marshal_string :: "string \<Rightarrow> string" where
  "marshal_string s = CHR 0x22 # escape_bytes (bytes_of s) @ [CHR 0x22]"

fun json_marshal :: "json \<Rightarrow> string" where
  "json_marshal JNull = ''null''"
| "json_marshal (JBool b) = (if b then ''true'' else ''false'')"
| "json_marshal (JNum n) = n"
| "json_marshal (JStr s) = marshal_string s"
| "json_marshal (JArr vs) = ''['' @ strings_Join (map json_marshal vs) '','' @ '']''"
| "json_marshal (JObj ms) =
     ''{'' @ strings_Join (map (\<lambda>(k, v). marshal_string k @ '':'' @ json_marshal v) ms) '','' @ ''}''"

section \<open>Text without special characters\<close>

definition safe_char :: "char \<Rightarrow> bool" where
  "safe_char c \<longleftrightarrow> plain_char c \<and> \<not> html_char (of_char c)"

fun safe_json :: "json \<Rightarrow> bool" where
  "safe_json JNull = True"
| "safe_json (JBool b) = True"
| "safe_json (JNum n) = num_literal n"
| "safe_json (JStr s) = list_all safe_char s"
| "safe_json (JArr vs) = list_all safe_json vs"
| "safe_json (JObj ms) = list_all (\<lambda>(k, v). list_all safe_char k \<and> safe_json v) ms"

lemma escape_bytes_Nil [simp]: "escape_bytes [] = []"
  by (subst escape_bytes.simps) simp

lemma escape_safe_char:
  assumes "safe_char c"
  shows "escape_bytes (of_char c # bs) = quote_char c @ escape_bytes bs"
proof -
  have "(of_char c :: nat) < 128" and "32 \<le> (of_char c :: nat)" and "\<not> html_char (of_char c)"
    using assms by (simp_all add: safe_char_def plain_char_def)
  then show ?thesis
    by (subst escape_bytes.simps)
      (simp add: escape_byte_def quote_char_def of_char_quotes disj_commute)
qed

lemma marshal_string_safe: "list_all safe_char s \<Longrightarrow> marshal_string s = quote_string s"
proof -
  have "list_all safe_char s \<Longrightarrow> escape_bytes (bytes_of s) = concat (map quote_char s)"
    by (induction s) (simp_all add: bytes_of_def escape_safe_char)
  then show "list_all safe_char s \<Longrightarrow> marshal_string s = quote_string s"
    by (simp add: marshal_string_def quote_string_def)
qed

lemma safe_plain_char: "safe_char c \<Longrightarrow> plain_char c"
  by (simp add: safe_char_def)

lemma marshal_safe: "safe_json v \<Longrightarrow> json_marshal v = json_text v \<and> plain_json v"
proof (induction v)
  case (JStr s)
  then show ?case
    using list.pred_mono_strong [of safe_char s plain_char] safe_plain_char
    by (simp add: marshal_string_safe)
next
  case (JArr vs)
  then have "map json_marshal vs = map json_text vs" and "list_all plain_json vs"
    by (auto simp: list_all_iff)
  then show ?case by (simp only: json_marshal.simps json_text.simps plain_json.simps simp_thms)
next
  case (JObj ms)
  have "(case m of (k, v) \<Rightarrow> marshal_string k @ '':'' @ json_marshal v) =
      (case m of (k, v) \<Rightarrow> quote_string k @ '':'' @ json_text v) \<and>
      (case m of (k, v) \<Rightarrow> list_all plain_char k \<and> plain_json v)" if "m \<in> set ms" for m
  proof -
    obtain k v where m: "m = (k, v)" by (cases m)
    with JObj.prems that have "list_all safe_char k" "safe_json v" by (auto simp: list_all_iff)
    moreover from this JObj.IH that m have "json_marshal v = json_text v \<and> plain_json v"
      by fastforce
    ultimately show ?thesis
      using m list.pred_mono_strong [of safe_char k plain_char] safe_plain_char
      by (simp add: marshal_string_safe)
  qed
  then have "map (\<lambda>(k, v). marshal_string k @ '':'' @ json_marshal v) ms =
      map (\<lambda>(k, v). quote_string k @ '':'' @ json_text v) ms"
    and "list_all (\<lambda>(k, v). list_all plain_char k \<and> plain_json v) ms"
    by (auto simp: list_all_iff)
  then show ?case by (simp only: json_marshal.simps json_text.simps plain_json.simps simp_thms)
qed simp_all

lemma unmarshal_marshal:
  assumes "safe_json v" and "json_depth v \<le> 10000"
  shows "json_unmarshal (json_marshal v) = Some v"
  using marshal_safe [OF assms(1)] unmarshal_json_text [OF _ assms(2)] by simp

end
