(* ===== verification/Group_Validation.thy ===== *)
theory Group_Validation
  imports Prelude
begin

text \<open>
  Validation of the groups an identity provider claims for a user,
  \<open>src/src/ui/group_validation.go\<close>: sanitise, normalise, filter by policy. Loggers are left out;
  the regular expression of the policy is compiled by the library and is a predicate here.
\<close>

section \<open>The three layers\<close>

definition maxGroupNameLength :: nat where
  "maxGroupNameLength = 256"

definition maxGroupsPerUser :: nat where
  "maxGroupsPerUser = 100"

text \<open>\<open>^[a-zA-Z0-9._@/,= -]+$\<close>, on a name that is not empty.\<close>

definition group_char :: "char \<Rightarrow> bool" where
  "group_char c \<longleftrightarrow>
     (let n = (of_char c :: nat)
      in (97 \<le> n \<and> n \<le> 122) \<or> (65 \<le> n \<and> n \<le> 90) \<or> (48 \<le> n \<and> n \<le> 57) \<or>
         c \<in> set ''._@/,= -'')"

definition validateGroupName :: "string \<Rightarrow> go_error option" where
  "validateGroupName name =
     (if name = [] then Some (ErrMsg ''empty group name'')
      else if length name > maxGroupNameLength
      then Some (ErrMsg (''group name too long: '' @ show_nat (length name) @
             '' characters (max: '' @ show_nat maxGroupNameLength @ '')''))
      else if \<not> list_all group_char name
      then Some (ErrMsg ''invalid characters in group name (allowed: a-z A-Z 0-9 . _ @ / , = - space)'')
      else None)"

definition sanitizeGroups :: "string list \<Rightarrow> string list" where
  "sanitizeGroups groups =
     (let groups = (if length groups > maxGroupsPerUser then take maxGroupsPerUser groups else groups)
      in filter (\<lambda>g. validateGroupName g = None) (map strings_TrimSpace groups))"

text \<open>A nil slice stays nil; nil and empty slices read alike.\<close>

definition normalizeGroups :: "string list \<Rightarrow> string list" where
  "normalizeGroups groups = map (\<lambda>g. strings_ToLower (strings_TrimSpace g)) groups"

text \<open>The loop with its table of groups seen.\<close>

fun dedup_groups :: "string set \<Rightarrow> string list \<Rightarrow> string list" where
  "dedup_groups seen [] = []"
| "dedup_groups seen (g # groups) =
     (if g = [] then dedup_groups seen groups
      else if g \<in> seen then dedup_groups seen groups
      else g # dedup_groups (insert g seen) groups)"

definition normalizeAndValidateGroups :: "string list \<Rightarrow> string list" where
  "normalizeAndValidateGroups groups = dedup_groups {} (normalizeGroups groups)"

record group_filter_config =
  gfAllowedPrefix :: string
  gfAllowedPattern :: "(string \<Rightarrow> bool) option"

definition group_allowed :: "group_filter_config \<Rightarrow> string \<Rightarrow> bool" where
  "group_allowed cfg g \<longleftrightarrow>
     (gfAllowedPrefix cfg \<noteq> [] \<longrightarrow> strings_HasPrefix g (gfAllowedPrefix cfg)) \<and>
     (case gfAllowedPattern cfg of None \<Rightarrow> True | Some matches \<Rightarrow> matches g)"

definition filterGroupsByPolicy :: "group_filter_config \<Rightarrow> string list \<Rightarrow> string list" where
  "filterGroupsByPolicy cfg groups =
     (if gfAllowedPrefix cfg = [] \<and> gfAllowedPattern cfg = None then groups
      else filter (group_allowed cfg) groups)"

definition ValidateAndNormalizeGroups :: "group_filter_config \<Rightarrow> string list \<Rightarrow> string list" where
  "ValidateAndNormalizeGroups cfg groups =
     filterGroupsByPolicy cfg (normalizeAndValidateGroups (sanitizeGroups groups))"

text \<open>\<open>hasIntersection\<close> of \<open>renovateController.go\<close>: the smaller list becomes the table.\<close>

definition hasIntersection :: "string list \<Rightarrow> string list \<Rightarrow> bool" where
  "hasIntersection a b =
     (if a = [] \<or> b = [] then False
      else let (a, b) = (if length a > length b then (b, a) else (a, b));
               table = set a
           in list_ex (\<lambda>item. item \<in> table) b)"

section \<open>Trimming and letter case\<close>

lemma hasIntersection_iff: "hasIntersection a b \<longleftrightarrow> set a \<inter> set b \<noteq> {}"
  by (auto simp: hasIntersection_def list_ex_iff)

lemma set_TrimSpace: "set (strings_TrimSpace s) \<subseteq> set s"
  unfolding strings_TrimSpace_def set_rev
  using set_dropWhileD [of _ is_space] by (metis set_rev subsetI)

lemma length_TrimSpace: "length (strings_TrimSpace s) \<le> length s"
  unfolding strings_TrimSpace_def
  using length_dropWhile_le [of is_space "rev (dropWhile is_space s)"]
    length_dropWhile_le [of is_space s] by simp

lemma TrimSpace_trimmed:
  assumes "s = [] \<or> (\<not> is_space (hd s) \<and> \<not> is_space (last s))"
  shows "strings_TrimSpace s = s"
proof (cases "s = []")
  case True
  then show ?thesis by (simp add: strings_TrimSpace_def)
next
  case False
  have keep: "dropWhile is_space xs = xs" if "xs \<noteq> []" "\<not> is_space (hd xs)" for xs
    using that by (cases xs) auto
  have "dropWhile is_space s = s" and "dropWhile is_space (rev s) = rev s"
    using assms False by (intro keep; simp add: hd_rev)+
  then show ?thesis by (simp add: strings_TrimSpace_def)
qed

lemma TrimSpace_ends:
  assumes "strings_TrimSpace s \<noteq> []"
  shows "\<not> is_space (hd (strings_TrimSpace s))" and "\<not> is_space (last (strings_TrimSpace s))"
proof -
  let ?d = "dropWhile is_space s"
  let ?t = "dropWhile is_space (rev ?d)"
  have t: "?t \<noteq> []" using assms by (simp_all add: strings_TrimSpace_def del: dropWhile_eq_Nil_conv)
  then have d: "?d \<noteq> []" by (metis dropWhile.simps(1) rev.simps(1))
  from t have "\<not> is_space (hd ?t)" by (intro hd_dropWhile) auto
  then show "\<not> is_space (last (strings_TrimSpace s))" by (simp add: strings_TrimSpace_def last_rev t)
  have "last (rev ?d) = last (takeWhile is_space (rev ?d) @ ?t)" by simp
  also have "\<dots> = last ?t" using t by (simp only: last_append if_False)
  finally have "hd (strings_TrimSpace s) = hd ?d"
    using d t by (simp add: strings_TrimSpace_def hd_rev last_rev)
  moreover have "\<not> is_space (hd ?d)" using d by (intro hd_dropWhile) auto
  ultimately show "\<not> is_space (hd (strings_TrimSpace s))" by simp
qed

lemma TrimSpace_idem [simp]: "strings_TrimSpace (strings_TrimSpace s) = strings_TrimSpace s"
  using TrimSpace_ends [of s] by (intro TrimSpace_trimmed) auto

lemma lower_char_value:
  "(of_char (lower_char c) :: nat) =
     (if 65 \<le> (of_char c :: nat) \<and> (of_char c :: nat) \<le> 90 then of_char c + 32 else of_char c)"
proof (cases "65 \<le> (of_char c :: nat) \<and> (of_char c :: nat) \<le> 90")
  case True
  then have "of_char (char_of (of_char c + 32 :: nat)) = (of_char c + 32 :: nat)"
    by (simp add: of_char_of)
  with True show ?thesis by (simp add: lower_char_def)
next
  case False
  then have "lower_char c = c" by (auto simp: lower_char_def)
  with False show ?thesis by simp
qed

lemma is_space_lower [simp]: "is_space (lower_char c) = is_space c"
  unfolding is_space_def lower_char_value by auto

lemma TrimSpace_ToLower: "strings_TrimSpace (strings_ToLower s) = strings_ToLower (strings_TrimSpace s)"
proof -
  have "is_space \<circ> lower_char = is_space" by (rule ext) simp
  then show ?thesis
    by (simp add: strings_TrimSpace_def strings_ToLower_def dropWhile_map rev_map)
qed

section \<open>What validation guarantees\<close>

lemma dedup_groups_set: "set (dedup_groups seen gs) = set gs - insert [] seen"
  by (induction seen gs rule: dedup_groups.induct) auto

lemma dedup_groups_distinct: "distinct (dedup_groups seen gs)"
  by (induction seen gs rule: dedup_groups.induct) (auto simp: dedup_groups_set)

lemma dedup_groups_length: "length (dedup_groups seen gs) \<le> length gs"
  by (induction seen gs rule: dedup_groups.induct) (auto intro: le_SucI)

lemma dedup_groups_id:
  "distinct gs \<Longrightarrow> [] \<notin> set gs \<Longrightarrow> set gs \<inter> seen = {} \<Longrightarrow> dedup_groups seen gs = gs"
  by (induction seen gs rule: dedup_groups.induct) auto

lemma filterGroupsByPolicy_filter: "filterGroupsByPolicy cfg gs = filter (group_allowed cfg) gs"
  by (auto simp: filterGroupsByPolicy_def group_allowed_def)

lemma sanitizeGroups_take:
  "sanitizeGroups gs =
     filter (\<lambda>g. validateGroupName g = None) (map strings_TrimSpace (take maxGroupsPerUser gs))"
  by (auto simp: sanitizeGroups_def Let_def)

lemma validateGroupName_None:
  "validateGroupName g = None \<longleftrightarrow>
     g \<noteq> [] \<and> length g \<le> maxGroupNameLength \<and> list_all group_char g"
  by (simp add: validateGroupName_def)

lemma group_char_lower: "group_char c \<Longrightarrow> group_char (lower_char c)"
proof -
  assume c: "group_char c"
  show ?thesis
  proof (cases "65 \<le> (of_char c :: nat) \<and> (of_char c :: nat) \<le> 90")
    case True
    then show ?thesis
      using lower_char_value [of c] by (simp add: group_char_def)
  next
    case False
    then have "lower_char c = c" by (auto simp: lower_char_def)
    with c show ?thesis by simp
  qed
qed

lemma validate_lower:
  "validateGroupName g = None \<Longrightarrow> validateGroupName (strings_ToLower g) = None"
  unfolding validateGroupName_None
  by (auto simp: strings_ToLower_def list_all_iff group_char_lower)

lemma validated_set:
  "set (ValidateAndNormalizeGroups cfg gs) =
     {g. group_allowed cfg g \<and> (\<exists>h \<in> set (take maxGroupsPerUser gs).
        validateGroupName (strings_TrimSpace h) = None \<and> g = strings_ToLower (strings_TrimSpace h))}"
proof -
  have "[] \<notin> set (normalizeGroups (sanitizeGroups gs))"
    by (auto simp: normalizeGroups_def sanitizeGroups_take validateGroupName_None strings_ToLower_def)
  then show ?thesis
    by (auto simp: ValidateAndNormalizeGroups_def filterGroupsByPolicy_filter
        normalizeAndValidateGroups_def dedup_groups_set normalizeGroups_def sanitizeGroups_take
        image_iff Bex_def)
qed

lemma validated_distinct: "distinct (ValidateAndNormalizeGroups cfg gs)"
  by (simp add: ValidateAndNormalizeGroups_def filterGroupsByPolicy_filter
      normalizeAndValidateGroups_def dedup_groups_distinct)

lemma validated_length: "length (ValidateAndNormalizeGroups cfg gs) \<le> min maxGroupsPerUser (length gs)"
proof -
  have "length (ValidateAndNormalizeGroups cfg gs) \<le> length (normalizeGroups (sanitizeGroups gs))"
    unfolding ValidateAndNormalizeGroups_def filterGroupsByPolicy_filter
      normalizeAndValidateGroups_def
    using length_filter_le dedup_groups_length order_trans by blast
  also have "\<dots> \<le> length (take maxGroupsPerUser gs)"
    unfolding normalizeGroups_def sanitizeGroups_take
    using length_filter_le [of _ "map strings_TrimSpace (take maxGroupsPerUser gs)"] by simp
  finally show ?thesis by simp
qed

text \<open>A validated group is in normal form.\<close>

lemma validated_member:
  assumes "g \<in> set (ValidateAndNormalizeGroups cfg gs)"
  shows "validateGroupName g = None" and "strings_ToLower g = g" and "strings_TrimSpace g = g"
    and "group_allowed cfg g"
  using assms unfolding validated_set
  by (auto simp: validate_lower TrimSpace_ToLower)

lemma validated_stable:
  "ValidateAndNormalizeGroups cfg (ValidateAndNormalizeGroups cfg gs) =
     ValidateAndNormalizeGroups cfg gs"
proof -
  let ?v = "ValidateAndNormalizeGroups cfg gs"
  note mem = validated_member [of _ cfg gs]
  have trim: "map strings_TrimSpace ?v = ?v"
    by (intro map_idI) (rule mem(3))
  have short: "take maxGroupsPerUser ?v = ?v"
    using validated_length [of cfg gs] by simp
  have sane: "sanitizeGroups ?v = ?v"
    unfolding sanitizeGroups_take short trim using mem(1) by (intro filter_True) blast
  have norm: "normalizeGroups ?v = ?v"
    unfolding normalizeGroups_def by (intro map_idI) (simp add: mem(2,3))
  have "[] \<notin> set ?v" using mem(1) by (auto simp: validateGroupName_None)
  then have "normalizeAndValidateGroups ?v = ?v"
    unfolding normalizeAndValidateGroups_def norm by (intro dedup_groups_id validated_distinct) auto
  then have "ValidateAndNormalizeGroups cfg ?v = filter (group_allowed cfg) ?v"
    unfolding ValidateAndNormalizeGroups_def [of cfg ?v] sane filterGroupsByPolicy_filter by simp
  also have "\<dots> = ?v" using mem(4) by (intro filter_True) blast
  finally show ?thesis .
qed

text \<open>A prefix with a capital letter is never the prefix of a group in lower case.\<close>

lemma prefix_lower:
  assumes "strings_HasPrefix g p" and "strings_ToLower g = g"
  shows "strings_ToLower p = p"
proof -
  from assms(1) have "p = take (length p) g" by (simp add: strings_HasPrefix_def)
  then show ?thesis using assms(2) unfolding strings_ToLower_def by (metis take_map)
qed

end
