(* ===== verification/Ui_Session.thy ===== *)
theory Ui_Session
  imports Ui_Http Base64 Json_Write Group_Validation Sha256
begin

text \<open>
  Sessions of the UI server, \<open>src/src/ui/auth.go\<close>: the sealed cookie, the login state, and the
  middleware that lets a request to a protected path through only with a valid session.

  AES-256-GCM of the standard library is the parameter \<open>aead\<close>; \<open>aead_law\<close> is its documented
  behaviour: what was sealed opens to the plain text, and nothing else opens (the tag is a function
  of key, nonce and plain text, and its forgery is left out of the model). Random bytes are an
  argument, \<open>None\<close> when the generator fails.
\<close>

record aead =
  aeSeal :: "string \<Rightarrow> string \<Rightarrow> string \<Rightarrow> string"
  aeOpen :: "string \<Rightarrow> string \<Rightarrow> string \<Rightarrow> string option"

definition aead_law :: "aead \<Rightarrow> bool" where
  "aead_law A \<longleftrightarrow> (\<forall>k n c p. aeOpen A k n c = Some p \<longleftrightarrow> c = aeSeal A k n p)"

definition sessionCookieName :: string where
  "sessionCookieName = ''renovate_session''"

definition stateCookieName :: string where
  "stateCookieName = ''oauth_state''"

definition authCompletedCookie :: string where
  "authCompletedCookie = ''auth_completed''"

definition sessionDuration :: time where
  "sessionDuration = 24 * 3600 * second"

record base_auth =
  baAead :: aead
  baEncryptionKey :: string

definition newEncryptionKey :: "string option \<Rightarrow> string \<Rightarrow> go_error + string" where
  "newEncryptionKey random sessionSecret =
     (if sessionSecret \<noteq> []
      then Inr (map (char_of \<circ> unat) (sha256_Sum256 (string_bytes sessionSecret)))
      else case random of
             None \<Rightarrow> Inl (ErrWrap ''failed to generate encryption key'' (ErrOther ''rand''))
           | Some key \<Rightarrow> Inr key)"

section \<open>The sealed session\<close>

definition session_json :: "session_data \<Rightarrow> json" where
  "session_json s = JObj
     ([(''email'', JStr (sdEmail s)), (''name'', JStr (sdName s)), (''exp'', JNum (show_int (sdExpiry s)))] @
      (if sdAccessToken s = [] then [] else [(''at'', JStr (sdAccessToken s))]) @
      [(''groups'', JArr (map JStr (sdGroups s)))])"

definition zero_session :: session_data where
  "zero_session = \<lparr>sdEmail = [], sdName = [], sdExpiry = 0, sdAccessToken = [], sdGroups = []\<rparr>"

definition dec_session :: "session_data decoder" where
  "dec_session = dec_struct
     [(''email'', dec_field dec_string sdEmail sdEmail_update),
      (''name'', dec_field dec_string sdName sdName_update),
      (''exp'', dec_field dec_int sdExpiry sdExpiry_update),
      (''at'', dec_field dec_string sdAccessToken sdAccessToken_update),
      (''groups'', dec_field (dec_slice [] dec_string) sdGroups sdGroups_update)]"

definition nonce_size :: nat where
  "nonce_size = 12"

definition encryptSession :: "base_auth \<Rightarrow> string option \<Rightarrow> session_data \<Rightarrow> go_error + string" where
  "encryptSession b random session =
     (let plaintext = json_marshal (session_json session)
      in case random of
           None \<Rightarrow> Inl (ErrOther ''rand'')
         | Some nonce \<Rightarrow>
             Inr (base64_encode (nonce @ aeSeal (baAead b) (baEncryptionKey b) nonce plaintext)))"

definition decryptSession :: "base_auth \<Rightarrow> string \<Rightarrow> go_error + session_data" where
  "decryptSession b encrypted =
     (case base64_decode encrypted of
        None \<Rightarrow> Inl (ErrOther ''illegal base64 data'')
      | Some data \<Rightarrow>
          if length data < nonce_size then Inl (ErrMsg ''ciphertext too short'')
          else case aeOpen (baAead b) (baEncryptionKey b) (take nonce_size data) (drop nonce_size data) of
                 None \<Rightarrow> Inl (ErrOther ''cipher: message authentication failed'')
               | Some plaintext \<Rightarrow>
                   (case unmarshal_into dec_session zero_session plaintext of
                      None \<Rightarrow> Inl (ErrOther ''invalid session'')
                    | Some session \<Rightarrow> Inr session))"

definition getSession :: "'w env \<Rightarrow> base_auth \<Rightarrow> ui_request \<Rightarrow> 'w sys \<Rightarrow> go_error + session_data" where
  "getSession E b r s =
     (case uqCookie r sessionCookieName of
        None \<Rightarrow> Inl (ErrOther ''http: named cookie not present'')
      | Some value \<Rightarrow>
          (case decryptSession b value of
             Inl err \<Rightarrow> Inl err
           | Inr session \<Rightarrow>
               if unix_seconds (eNow E (syWorld s)) > sdExpiry session
               then Inl (ErrMsg ''session expired'') else Inr session))"

section \<open>The middleware\<close>

definition isPublicPath :: "string \<Rightarrow> bool" where
  "isPublicPath path \<longleftrightarrow>
     path = ''/health'' \<or> path = ''/api/v1/auth/status'' \<or>
     strings_HasPrefix path ''/auth/'' \<or>
     strings_HasPrefix path ''/js/'' \<or> strings_HasPrefix path ''/css/'' \<or>
     strings_HasPrefix path ''/assets/'' \<or> path = ''/favicon.ico''"

definition expired_cookie :: "string \<Rightarrow> cookie" where
  "expired_cookie name =
     \<lparr>ckName = name, ckValue = [], ckMaxAge = -1, ckSecure = False, ckSameSiteLax = False\<rparr>"

definition loop_message :: string where
  "loop_message = ''Authentication loop detected: login succeeded but the session cookie could not be verified. This usually means GITHUB_SESSION_SECRET or OIDC_SESSION_SECRET is not set, or differs between replicas.''"

definition reject_unauthenticated :: "ui_request \<Rightarrow> ui_response" where
  "reject_unauthenticated r =
     (if uqCookie r authCompletedCookie \<noteq> None
      then with_cookies [expired_cookie authCompletedCookie] (reply 500 (TextBody loop_message))
      else if strings_HasPrefix (uqPath r) ''/api/'' then reply 401 UnauthorizedBody
      else redirect ''/auth/login'')"

text \<open>
  The session of the request is stored in its context; a marker cookie that is still there is
  cleared before the next handler runs.
\<close>

definition auth_middleware :: "'w env \<Rightarrow> base_auth \<Rightarrow> 'w ui_handler \<Rightarrow> 'w ui_handler" where
  "auth_middleware E b next_handler r s =
     (if isPublicPath (uqPath r) then next_handler r s
      else case getSession E b r s of
             Inl err \<Rightarrow> (Returns (reject_unauthenticated r), s)
           | Inr session \<Rightarrow>
               (let marker = (if uqCookie r authCompletedCookie \<noteq> None
                              then [expired_cookie authCompletedCookie] else [])
                in case next_handler (r\<lparr>uqSession := Some session\<rparr>) s of
                     (Panics m, s) \<Rightarrow> (Panics m, s)
                   | (Returns p, s) \<Rightarrow> (Returns (with_cookies marker p), s)))"

definition handleAuthStatus :: "'w env \<Rightarrow> base_auth \<Rightarrow> ui_request \<Rightarrow> 'w sys \<Rightarrow> ui_response" where
  "handleAuthStatus E b r s =
     reply 200 (AuthStatusBody (case getSession E b r s of
        Inl err \<Rightarrow> None | Inr session \<Rightarrow> Some (sdEmail session, sdName session)))"

section \<open>Login\<close>

definition isHTTPS :: "ui_request \<Rightarrow> bool" where
  "isHTTPS r \<longleftrightarrow> uqTLS r \<or> uqHeader r ''X-Forwarded-Proto'' = ''https''"

definition buildCompleteURL ::
    "'w env \<Rightarrow> base_auth \<Rightarrow> string option \<Rightarrow> string \<Rightarrow> string \<Rightarrow> (session_data \<Rightarrow> session_data) \<Rightarrow>
     'w sys \<Rightarrow> go_error + string" where
  "buildCompleteURL E b random email name opt s =
     (let session = opt \<lparr>sdEmail = email, sdName = name,
            sdExpiry = unix_seconds (eNow E (syWorld s) + sessionDuration),
            sdAccessToken = [], sdGroups = []\<rparr>
      in case encryptSession b random session of
           Inl err \<Rightarrow> Inl err
         | Inr encrypted \<Rightarrow> Inr (''/auth/complete?s='' @ query_escape encrypted))"

definition redirect_page :: "string \<Rightarrow> string" where
  "redirect_page target =
     ''<!DOCTYPE html><html><head><meta http-equiv='' @ [CHR 0x22] @ ''refresh'' @ [CHR 0x22] @
     '' content='' @ [CHR 0x22] @ ''0;url='' @ target @ [CHR 0x22] @
     ''></head><body>Redirecting...</body></html>''"

definition writeCallbackRedirect :: "string \<Rightarrow> ui_response" where
  "writeCallbackRedirect target = reply 200 (HtmlBody (redirect_page target))"

definition session_cookies :: "ui_request \<Rightarrow> string \<Rightarrow> cookie list" where
  "session_cookies r sessionValue =
     [\<lparr>ckName = sessionCookieName, ckValue = sessionValue, ckMaxAge = sessionDuration div second,
       ckSecure = isHTTPS r, ckSameSiteLax = True\<rparr>,
      \<lparr>ckName = authCompletedCookie, ckValue = ''1'', ckMaxAge = 60,
       ckSecure = isHTTPS r, ckSameSiteLax = True\<rparr>]"

definition handleComplete :: "base_auth \<Rightarrow> ui_request \<Rightarrow> ui_response" where
  "handleComplete b r =
     (let sessionValue = uqQuery r ''s''
      in if sessionValue = [] then http_error ''missing session parameter'' 400
         else case decryptSession b sessionValue of
                Inl err \<Rightarrow> http_error ''invalid session token'' 400
              | Inr session \<Rightarrow>
                  with_cookies (session_cookies r sessionValue) (writeCallbackRedirect ''/''))"

definition clearSessionCookie :: "ui_response \<Rightarrow> ui_response" where
  "clearSessionCookie p = with_cookies [expired_cookie sessionCookieName] p"

definition generateRandomString :: "string option \<Rightarrow> go_error + string" where
  "generateRandomString random =
     (case random of None \<Rightarrow> Inl (ErrOther ''rand'') | Some bytes \<Rightarrow> Inr (base64_encode bytes))"

text \<open>The state that goes to the provider, with the cookie that remembers it.\<close>

definition setStateCookie :: "string option \<Rightarrow> ui_request \<Rightarrow> go_error + string \<times> cookie" where
  "setStateCookie random r =
     (case generateRandomString random of
        Inl err \<Rightarrow> Inl err
      | Inr state \<Rightarrow>
          Inr (state, \<lparr>ckName = stateCookieName, ckValue = state, ckMaxAge = 300,
                       ckSecure = isHTTPS r, ckSameSiteLax = True\<rparr>))"

definition validateStateCookie :: "ui_request \<Rightarrow> go_error option" where
  "validateStateCookie r =
     (case uqCookie r stateCookieName of
        None \<Rightarrow> Some (ErrMsg ''missing state cookie'')
      | Some value \<Rightarrow>
          if uqQuery r ''state'' \<noteq> value then Some (ErrMsg ''invalid state'') else None)"

definition clearStateCookie :: "ui_response \<Rightarrow> ui_response" where
  "clearStateCookie p = with_cookies [expired_cookie stateCookieName] p"

section \<open>Sessions travel unchanged\<close>

text \<open>A session whose strings need no escape, as validated groups do not, and a date after 1970.\<close>

definition safe_session :: "session_data \<Rightarrow> bool" where
  "safe_session s \<longleftrightarrow>
     list_all safe_char (sdEmail s) \<and> list_all safe_char (sdName s) \<and>
     list_all safe_char (sdAccessToken s) \<and> list_all (list_all safe_char) (sdGroups s) \<and>
     0 \<le> sdExpiry s \<and> sdExpiry s < 2 ^ 63"

lemma session_field_names [simp]:
  "fold_name ''email'' = ''email''" "fold_name ''name'' = ''name''" "fold_name ''exp'' = ''exp''"
  "fold_name ''at'' = ''at''" "fold_name ''groups'' = ''groups''"
  by (simp_all add: lower_char_def)

lemma session_json_safe:
  assumes "safe_session s"
  shows "safe_json (session_json s)"
proof -
  have "show_int (sdExpiry s) = show_nat (nat (sdExpiry s))"
    using assms by (simp add: safe_session_def show_int_def)
  moreover have "list_all safe_json (map JStr (sdGroups s))"
    using assms by (simp add: safe_session_def list_all_iff)
  ultimately show ?thesis
    using assms unfolding session_json_def safe_session_def
    by (cases "sdAccessToken s = []")
      (simp_all only: safe_json.simps list_all_append list_all_Cons_Nil prod.case
        num_literal_show_nat simp_thms if_True if_False,
       simp_all add: safe_char_def plain_char_def html_char_def)
qed

lemma session_json_depth: "json_depth (session_json s) \<le> 10000"
proof -
  have "foldr (\<lambda>v d. max (json_depth v) d) (map JStr gs) 0 = 0" for gs
    by (induction gs) simp_all
  then show ?thesis by (simp add: session_json_def)
qed

lemma dec_strings: "dec_all [] dec_string (map JStr gs) = Some gs"
  by (induction gs) (simp_all add: dec_string_def)

lemma dec_session_json:
  assumes "safe_session s"
  shows "dec_session (session_json s) zero_session = Some s"
proof -
  have "dec_int (JNum (show_int (sdExpiry s))) x = Some (sdExpiry s)" for x
    using assms dec_int_show_nat [of "nat (sdExpiry s)"]
    by (simp add: safe_session_def show_int_def)
  then show ?thesis
    by (simp add: dec_session_def session_json_def dec_struct_def dec_field_def dec_string_def
        dec_slice_def dec_strings zero_session_def)
qed

lemma decrypt_encrypt:
  assumes "aead_law (baAead b)" and "safe_session session" and "length nonce = nonce_size"
  shows "\<exists>v. encryptSession b (Some nonce) session = Inr v \<and> decryptSession b v = Inr session \<and> v \<noteq> []"
proof -
  let ?c = "aeSeal (baAead b) (baEncryptionKey b) nonce (json_marshal (session_json session))"
  have "aeOpen (baAead b) (baEncryptionKey b) nonce ?c = Some (json_marshal (session_json session))"
    using assms(1) by (simp add: aead_law_def)
  moreover have "unmarshal_into dec_session zero_session (json_marshal (session_json session)) =
      Some session"
    by (simp add: unmarshal_into_def unmarshal_marshal session_json_safe [OF assms(2)]
        session_json_depth dec_session_json [OF assms(2)])
  moreover have "nonce \<noteq> []" using assms(3) by (auto simp: nonce_size_def)
  ultimately show ?thesis
    using assms(3) by (simp add: encryptSession_def decryptSession_def base64_decode_encode)
qed

text \<open>
  Nothing else is a session: what decrypts was sealed under the key, and decodes to the session.
\<close>

lemma decrypt_sealed:
  assumes "aead_law (baAead b)" and "decryptSession b v = Inr session"
  shows "\<exists>nonce plaintext. base64_decode v =
      Some (nonce @ aeSeal (baAead b) (baEncryptionKey b) nonce plaintext) \<and>
    length nonce = nonce_size \<and> unmarshal_into dec_session zero_session plaintext = Some session"
proof -
  obtain data where d: "base64_decode v = Some data" and len: "\<not> length data < nonce_size"
    using assms(2) by (auto simp: decryptSession_def split: option.splits if_splits)
  obtain p where p: "aeOpen (baAead b) (baEncryptionKey b) (take nonce_size data)
      (drop nonce_size data) = Some p" and u: "unmarshal_into dec_session zero_session p = Some session"
    using assms(2) d len by (auto simp: decryptSession_def split: option.splits)
  from p assms(1) have "drop nonce_size data =
      aeSeal (baAead b) (baEncryptionKey b) (take nonce_size data) p"
    by (simp add: aead_law_def)
  then have "data = take nonce_size data @
      aeSeal (baAead b) (baEncryptionKey b) (take nonce_size data) p"
    by (metis append_take_drop_id)
  with d u len show ?thesis
    by (intro exI [of _ "take nonce_size data"] exI [of _ p]) (auto simp del: take_append)
qed

section \<open>The middleware's promise\<close>

lemma middleware_public:
  "isPublicPath (uqPath r) \<Longrightarrow> auth_middleware E b h r s = h r s"
  by (simp add: auth_middleware_def)

lemma middleware_refused:
  "\<not> isPublicPath (uqPath r) \<Longrightarrow> getSession E b r s = Inl e \<Longrightarrow>
   auth_middleware E b h r s = (Returns (reject_unauthenticated r), s)"
  by (simp add: auth_middleware_def)

lemma middleware_admitted:
  "\<not> isPublicPath (uqPath r) \<Longrightarrow> getSession E b r s = Inr session \<Longrightarrow>
   h (r\<lparr>uqSession := Some session\<rparr>) s = (x, s') \<Longrightarrow> \<exists>y. auth_middleware E b h r s = (y, s')"
  by (cases x) (simp_all add: auth_middleware_def Let_def)

lemma getSession_valid:
  assumes "getSession E b r s = Inr session"
  shows "\<exists>v. uqCookie r sessionCookieName = Some v \<and> decryptSession b v = Inr session"
    and "unix_seconds (eNow E (syWorld s)) \<le> sdExpiry session"
  using assms by (auto simp: getSession_def split: option.splits sum.splits if_splits)

end
