(* ===== verification/Ui_Login.thy ===== *)
theory Ui_Login
  imports Ui_Session
begin

text \<open>
  The two providers of a login, \<open>src/src/ui/oidc.go\<close> and \<open>src/src/ui/github_oauth.go\<close>: each takes
  the user to the provider and back, and ends with the redirect that carries the sealed session.
  What the OAuth and OpenID libraries do is the parameter \<open>oauth_lib\<close>: discovery of the provider
  (the logout endpoint it announces), the compiler of regular expressions, the login URL, the
  exchange of a code and the verification of an ID token (the claims it carries, as JSON text).
\<close>

section \<open>OpenID Connect\<close>

record oauth_token =
  otAccessToken :: string
  otIdToken :: "string option"

record 'w oauth_lib =
  olNewProvider :: "string \<Rightarrow> bool \<Rightarrow> 'w \<Rightarrow> go_error + string option"
  olCompile :: "string \<Rightarrow> go_error + (string \<Rightarrow> bool)"
  olAuthCodeURL :: "string \<Rightarrow> string list \<Rightarrow> string \<Rightarrow> string"
  olExchange :: "string \<Rightarrow> 'w \<Rightarrow> go_error + oauth_token"
  olVerify :: "string \<Rightarrow> 'w \<Rightarrow> go_error + string"

record oidc_config =
  ocIssuerURL :: string
  ocClientID :: string
  ocClientSecret :: string
  ocRedirectURL :: string
  ocSessionSecret :: string
  ocInsecureSkipVerify :: bool
  ocLogoutURL :: string
  ocAllowedGroupPrefix :: string
  ocAllowedGroupPattern :: string
  ocAdditionalScopes :: "string list"

record oidc_auth =
  oaBase :: base_auth
  oaClientID :: string
  oaScopes :: "string list"
  oaEndSessionURL :: string
  oaPostLogoutRedirect :: string
  oaGroupFilter :: group_filter_config

fun add_scopes :: "string set \<Rightarrow> string list \<Rightarrow> string list" where
  "add_scopes seen [] = []"
| "add_scopes seen (s # ss) =
     (if s \<in> seen then add_scopes seen ss else s # add_scopes (insert s seen) ss)"

definition base_scopes :: "string list" where
  "base_scopes = [''openid'', ''email'', ''profile'']"

definition buildOIDCScopes :: "string list \<Rightarrow> string list" where
  "buildOIDCScopes additionalScopes = base_scopes @ add_scopes (set base_scopes) additionalScopes"

text \<open>\<open>strings.Index\<close>.\<close>

fun strings_Index :: "string \<Rightarrow> string \<Rightarrow> nat option" where
  "strings_Index s sub =
     (if strings_HasPrefix s sub then Some 0
      else case s of [] \<Rightarrow> None | _ # cs \<Rightarrow> map_option Suc (strings_Index cs sub))"

definition post_logout_redirect :: "string \<Rightarrow> string" where
  "post_logout_redirect url =
     (case strings_Index url ''/auth/'' of
        Some idx \<Rightarrow> if idx > 0 then take idx url else url
      | None \<Rightarrow> url)"

definition NewOIDCAuth ::
    "'w oauth_lib \<Rightarrow> aead \<Rightarrow> string option \<Rightarrow> oidc_config \<Rightarrow> 'w \<Rightarrow> go_error + oidc_auth" where
  "NewOIDCAuth L A random cfg w =
     (case olNewProvider L (ocIssuerURL cfg) (ocInsecureSkipVerify cfg) w of
        Inl err \<Rightarrow> Inl (ErrWrap ''failed to create OIDC provider'' err)
      | Inr announced \<Rightarrow>
          let endSessionURL = (if ocLogoutURL cfg = []
                               then (case announced of None \<Rightarrow> [] | Some url \<Rightarrow> url)
                               else ocLogoutURL cfg)
          in case newEncryptionKey random (ocSessionSecret cfg) of
               Inl err \<Rightarrow> Inl err
             | Inr key \<Rightarrow>
                 (case (if ocAllowedGroupPattern cfg = [] then Inr None
                        else case olCompile L (ocAllowedGroupPattern cfg) of
                               Inl err \<Rightarrow> Inl (ErrWrap ''invalid group pattern regex'' err)
                             | Inr pattern \<Rightarrow> Inr (Some pattern)) of
                    Inl err \<Rightarrow> Inl err
                  | Inr pattern \<Rightarrow>
                      Inr \<lparr>oaBase = \<lparr>baAead = A, baEncryptionKey = key\<rparr>,
                           oaClientID = ocClientID cfg,
                           oaScopes = buildOIDCScopes (ocAdditionalScopes cfg),
                           oaEndSessionURL = endSessionURL,
                           oaPostLogoutRedirect = post_logout_redirect (ocRedirectURL cfg),
                           oaGroupFilter = \<lparr>gfAllowedPrefix = ocAllowedGroupPrefix cfg,
                                            gfAllowedPattern = pattern\<rparr>\<rparr>))"

text \<open>Both providers start a login the same way.\<close>

definition start_login :: "'w oauth_lib \<Rightarrow> string \<Rightarrow> string list \<Rightarrow> string option \<Rightarrow> ui_request \<Rightarrow> ui_response"
where
  "start_login L clientID scopes random r =
     (case setStateCookie random r of
        Inl err \<Rightarrow> http_error ''internal error'' 500
      | Inr (state, c) \<Rightarrow> with_cookies [c] (redirect (olAuthCodeURL L clientID scopes state)))"

definition oidc_HandleLogin :: "'w oauth_lib \<Rightarrow> oidc_auth \<Rightarrow> string option \<Rightarrow> ui_request \<Rightarrow> ui_response"
where
  "oidc_HandleLogin L o_auth random r = start_login L (oaClientID o_auth) (oaScopes o_auth) random r"

record oidc_claims =
  clEmail :: string
  clName :: string
  clGroups :: "string list"

definition dec_claims :: "oidc_claims decoder" where
  "dec_claims = dec_struct
     [(''email'', dec_field dec_string clEmail clEmail_update),
      (''name'', dec_field dec_string clName clName_update),
      (''groups'', dec_field (dec_slice [] dec_string) clGroups clGroups_update)]"

definition zero_claims :: oidc_claims where
  "zero_claims = \<lparr>clEmail = [], clName = [], clGroups = []\<rparr>"

text \<open>The redirect to \<open>/auth/complete\<close>, after the state cookie has been cleared.\<close>

definition finish_login :: "go_error + string \<Rightarrow> ui_response" where
  "finish_login completeURL =
     (case completeURL of Inl err \<Rightarrow> http_error ''internal error'' 500 | Inr url \<Rightarrow> redirect url)"

definition oidc_HandleCallback ::
    "'w env \<Rightarrow> 'w oauth_lib \<Rightarrow> oidc_auth \<Rightarrow> string option \<Rightarrow> ui_request \<Rightarrow> 'w sys \<Rightarrow> ui_response" where
  "oidc_HandleCallback E L o_auth random r s =
     (case validateStateCookie r of
        Some err \<Rightarrow> http_error (error_text err) 400
      | None \<Rightarrow> clearStateCookie
          (case olExchange L (uqQuery r ''code'') (syWorld s) of
             Inl err \<Rightarrow> http_error ''failed to exchange token'' 500
           | Inr oauth2Token \<Rightarrow>
               (case otIdToken oauth2Token of
                  None \<Rightarrow> http_error ''no id_token in response'' 500
                | Some rawIDToken \<Rightarrow>
                    (case olVerify L rawIDToken (syWorld s) of
                       Inl err \<Rightarrow> http_error ''failed to verify token'' 500
                     | Inr payload \<Rightarrow>
                         (case unmarshal_into dec_claims zero_claims payload of
                            None \<Rightarrow> http_error ''failed to parse claims'' 500
                          | Some claims \<Rightarrow>
                              let validatedGroups =
                                    ValidateAndNormalizeGroups (oaGroupFilter o_auth) (clGroups claims)
                              in finish_login (buildCompleteURL E (oaBase o_auth) random
                                   (clEmail claims) (clName claims)
                                   (\<lambda>x. x\<lparr>sdGroups := validatedGroups\<rparr>) s))))))"

definition oidc_HandleLogout :: "oidc_auth \<Rightarrow> ui_request \<Rightarrow> ui_response" where
  "oidc_HandleLogout o_auth r = clearSessionCookie
     (if oaEndSessionURL o_auth \<noteq> [] then
        redirect (oaEndSessionURL o_auth @ ''?client_id='' @ oaClientID o_auth @
          (if oaPostLogoutRedirect o_auth \<noteq> []
           then ''&post_logout_redirect_uri='' @ oaPostLogoutRedirect o_auth else []))
      else redirect ''/auth/logged-out'')"

section \<open>GitHub\<close>

record github_config =
  gcClientID :: string
  gcClientSecret :: string
  gcRedirectURL :: string
  gcSessionSecret :: string

record github_oauth =
  goBase :: base_auth
  goClientID :: string
  goClientSecret :: string
  goScopes :: "string list"

definition NewGitHubOAuth :: "aead \<Rightarrow> string option \<Rightarrow> github_config \<Rightarrow> go_error + github_oauth" where
  "NewGitHubOAuth A random cfg =
     (case newEncryptionKey random (gcSessionSecret cfg) of
        Inl err \<Rightarrow> Inl err
      | Inr key \<Rightarrow>
          Inr \<lparr>goBase = \<lparr>baAead = A, baEncryptionKey = key\<rparr>, goClientID = gcClientID cfg,
               goClientSecret = gcClientSecret cfg, goScopes = [''read:user'', ''user:email'']\<rparr>)"

definition github_HandleLogin :: "'w oauth_lib \<Rightarrow> github_oauth \<Rightarrow> string option \<Rightarrow> ui_request \<Rightarrow> ui_response"
where
  "github_HandleLogin L g random r = start_login L (goClientID g) (goScopes g) random r"

record github_user =
  guLogin :: string
  guName :: string
  guEmail :: string

definition dec_github_user :: "github_user decoder" where
  "dec_github_user = dec_struct
     [(''login'', dec_field dec_string guLogin guLogin_update),
      (''name'', dec_field dec_string guName guName_update),
      (''email'', dec_field dec_string guEmail guEmail_update)]"

record github_email =
  geEmail :: string
  gePrimary :: bool
  geVerified :: bool

definition dec_github_email :: "github_email decoder" where
  "dec_github_email = dec_struct
     [(''email'', dec_field dec_string geEmail geEmail_update),
      (''primary'', dec_field dec_bool gePrimary gePrimary_update),
      (''verified'', dec_field dec_bool geVerified geVerified_update)]"

definition zero_github_email :: github_email where
  "zero_github_email = \<lparr>geEmail = [], gePrimary = False, geVerified = False\<rparr>"

definition github_request :: "string \<Rightarrow> string \<Rightarrow> http_call" where
  "github_request url accessToken = http_get url
     [(''Authorization'', ''Bearer '' @ accessToken), (''Accept'', ''application/vnd.github+json'')]"

definition primary_email :: "github_email list \<Rightarrow> go_error + string" where
  "primary_email emails =
     (case find (\<lambda>e. gePrimary e \<and> geVerified e) emails of
        Some e \<Rightarrow> Inr (geEmail e)
      | None \<Rightarrow>
          (case find geVerified emails of
             Some e \<Rightarrow> Inr (geEmail e)
           | None \<Rightarrow> Inl (ErrMsg ''no verified email found'')))"

definition fetchPrimaryEmail :: "'w env \<Rightarrow> string \<Rightarrow> 'w sys \<Rightarrow> (go_error + string) \<times> 'w sys" where
  "fetchPrimaryEmail E accessToken s =
     (case http_do E (github_request ''https://api.github.com/user/emails'' accessToken) s of
        (Inl err, s) \<Rightarrow> (Inl err, s)
      | (Inr resp, s) \<Rightarrow>
          (if haStatus resp \<noteq> 200
           then Inl (ErrMsg (''GitHub emails API returned status '' @ show_nat (haStatus resp)))
           else case decode_body (dec_slice zero_github_email dec_github_email) [] (haBody resp) of
                  None \<Rightarrow> Inl (ErrOther ''json'')
                | Some emails \<Rightarrow> primary_email emails, s))"

definition fetchGitHubUser :: "'w env \<Rightarrow> string \<Rightarrow> 'w sys \<Rightarrow> (go_error + string \<times> string) \<times> 'w sys" where
  "fetchGitHubUser E accessToken s =
     (case http_do E (github_request ''https://api.github.com/user'' accessToken) s of
        (Inl err, s) \<Rightarrow> (Inl err, s)
      | (Inr resp, s) \<Rightarrow>
          if haStatus resp \<noteq> 200
          then (Inl (ErrMsg (''GitHub API returned status '' @ show_nat (haStatus resp))), s)
          else case decode_body dec_github_user \<lparr>guLogin = [], guName = [], guEmail = []\<rparr> (haBody resp) of
                 None \<Rightarrow> (Inl (ErrOther ''json''), s)
               | Some user \<Rightarrow>
                   let name = (if guName user = [] then guLogin user else guName user);
                       (email, s) = (if guEmail user \<noteq> [] then (guEmail user, s)
                                     else case fetchPrimaryEmail E accessToken s of
                                            (Inl err, s) \<Rightarrow> ([], s)
                                          | (Inr email, s) \<Rightarrow> (email, s));
                       email = (if email = [] then guLogin user @ ''@github'' else email)
                   in (Inr (email, name), s))"

definition github_HandleCallback ::
    "'w env \<Rightarrow> 'w oauth_lib \<Rightarrow> github_oauth \<Rightarrow> string option \<Rightarrow> ui_request \<Rightarrow> 'w sys \<Rightarrow>
     ui_response \<times> 'w sys" where
  "github_HandleCallback E L g random r s =
     (case validateStateCookie r of
        Some err \<Rightarrow> (http_error (error_text err) 400, s)
      | None \<Rightarrow>
          (case olExchange L (uqQuery r ''code'') (syWorld s) of
             Inl err \<Rightarrow> (clearStateCookie (http_error ''failed to exchange token'' 500), s)
           | Inr oauth2Token \<Rightarrow>
               (case fetchGitHubUser E (otAccessToken oauth2Token) s of
                  (Inl err, s) \<Rightarrow> (clearStateCookie (http_error ''failed to fetch user info'' 500), s)
                | (Inr (email, name), s) \<Rightarrow>
                    (clearStateCookie (finish_login (buildCompleteURL E (goBase g) random email name
                       (\<lambda>x. x\<lparr>sdAccessToken := otAccessToken oauth2Token\<rparr>) s)), s))))"

text \<open>\<open>base64.StdEncoding\<close>, which \<open>SetBasicAuth\<close> uses.\<close>

definition std_base64 :: "string \<Rightarrow> string" where
  "std_base64 s = replace_char CHR ''_'' CHR ''/'' (replace_char CHR ''-'' CHR ''+'' (base64_encode s))"

definition revoke_request :: "github_oauth \<Rightarrow> string \<Rightarrow> http_call" where
  "revoke_request g accessToken =
     \<lparr>hcMethod = ''DELETE'',
      hcUrl = ''https://api.github.com/applications/'' @ goClientID g @ ''/token'',
      hcHeaders = [(''Authorization'', ''Basic '' @ std_base64 (goClientID g @ '':'' @ goClientSecret g)),
                   (''Accept'', ''application/vnd.github+json'')],
      hcBody = Some (''{'' @ [CHR 0x22] @ ''access_token'' @ [CHR 0x22] @ '':'' @
        [CHR 0x22] @ accessToken @ [CHR 0x22] @ ''}'')\<rparr>"

definition revokeGitHubToken :: "'w env \<Rightarrow> github_oauth \<Rightarrow> string \<Rightarrow> 'w sys \<Rightarrow> 'w sys" where
  "revokeGitHubToken E g accessToken s = snd (http_do E (revoke_request g accessToken) s)"

definition github_HandleLogout ::
    "'w env \<Rightarrow> github_oauth \<Rightarrow> ui_request \<Rightarrow> 'w sys \<Rightarrow> ui_response \<times> 'w sys" where
  "github_HandleLogout E g r s =
     (let s = (case getSession E (goBase g) r s of
                 Inl err \<Rightarrow> s
               | Inr session \<Rightarrow>
                   if sdAccessToken session \<noteq> [] then revokeGitHubToken E g (sdAccessToken session) s
                   else s)
      in (clearSessionCookie (redirect ''/auth/logged-out''), s))"

section \<open>The provider interface\<close>

datatype auth_provider = OIDC oidc_auth | GitHub github_oauth

fun base_of :: "auth_provider \<Rightarrow> base_auth" where
  "base_of (OIDC o_auth) = oaBase o_auth"
| "base_of (GitHub g) = goBase g"

fun SupportsGroups :: "auth_provider \<Rightarrow> bool" where
  "SupportsGroups (OIDC _) = True"
| "SupportsGroups (GitHub _) = False"

fun HandleLogin :: "'w oauth_lib \<Rightarrow> auth_provider \<Rightarrow> string option \<Rightarrow> ui_request \<Rightarrow> ui_response" where
  "HandleLogin L (OIDC o_auth) random r = oidc_HandleLogin L o_auth random r"
| "HandleLogin L (GitHub g) random r = github_HandleLogin L g random r"

fun HandleCallback ::
    "'w env \<Rightarrow> 'w oauth_lib \<Rightarrow> auth_provider \<Rightarrow> string option \<Rightarrow> ui_request \<Rightarrow> 'w sys \<Rightarrow>
     ui_response \<times> 'w sys" where
  "HandleCallback E L (OIDC o_auth) random r s = (oidc_HandleCallback E L o_auth random r s, s)"
| "HandleCallback E L (GitHub g) random r s = github_HandleCallback E L g random r s"

fun HandleLogout :: "'w env \<Rightarrow> auth_provider \<Rightarrow> ui_request \<Rightarrow> 'w sys \<Rightarrow> ui_response \<times> 'w sys" where
  "HandleLogout E (OIDC o_auth) r s = (oidc_HandleLogout o_auth r, s)"
| "HandleLogout E (GitHub g) r s = github_HandleLogout E g r s"

end
