(* ===== verification/Git_Provider.thy ===== *)
theory Git_Provider
  imports Renovate_Manager Job_Names
begin

text \<open>
  The clients that ask a platform whether a repository is a fork, and the filter that drops
  forks from a discovered list: \<open>src/src/internal/gitprovider\<close>.
\<close>

section \<open>Clients\<close>

datatype git_client =
    GitHubClient string string
  | GitLabClient string string
  | GiteaClient string string
  | BitbucketClient string string

text \<open>
  Every client sends one request, takes only the status 200 for an answer, and decodes a body:
  GitHub and Gitea give the boolean \<open>fork\<close>, GitLab and Bitbucket a member that holds the original.
  That member is a pointer to raw JSON: missing and \<open>null\<close> are nil, any other value counts.
\<close>

definition fork_answer ::
    "string \<Rightarrow> string \<Rightarrow> 'a decoder \<Rightarrow> 'a \<Rightarrow> ('a \<Rightarrow> bool) \<Rightarrow> string \<Rightarrow> http_answer \<Rightarrow> go_error + bool" where
  "fork_answer api name d zero says project resp =
     (if haStatus resp \<noteq> 200
      then Inl (ErrMsg (api @ '' API returned status '' @ show_nat (haStatus resp) @
             '' for '' @ project @ '': '' @ haBody resp))
      else case decode_body d zero (haBody resp) of
             None \<Rightarrow> Inl (ErrWrap (''failed to decode '' @ name @ '' API response for '' @ project)
                       (ErrOther ''json''))
           | Some body \<Rightarrow> Inr (says body))"

definition ask_fork ::
    "'w env \<Rightarrow> http_call \<Rightarrow> (http_answer \<Rightarrow> go_error + bool) \<Rightarrow> 'w sys \<Rightarrow> (go_error + bool) \<times> 'w sys" where
  "ask_fork E req answer s =
     (case http_do E req s of
        (Inl err, s) \<Rightarrow> (Inl err, s)
      | (Inr resp, s) \<Rightarrow> (answer resp, s))"

definition dec_fork :: "bool decoder" where
  "dec_fork = dec_struct [(''fork'', dec_bool)]"

definition dec_raw :: "json decoder" where
  "dec_raw v x = Some v"

definition dec_original :: "string \<Rightarrow> json option decoder" where
  "dec_original member = dec_struct [(member, dec_pointer JNull dec_raw)]"

definition github_IsFork ::
    "'w env \<Rightarrow> string \<Rightarrow> string \<Rightarrow> string \<Rightarrow> 'w sys \<Rightarrow> (go_error + bool) \<times> 'w sys" where
  "github_IsFork E endpoint token project s =
     ask_fork E
       (http_get (endpoint @ ''/repos/'' @ project)
          [(''Authorization'', ''Bearer '' @ token), (''Accept'', ''application/vnd.github+json'')])
       (fork_answer ''github'' ''GitHub'' dec_fork False (\<lambda>b. b) project) s"

definition gitlab_IsFork ::
    "'w env \<Rightarrow> string \<Rightarrow> string \<Rightarrow> string \<Rightarrow> 'w sys \<Rightarrow> (go_error + bool) \<times> 'w sys" where
  "gitlab_IsFork E endpoint token project s =
     ask_fork E
       (http_get (endpoint @ ''/projects/'' @ path_escape project) [(''PRIVATE-TOKEN'', token)])
       (fork_answer ''gitlab'' ''GitLab'' (dec_original ''forked_from_project'') None (\<lambda>x. x \<noteq> None) project) s"

definition gitea_IsFork ::
    "'w env \<Rightarrow> string \<Rightarrow> string \<Rightarrow> string \<Rightarrow> 'w sys \<Rightarrow> (go_error + bool) \<times> 'w sys" where
  "gitea_IsFork E endpoint token project s =
     ask_fork E
       (http_get (endpoint @ ''/api/v1/repos/'' @ project)
          [(''Authorization'', ''token '' @ token), (''Accept'', ''application/json'')])
       (fork_answer ''gitea'' ''gitea'' dec_fork False (\<lambda>b. b) project) s"

definition bitbucket_IsFork ::
    "'w env \<Rightarrow> string \<Rightarrow> string \<Rightarrow> string \<Rightarrow> 'w sys \<Rightarrow> (go_error + bool) \<times> 'w sys" where
  "bitbucket_IsFork E endpoint token project s =
     ask_fork E
       (http_get (endpoint @ ''/2.0/repositories/'' @ project)
          [(''Authorization'', ''Bearer '' @ token), (''Accept'', ''application/json'')])
       (fork_answer ''bitbucket'' ''bitbucket'' (dec_original ''parent'') None (\<lambda>x. x \<noteq> None) project) s"

fun IsFork :: "'w env \<Rightarrow> git_client \<Rightarrow> string \<Rightarrow> 'w sys \<Rightarrow> (go_error + bool) \<times> 'w sys" where
  "IsFork E (GitHubClient endpoint token) project s = github_IsFork E endpoint token project s"
| "IsFork E (GitLabClient endpoint token) project s = gitlab_IsFork E endpoint token project s"
| "IsFork E (GiteaClient endpoint token) project s = gitea_IsFork E endpoint token project s"
| "IsFork E (BitbucketClient endpoint token) project s = bitbucket_IsFork E endpoint token project s"

section \<open>The factory\<close>

definition token_keys :: "string list" where
  "token_keys = [''RENOVATE_TOKEN'', ''GITHUB_COM_TOKEN'', ''GITLAB_TOKEN'', ''BITBUCKET_TOKEN'',
     ''GITEA_TOKEN'', ''FORGEJO_TOKEN'']"

fun first_token :: "(string \<rightharpoonup> string) \<Rightarrow> string list \<Rightarrow> string option" where
  "first_token data [] = None"
| "first_token data (key # keys) =
     (case data key of
        Some val \<Rightarrow> if val \<noteq> [] then Some val else first_token data keys
      | None \<Rightarrow> first_token data keys)"

definition readToken :: "'w env \<Rightarrow> renovate_job \<Rightarrow> 'w sys \<Rightarrow> go_error + string" where
  "readToken E job s =
     (let ref = spSecretRef (rjSpec job)
      in if ref = [] then Inl (ErrMsg ''secretRef must be set when skipForks is enabled'')
         else case eGetSecret E (rjNamespace job) ref (syWorld s) of
                Inl err \<Rightarrow> Inl (ErrWrap (''failed to get secret '' @ ref) err)
              | Inr data \<Rightarrow>
                  (case first_token data token_keys of
                     Some token \<Rightarrow> Inr token
                   | None \<Rightarrow> Inl (ErrMsg (''no platform token found in secret '' @ ref @
                       '' (expected one of: '' @ strings_Join token_keys '', '' @ '')''))))"

definition NewClientFactory :: "'w env \<Rightarrow> renovate_job \<Rightarrow> 'w sys \<Rightarrow> go_error + git_client" where
  "NewClientFactory E job s =
     (case GetPlatformAndEndpoint (spProvider (rjSpec job)) of
        (platform, endpoint) \<Rightarrow>
          if platform = [] then Inl (ErrMsg ''skipForks requires a provider to be configured'')
          else case readToken E job s of
                 Inl err \<Rightarrow> Inl (ErrWrap ''failed to read platform token for fork filtering'' err)
               | Inr token \<Rightarrow>
                   if platform = ''github'' then Inr (GitHubClient endpoint token)
                   else if platform = ''gitlab'' then Inr (GitLabClient endpoint token)
                   else if platform = ''gitea'' \<or> platform = ''forgejo''
                   then Inr (GiteaClient endpoint token)
                   else if platform = ''bitbucket'' then Inr (BitbucketClient endpoint token)
                   else Inl (ErrMsg (''skipForks is not supported for platform '' @
                          CHR 0x22 # platform @ [CHR 0x22])))"

section \<open>The filter\<close>

text \<open>
  The code asks for all projects at once, ten requests at a time, and writes each answer at the
  project's index; the model asks in the order of the list.
\<close>

fun fork_results ::
    "'w env \<Rightarrow> git_client \<Rightarrow> string list \<Rightarrow> 'w sys \<Rightarrow> (string \<times> (go_error + bool)) list \<times> 'w sys" where
  "fork_results E c [] s = ([], s)"
| "fork_results E c (project # projects) s =
     (let (isFork, s) = IsFork E c project s;
          (results, s) = fork_results E c projects s
      in ((project, isFork) # results, s))"

fun kept :: "string \<times> (go_error + bool) \<Rightarrow> bool" where
  "kept (project, Inl err) = True"
| "kept (project, Inr isFork) = (\<not> isFork)"

definition FilterForks ::
    "'w env \<Rightarrow> git_client \<Rightarrow> string list \<Rightarrow> 'w sys \<Rightarrow> string list \<times> 'w sys" where
  "FilterForks E c projects s =
     (if projects = [] then (projects, s)
      else let (results, s) = fork_results E c projects s
           in (map fst (filter kept results), s))"

text \<open>
  What the UI and the schedule do with a discovered list: \<open>SkipForks\<close> filters it, and a
  client that cannot be made ends the run.
\<close>

definition skip_forks ::
    "'w env \<Rightarrow> renovate_job \<Rightarrow> string list \<Rightarrow> 'w sys \<Rightarrow> (go_error + string list) \<times> 'w sys" where
  "skip_forks E job projects s =
     (if \<not> spSkipForks (rjSpec job) then (Inr projects, s)
      else case NewClientFactory E job s of
             Inl err \<Rightarrow> (Inl err, s)
           | Inr client \<Rightarrow> apfst Inr (FilterForks E client projects s))"

section \<open>Lemmas\<close>

lemma fork_results_Cons:
  "fork_results E c (p # ps) s =
     (let s1 = snd (IsFork E c p s)
      in ((p, fst (IsFork E c p s)) # fst (fork_results E c ps s1), snd (fork_results E c ps s1)))"
  by (simp add: Let_def split: prod.split)

declare fork_results.simps(2) [simp del]

lemma fork_results_projects: "map fst (fst (fork_results E c projects s)) = projects"
  by (induction projects arbitrary: s) (simp_all add: fork_results_Cons Let_def)

text \<open>Every entry is the answer of a request for its project.\<close>

lemma fork_results_asked:
  "(p, a) \<in> set (fst (fork_results E c projects s)) \<Longrightarrow> \<exists>s1. a = fst (IsFork E c p s1)"
proof (induction projects arbitrary: s)
  case Nil
  then show ?case by simp
next
  case (Cons q projects)
  from Cons.prems consider "p = q" "a = fst (IsFork E c q s)"
    | "(p, a) \<in> set (fst (fork_results E c projects (snd (IsFork E c q s))))"
    by (auto simp: fork_results_Cons Let_def)
  then show ?case using Cons.IH by cases auto
qed

lemma FilterForks_results:
  "fst (FilterForks E c projects s) = map fst (filter kept (fst (fork_results E c projects s)))"
  by (cases projects) (simp_all add: FilterForks_def split: prod.split)

lemma subseq_map_filter: "subseq (map f (filter P xs)) (map f xs)"
  by (intro subseq_map) simp

lemma FilterForks_subseq: "subseq (fst (FilterForks E c projects s)) projects"
  unfolding FilterForks_results
  using subseq_map_filter [of fst kept "fst (fork_results E c projects s)"]
  by (simp only: fork_results_projects)

lemma FilterForks_dropped:
  assumes "p \<in> set projects" and "p \<notin> set (fst (FilterForks E c projects s))"
  shows "\<exists>s1. fst (IsFork E c p s1) = Inr True"
proof -
  let ?rs = "fst (fork_results E c projects s)"
  have "p \<in> fst ` set ?rs"
    using assms(1) fork_results_projects [of E c projects s] by (metis set_map)
  then obtain a where a: "(p, a) \<in> set ?rs" by (metis imageE prod.collapse)
  have "\<not> kept (p, a)"
  proof
    assume "kept (p, a)"
    with a have "p \<in> fst ` set (filter kept ?rs)" by (intro image_eqI [of _ _ "(p, a)"]) simp_all
    then have "p \<in> set (fst (FilterForks E c projects s))"
      unfolding FilterForks_results set_map .
    with assms(2) show False by contradiction
  qed
  then have "a = Inr True" by (cases a) auto
  with fork_results_asked [OF a] show ?thesis by metis
qed

lemma FilterForks_kept:
  assumes "p \<in> set (fst (FilterForks E c projects s))"
  shows "\<exists>s1. fst (IsFork E c p s1) \<noteq> Inr True"
proof -
  let ?rs = "fst (fork_results E c projects s)"
  from assms have "p \<in> fst ` set (filter kept ?rs)" by (simp only: FilterForks_results set_map)
  then obtain x where "x \<in> set ?rs" and "kept x" and "fst x = p" by auto
  then obtain a where a: "(p, a) \<in> set ?rs" and k: "kept (p, a)" by (metis prod.collapse)
  from k have "a \<noteq> Inr True" by auto
  with fork_results_asked [OF a] show ?thesis by metis
qed

lemma first_token_Some:
  "first_token data keys = Some t \<Longrightarrow> t \<noteq> [] \<and> (\<exists>k \<in> set keys. data k = Some t)"
  by (induction data keys rule: first_token.induct) (auto split: option.splits if_split_asm)

lemma ask_fork_only: "http_only s (snd (ask_fork E req answer s))"
  using http_do_only [of E req s] by (auto simp: ask_fork_def split: prod.splits sum.splits)

lemma IsFork_only: "http_only s (snd (IsFork E c p s))"
  by (cases c) (simp_all add: github_IsFork_def gitlab_IsFork_def gitea_IsFork_def
    bitbucket_IsFork_def ask_fork_only)

lemma fork_results_only: "http_only s (snd (fork_results E c projects s))"
proof (induction projects arbitrary: s)
  case Nil
  then show ?case by simp
next
  case (Cons p projects)
  from http_only_trans [OF IsFork_only Cons] show ?case by (simp add: fork_results_Cons Let_def)
qed

lemma FilterForks_only: "http_only s (snd (FilterForks E c projects s))"
  using fork_results_only [of s E c projects] by (auto simp: FilterForks_def split: prod.splits)

lemma skip_forks_only: "skip_forks E job projects s = (r, s') \<Longrightarrow> http_only s s'"
  using FilterForks_only [of s E _ projects]
  by (auto simp: skip_forks_def split: sum.splits if_splits) (metis snd_apfst snd_conv)

end
