(* ===== verification/Scheduler.thy ===== *)
theory Scheduler
  imports Renovate_Manager
begin

text \<open>
  The scheduler, \<open>src/src/scheduler/scheduler.go\<close>: named schedules over a cron library. The
  library is the parameter \<open>cron_lib\<close> over an abstract state; \<open>cron_laws\<close> is its documented
  behaviour, seen through its table of jobs. The scheduler's lock makes each operation on its table
  one step; \<open>AddScheduleReplaceExisting\<close> is three of them, and only the reconciler, which runs one
  request of a resource at a time, calls it.
\<close>

section \<open>The cron library\<close>

text \<open>The function handed to the library: \<open>execute(name, expr, fn)\<close>.\<close>

record 'f cron_task =
  ctKey :: string
  ctSchedule :: string
  ctFn :: 'f

text \<open>
  \<open>clNext\<close> parses an expression with the fields of \<open>GetNextRunOnSchedule\<close> and gives the next
  time after a time; \<open>None\<close> when the expression does not parse.
\<close>

record ('f, 'c) cron_lib =
  clAddFunc :: "string \<Rightarrow> 'f cron_task \<Rightarrow> 'c \<Rightarrow> (go_error + nat) \<times> 'c"
  clRemove :: "nat \<Rightarrow> 'c \<Rightarrow> 'c"
  clStart :: "'c \<Rightarrow> 'c"
  clStop :: "'c \<Rightarrow> 'c"
  clNext :: "string \<Rightarrow> time \<Rightarrow> time option"

type_synonym ('f, 'c) cron_view = "'c \<Rightarrow> nat \<rightharpoonup> string \<times> 'f cron_task"

definition cron_laws :: "('f, 'c) cron_view \<Rightarrow> ('f, 'c) cron_lib \<Rightarrow> bool" where
  "cron_laws J L \<longleftrightarrow>
     (\<forall>e t c i c'. clAddFunc L e t c = (Inr i, c') \<longrightarrow> J c i = None \<and> J c' = (J c)(i \<mapsto> (e, t))) \<and>
     (\<forall>e t c err c'. clAddFunc L e t c = (Inl err, c') \<longrightarrow> J c' = J c) \<and>
     (\<forall>i c. J (clRemove L i c) = (J c)(i := None)) \<and>
     (\<forall>c. J (clStart L c) = J c) \<and> (\<forall>c. J (clStop L c) = J c)"

section \<open>Operations\<close>

record ('w, 'c) scheduler =
  scEntries :: "string \<rightharpoonup> nat \<times> string"
  scCron :: 'c
  scSys :: "'w sys"

definition NewScheduler :: "'c \<Rightarrow> 'w sys \<Rightarrow> ('w, 'c) scheduler" where
  "NewScheduler c s = \<lparr>scEntries = Map.empty, scCron = c, scSys = s\<rparr>"

definition GetNextRunOnSchedule :: "'w env \<Rightarrow> ('f, 'c) cron_lib \<Rightarrow> string \<Rightarrow> 'w sys \<Rightarrow> time" where
  "GetNextRunOnSchedule E L schedule s =
     (case clNext L schedule (eNow E (syWorld s)) of None \<Rightarrow> zero_time | Some t \<Rightarrow> t)"

definition set_scheduler_health ::
    "'w env \<Rightarrow> (scheduler_health \<Rightarrow> scheduler_health) \<Rightarrow> 'w sys \<Rightarrow> 'w sys" where
  "set_scheduler_health E fn s =
     s\<lparr>syHealth := SetSchedulerHealth (eNow E (syWorld s)) fn (syHealth s)\<rparr>"

definition schedule_health ::
    "'w env \<Rightarrow> ('f, 'c) cron_lib \<Rightarrow> string \<Rightarrow> string \<Rightarrow> bool \<Rightarrow> 'w sys \<Rightarrow> 'w sys" where
  "schedule_health E L name expr isRunning s =
     set_scheduler_health E (\<lambda>e. e\<lparr>slScheduler := (slScheduler e)(name \<mapsto>
       \<lparr>shName = name, shNextRun = GetNextRunOnSchedule E L expr s, shSchedule = expr,
        shLastUpdate = zero_time, shIsRunning = isRunning\<rparr>)\<rparr>) s"

definition Start_scheduler :: "'w env \<Rightarrow> ('f, 'c) cron_lib \<Rightarrow> ('w, 'c) scheduler \<Rightarrow> ('w, 'c) scheduler" where
  "Start_scheduler E L sc =
     sc\<lparr>scCron := clStart L (scCron sc),
        scSys := set_scheduler_health E (\<lambda>e. e\<lparr>slRunning := True\<rparr>) (scSys sc)\<rparr>"

definition Stop_scheduler :: "'w env \<Rightarrow> ('f, 'c) cron_lib \<Rightarrow> ('w, 'c) scheduler \<Rightarrow> ('w, 'c) scheduler" where
  "Stop_scheduler E L sc =
     sc\<lparr>scCron := clStop L (scCron sc),
        scSys := set_scheduler_health E (\<lambda>e. e\<lparr>slRunning := False\<rparr>) (scSys sc)\<rparr>"

definition AddSchedule ::
    "'w env \<Rightarrow> ('f, 'c) cron_lib \<Rightarrow> string \<Rightarrow> string \<Rightarrow> 'f \<Rightarrow> ('w, 'c) scheduler \<Rightarrow>
     go_error option \<times> ('w, 'c) scheduler" where
  "AddSchedule E L expr name fn sc =
     (case clAddFunc L expr \<lparr>ctKey = name, ctSchedule = expr, ctFn = fn\<rparr> (scCron sc) of
        (Inl err, c) \<Rightarrow> (Some err, sc\<lparr>scCron := c\<rparr>)
      | (Inr i, c) \<Rightarrow>
          (None, sc\<lparr>scCron := c, scEntries := (scEntries sc)(name \<mapsto> (i, expr)),
                    scSys := schedule_health E L name expr True (scSys sc)\<rparr>))"

definition RemoveSchedule ::
    "'w env \<Rightarrow> ('f, 'c) cron_lib \<Rightarrow> string \<Rightarrow> ('w, 'c) scheduler \<Rightarrow> ('w, 'c) scheduler" where
  "RemoveSchedule E L name sc =
     (let sc = (case scEntries sc name of
                  None \<Rightarrow> sc
                | Some (i, _) \<Rightarrow> sc\<lparr>scCron := clRemove L i (scCron sc),
                                   scEntries := (scEntries sc)(name := None)\<rparr>)
      in sc\<lparr>scSys := set_scheduler_health E
              (\<lambda>e. e\<lparr>slScheduler := (slScheduler e)(name := None)\<rparr>) (scSys sc)\<rparr>)"

definition AddScheduleReplaceExisting ::
    "'w env \<Rightarrow> ('f, 'c) cron_lib \<Rightarrow> string \<Rightarrow> string \<Rightarrow> 'f \<Rightarrow> ('w, 'c) scheduler \<Rightarrow>
     go_error option \<times> ('w, 'c) scheduler" where
  "AddScheduleReplaceExisting E L expr name fn sc =
     (case scEntries sc name of
        Some (_, schedule) \<Rightarrow>
          if schedule = expr then (None, sc)
          else AddSchedule E L expr name fn (RemoveSchedule E L name sc)
      | None \<Rightarrow> AddSchedule E L expr name fn sc)"

text \<open>
  A run of a schedule: the register says so while the function runs, and is set back by the
  deferred call when it returns or panics; a function that does not return leaves it set
  (\<open>None\<close>). The state the function works on is any \<open>'s\<close> that \<open>on_sys\<close> finds the operator's in.
\<close>

definition execute_schedule ::
    "'w env \<Rightarrow> ('f, 'c) cron_lib \<Rightarrow> (('w sys \<Rightarrow> 'w sys) \<Rightarrow> 's \<Rightarrow> 's) \<Rightarrow> string \<Rightarrow> string \<Rightarrow>
     ('s \<Rightarrow> (unit go_run \<times> 's) option) \<Rightarrow> 's \<Rightarrow> (unit go_run \<times> 's) option" where
  "execute_schedule E L on_sys key schedule fn s =
     map_option (apsnd (on_sys (schedule_health E L key schedule False)))
       (fn (on_sys (schedule_health E L key schedule True) s))"

section \<open>The table\<close>

lemma RemoveSchedule_entries: "scEntries (RemoveSchedule E L name sc) = (scEntries sc)(name := None)"
  by (auto simp: RemoveSchedule_def Let_def split: option.split)

lemma AddSchedule_entries:
  "AddSchedule E L expr name fn sc = (None, sc') \<Longrightarrow>
     \<exists>i. scEntries sc' = (scEntries sc)(name \<mapsto> (i, expr))"
  "AddSchedule E L expr name fn sc = (Some err, sc') \<Longrightarrow> scEntries sc' = scEntries sc"
  by (auto simp: AddSchedule_def split: prod.splits sum.splits)

text \<open>What a client of the scheduler relies on: the expression every name is scheduled with.\<close>

definition scheduled_expr :: "('w, 'c) scheduler \<Rightarrow> string \<rightharpoonup> string" where
  "scheduled_expr sc n = map_option snd (scEntries sc n)"

locale schedule_table =
  fixes expr_of :: "'st \<Rightarrow> string \<rightharpoonup> string"
    and add :: "string \<Rightarrow> string \<Rightarrow> 'f \<Rightarrow> 'st \<Rightarrow> go_error option \<times> 'st"
    and remove :: "string \<Rightarrow> 'st \<Rightarrow> 'st"
  assumes removed: "expr_of (remove n st) = (expr_of st)(n := None)"
    and added: "add e n f st = (None, st') \<Longrightarrow> expr_of st' = (expr_of st)(n \<mapsto> e)"
    and refused: "add e n f st = (Some err, st') \<Longrightarrow>
      expr_of st' = (expr_of st)(n := None) \<and> expr_of st n \<noteq> Some e"
begin

lemma added_other: "add e n f st = (r, st') \<Longrightarrow> m \<noteq> n \<Longrightarrow> expr_of st' m = expr_of st m"
  by (cases r) (auto dest: added refused)

lemma added_never_stale:
  "add e n f st = (r, st') \<Longrightarrow> expr_of st' n = (if r = None then Some e else None)"
  by (cases r) (auto dest: added refused)

lemma remove_remove: "expr_of (remove n (remove n st)) = expr_of (remove n st)"
  by (simp add: removed)

lemma add_again: "add e n f st = (None, st') \<Longrightarrow> add e n g st' = (r, st'') \<Longrightarrow> r = None"
  by (cases r) (auto dest!: added refused)

end

lemma scheduled_expr_cong:
  "scEntries sc' = (scEntries sc)(n := x) \<Longrightarrow>
     scheduled_expr sc' = (scheduled_expr sc)(n := map_option snd x)"
  by (rule ext) (simp add: scheduled_expr_def)

lemma replace_cases:
  assumes "AddScheduleReplaceExisting E L e n f sc = (r, sc')"
  obtains (same) i where "scEntries sc n = Some (i, e)" and "r = None" and "sc' = sc"
    | (added) sc1 where "sc1 = sc \<or> sc1 = RemoveSchedule E L n sc" and "scheduled_expr sc n \<noteq> Some e"
      and "scEntries sc1 = (scEntries sc)(n := None)" and "AddSchedule E L e n f sc1 = (r, sc')"
proof (cases "scEntries sc n")
  case None
  then have "(scEntries sc)(n := None) = scEntries sc" by auto
  with None assms show ?thesis
    by (intro added [of sc]) (simp_all add: AddScheduleReplaceExisting_def scheduled_expr_def)
next
  case (Some x)
  obtain i d where x: "x = (i, d)" by (cases x)
  show ?thesis
  proof (cases "d = e")
    case True
    with assms Some x show ?thesis by (intro same [of i]) (simp_all add: AddScheduleReplaceExisting_def)
  next
    case False
    with assms Some x show ?thesis
      by (intro added [of "RemoveSchedule E L n sc"])
        (simp_all add: AddScheduleReplaceExisting_def scheduled_expr_def RemoveSchedule_entries)
  qed
qed

lemma replace_added:
  assumes "AddScheduleReplaceExisting E L e n f sc = (None, sc')"
  shows "scheduled_expr sc' = (scheduled_expr sc)(n \<mapsto> e)"
  using assms
proof (cases rule: replace_cases)
  case (same i)
  then show ?thesis by (auto simp: scheduled_expr_def)
next
  case (added sc1)
  from AddSchedule_entries(1) [OF added(4)] obtain i
    where "scEntries sc' = (scEntries sc1)(n \<mapsto> (i, e))" by blast
  with added(3) have "scEntries sc' = (scEntries sc)(n \<mapsto> (i, e))" by simp
  from scheduled_expr_cong [OF this] show ?thesis by simp
qed

lemma replace_refused:
  assumes "AddScheduleReplaceExisting E L e n f sc = (Some err, sc')"
  shows "scheduled_expr sc' = (scheduled_expr sc)(n := None) \<and> scheduled_expr sc n \<noteq> Some e"
  using assms
proof (cases rule: replace_cases)
  case (same i)
  then show ?thesis by simp
next
  case (added sc1)
  from AddSchedule_entries(2) [OF added(4)] added(3)
  have "scEntries sc' = (scEntries sc)(n := None)" by simp
  from scheduled_expr_cong [OF this] added(2) show ?thesis by simp
qed

interpretation sched: schedule_table scheduled_expr "AddScheduleReplaceExisting E L" "RemoveSchedule E L"
  for E :: "'w env" and L :: "('f, 'c) cron_lib"
proof unfold_locales
  fix n and st :: "('w, 'c) scheduler"
  show "scheduled_expr (RemoveSchedule E L n st) = (scheduled_expr st)(n := None)"
    by (auto simp: scheduled_expr_def RemoveSchedule_entries)
qed (simp_all add: replace_added replace_refused)

section \<open>The table and the library agree\<close>

text \<open>
  Every entry has its job in the library, with its expression, and every job of the library
  belongs to an entry: no schedule runs twice and none runs after its removal.
\<close>

definition sched_agree :: "('f, 'c) cron_view \<Rightarrow> ('w, 'c) scheduler \<Rightarrow> bool" where
  "sched_agree J sc \<longleftrightarrow>
     (\<forall>n i e. scEntries sc n = Some (i, e) \<longrightarrow>
        (\<exists>f. J (scCron sc) i = Some (e, \<lparr>ctKey = n, ctSchedule = e, ctFn = f\<rparr>))) \<and>
     (\<forall>i x. J (scCron sc) i = Some x \<longrightarrow> (\<exists>n e. scEntries sc n = Some (i, e)))"

lemma sched_agreeD:
  assumes "sched_agree J sc"
  shows "scEntries sc n = Some (i, e) \<Longrightarrow>
      \<exists>f. J (scCron sc) i = Some (e, \<lparr>ctKey = n, ctSchedule = e, ctFn = f\<rparr>)"
    and "J (scCron sc) i = Some x \<Longrightarrow> \<exists>n e. scEntries sc n = Some (i, e)"
  using assms unfolding sched_agree_def by blast+

lemma sched_agree_ids:
  assumes "sched_agree J sc" and "scEntries sc n = Some (i, e)" and "scEntries sc m = Some (i, e')"
  shows "m = n"
  using sched_agreeD(1) [OF assms(1,2)] sched_agreeD(1) [OF assms(1,3)] by auto

lemma agree_remove:
  assumes "cron_laws J L" and agree: "sched_agree J sc"
  shows "sched_agree J (RemoveSchedule E L name sc)"
proof (cases "scEntries sc name")
  case None
  with agree show ?thesis by (auto simp: RemoveSchedule_def sched_agree_def)
next
  case (Some x)
  then obtain i e where ie: "scEntries sc name = Some (i, e)" by (cases x) auto
  have J: "J (clRemove L i (scCron sc)) = (J (scCron sc))(i := None)"
    using assms(1) by (simp add: cron_laws_def)
  have keep: "\<exists>f. J (clRemove L i (scCron sc)) j = Some (d, \<lparr>ctKey = n, ctSchedule = d, ctFn = f\<rparr>)"
    if "n \<noteq> name" "scEntries sc n = Some (j, d)" for n j d
    using sched_agreeD(1) [OF agree that(2)] sched_agree_ids [OF agree ie] that J by auto
  have owned: "\<exists>n d. n \<noteq> name \<and> scEntries sc n = Some (j, d)"
    if x: "J (clRemove L i (scCron sc)) j = Some x" for j x
  proof -
    from x J have "j \<noteq> i" and "J (scCron sc) j = Some x" by (auto split: if_splits)
    from sched_agreeD(2) [OF agree this(2)] obtain n d where nd: "scEntries sc n = Some (j, d)" by blast
    with ie \<open>j \<noteq> i\<close> have "n \<noteq> name" by auto
    with nd show ?thesis by blast
  qed
  have sc': "scEntries (RemoveSchedule E L name sc) = (scEntries sc)(name := None)"
    "scCron (RemoveSchedule E L name sc) = clRemove L i (scCron sc)"
    using ie by (simp_all add: RemoveSchedule_def)
  show ?thesis
    unfolding sched_agree_def sc'
  proof (intro conjI allI impI)
    fix n j d
    assume "((scEntries sc)(name := None)) n = Some (j, d)"
    then show "\<exists>f. J (clRemove L i (scCron sc)) j = Some (d, \<lparr>ctKey = n, ctSchedule = d, ctFn = f\<rparr>)"
      by (intro keep) (auto split: if_splits)
  next
    fix j x
    assume "J (clRemove L i (scCron sc)) j = Some x"
    from owned [OF this] show "\<exists>n e. ((scEntries sc)(name := None)) n = Some (j, e)" by auto
  qed
qed

lemma agree_add:
  assumes "cron_laws J L" and agree: "sched_agree J sc" and new: "scEntries sc name = None"
    and add: "AddSchedule E L expr name fn sc = (r, sc')"
  shows "sched_agree J sc'"
proof -
  let ?t = "\<lparr>ctKey = name, ctSchedule = expr, ctFn = fn\<rparr>"
  obtain x c where x: "clAddFunc L expr ?t (scCron sc) = (x, c)" by fastforce
  show ?thesis
  proof (cases x)
    case (Inl err)
    with assms(1) x have "J c = J (scCron sc)" by (simp add: cron_laws_def)
    with add x Inl agree show ?thesis by (auto simp: AddSchedule_def sched_agree_def)
  next
    case (Inr i)
    with assms(1) x have i: "J (scCron sc) i = None"
      and J: "J c = (J (scCron sc))(i \<mapsto> (expr, ?t))"
      by (simp_all add: cron_laws_def)
    have other: "j \<noteq> i" if "scEntries sc n = Some (j, d)" for n j d
      using sched_agreeD(1) [OF agree that] i by auto
    have sc': "scEntries sc' = (scEntries sc)(name \<mapsto> (i, expr))" "scCron sc' = c"
      using add x Inr by (auto simp: AddSchedule_def)
    show ?thesis
      unfolding sched_agree_def sc' J
    proof (intro conjI allI impI)
      fix n j d
      assume "((scEntries sc)(name \<mapsto> (i, expr))) n = Some (j, d)"
      with sched_agreeD(1) [OF agree, of n j d] other [of n j d]
      show "\<exists>f. ((J (scCron sc))(i \<mapsto> (expr, ?t))) j = Some (d, \<lparr>ctKey = n, ctSchedule = d, ctFn = f\<rparr>)"
        by (auto split: if_splits)
    next
      fix j x
      assume "((J (scCron sc))(i \<mapsto> (expr, ?t))) j = Some x"
      then consider "j = i" | "J (scCron sc) j = Some x" by (auto split: if_splits)
      then show "\<exists>n e. ((scEntries sc)(name \<mapsto> (i, expr))) n = Some (j, e)"
      proof cases
        case 1
        then show ?thesis by (intro exI [of _ name] exI [of _ expr]) simp
      next
        case 2
        from sched_agreeD(2) [OF agree this] obtain n e where ne: "scEntries sc n = Some (j, e)" by blast
        with new have "n \<noteq> name" by auto
        with ne show ?thesis by (intro exI [of _ n] exI [of _ e]) simp
      qed
    qed
  qed
qed

lemma agree_replace:
  assumes "cron_laws J L" and "sched_agree J sc"
    and "AddScheduleReplaceExisting E L expr name fn sc = (r, sc')"
  shows "sched_agree J sc'"
  using assms(3)
proof (cases rule: replace_cases)
  case (same i)
  with assms(2) show ?thesis by simp
next
  case (added sc1)
  then have "sched_agree J sc1" using assms(2) agree_remove [OF assms(1,2)] by auto
  with added show ?thesis by (intro agree_add [OF assms(1) _ _ added(4)]) simp_all
qed

end
