(* ===== verification/Ui_Api.thy ===== *)
theory Ui_Api
  imports Ui_Login Discovery Git_Provider Scheduler
begin

text \<open>
  The UI server, \<open>src/src/ui/renovateController.go\<close>, \<open>server.go\<close> and \<open>health.go\<close>: who may see a
  resource, the handlers of the API, the background part of a discovery the UI started, and the
  server that puts the provider's middleware around the router. The router library chooses the
  route or serves a static file; listening is I/O.
\<close>

record ui_server =
  usAuth :: "auth_provider option"
  usDefaultAllowedGroups :: "string list"
  usVersion :: string

section \<open>Authorisation\<close>

definition effective_groups :: "string list \<Rightarrow> renovate_job \<Rightarrow> string list" where
  "effective_groups defaultAllowedGroups job =
     (let effectiveAllowedGroups = normalizeGroups (spAllowedGroups (rjSpec job))
      in if effectiveAllowedGroups = [] then defaultAllowedGroups else effectiveAllowedGroups)"

fun filter_jobs :: "string list \<Rightarrow> string list \<Rightarrow> renovate_job list \<Rightarrow> renovate_job list" where
  "filter_jobs userGroups defaults [] = []"
| "filter_jobs userGroups defaults (job # jobs) =
     (let effectiveAllowedGroups = effective_groups defaults job
      in if effectiveAllowedGroups = [] then job # filter_jobs userGroups defaults jobs
         else if hasIntersection userGroups effectiveAllowedGroups
         then job # filter_jobs userGroups defaults jobs
         else filter_jobs userGroups defaults jobs)"

definition filterRenovateJobsByGroups ::
    "renovate_job list \<Rightarrow> bool \<Rightarrow> session_data option \<Rightarrow> string list \<Rightarrow> renovate_job list" where
  "filterRenovateJobsByGroups jobs authEnabled session defaultAllowedGroups =
     (if \<not> authEnabled then jobs
      else case session of
             None \<Rightarrow> []
           | Some x \<Rightarrow> filter_jobs (sdGroups x) defaultAllowedGroups jobs)"

text \<open>\<open>None\<close> is the pair of nil and false; a job that cannot be read is refused alike.\<close>

definition authorizeAndGetJob ::
    "'w env \<Rightarrow> ui_server \<Rightarrow> ui_request \<Rightarrow> string \<Rightarrow> string \<Rightarrow> 'w sys \<Rightarrow> renovate_job option" where
  "authorizeAndGetJob E srv r namespace jobName s =
     (if usAuth srv = None then
        (case GetRenovateJob E jobName namespace s of Inl err \<Rightarrow> None | Inr job \<Rightarrow> Some job)
      else case uqSession r of
             None \<Rightarrow> None
           | Some session \<Rightarrow>
               (case GetRenovateJob E jobName namespace s of
                  Inl err \<Rightarrow> None
                | Inr job \<Rightarrow>
                    let effectiveAllowedGroups = effective_groups (usDefaultAllowedGroups srv) job
                    in if effectiveAllowedGroups = [] then Some job
                       else if hasIntersection (sdGroups session) effectiveAllowedGroups then Some job
                       else None))"

definition authorizeJobAccess ::
    "'w env \<Rightarrow> ui_server \<Rightarrow> ui_request \<Rightarrow> string \<Rightarrow> string \<Rightarrow> 'w sys \<Rightarrow> bool" where
  "authorizeJobAccess E srv r namespace jobName s \<longleftrightarrow>
     authorizeAndGetJob E srv r namespace jobName s \<noteq> None"

section \<open>Reading handlers\<close>

definition getVersion :: "ui_server \<Rightarrow> ui_response" where
  "getVersion srv = reply 200 (VersionBody (usVersion srv))"

definition handleHealthCheck :: "'w sys \<Rightarrow> ui_response" where
  "handleHealthCheck s = reply 200 (HealthBody (GetHealth (syHealth s)))"

definition getAuthStatus :: "'w env \<Rightarrow> ui_server \<Rightarrow> ui_request \<Rightarrow> 'w sys \<Rightarrow> ui_response" where
  "getAuthStatus E srv r s =
     (case usAuth srv of
        None \<Rightarrow> reply 200 AuthDisabledBody
      | Some a \<Rightarrow> handleAuthStatus E (base_of a) r s)"

text \<open>A missing discovery job reads as scheduled, any other error as failed.\<close>

definition job_info ::
    "'w env \<Rightarrow> ('f, 'c) cron_lib \<Rightarrow> renovate_job \<Rightarrow> 'w sys \<Rightarrow> renovate_job_info go_run \<times> 'w sys" where
  "job_info E L renovateJob s =
     (case GetDiscoveryJobStatus E renovateJob [] s of
        (Panics m, s) \<Rightarrow> (Panics m, s)
      | (Returns x, s) \<Rightarrow>
          let discoveryStatus = (case x of
                Inr status \<Rightarrow> status
              | Inl err \<Rightarrow> if is_not_found err then JobStatusScheduled else JobStatusFailed);
              (platform, platformEndpoint) = GetPlatformAndEndpoint (spProvider (rjSpec renovateJob))
          in (Returns \<lparr>jiName = rjName renovateJob, jiNamespace = rjNamespace renovateJob,
                jiCronExpression = spSchedule (rjSpec renovateJob),
                jiNextSchedule = GetNextRunOnSchedule E L (spSchedule (rjSpec renovateJob)) s,
                jiDiscoveryStatus = discoveryStatus,
                jiProjects = map project_info (projects_of renovateJob),
                jiPlatform = platform, jiPlatformEndpoint = platformEndpoint,
                jiDebug = (case rsExecutionOptions (rjStatus renovateJob) of
                             None \<Rightarrow> False | Some o_opts \<Rightarrow> eoDebug o_opts)\<rparr>, s))"

fun job_infos ::
    "'w env \<Rightarrow> ('f, 'c) cron_lib \<Rightarrow> renovate_job list \<Rightarrow> 'w sys \<Rightarrow>
     renovate_job_info list go_run \<times> 'w sys" where
  "job_infos E L [] s = (Returns [], s)"
| "job_infos E L (job # jobs) s =
     (case job_info E L job s of
        (Panics m, s) \<Rightarrow> (Panics m, s)
      | (Returns info, s) \<Rightarrow>
          (case job_infos E L jobs s of
             (Panics m, s) \<Rightarrow> (Panics m, s)
           | (Returns infos, s) \<Rightarrow> (Returns (info # infos), s)))"

definition getRenovateJobs :: "'w env \<Rightarrow> ('f, 'c) cron_lib \<Rightarrow> ui_server \<Rightarrow> 'w ui_handler" where
  "getRenovateJobs E L srv r s =
     (case ListRenovateJobsFull E s of
        Inl err \<Rightarrow> (Returns (internalServerError (Some err) ''failed to load renovatejobs''), s)
      | Inr renovateJobs \<Rightarrow>
          (case job_infos E L (filterRenovateJobsByGroups renovateJobs (usAuth srv \<noteq> None)
                  (uqSession r) (usDefaultAllowedGroups srv)) s of
             (Panics m, s) \<Rightarrow> (Panics m, s)
           | (Returns result, s) \<Rightarrow> (Returns (reply 200 (JobsBody result)), s)))"

text \<open>The lines of a log that are JSON; the response lists them as one array.\<close>

definition log_entries :: "string \<Rightarrow> string list" where
  "log_entries logs =
     filter (\<lambda>line. line \<noteq> [] \<and> json_unmarshal line \<noteq> None)
       (map strings_TrimSpace (strings_Split newline (strings_TrimSpace logs)))"

definition getRenovateJobLogs :: "'w env \<Rightarrow> ui_server \<Rightarrow> ui_request \<Rightarrow> 'w sys \<Rightarrow> ui_response" where
  "getRenovateJobLogs E srv r s =
     (let namespace = uqQuery r ''namespace''; renovate = uqQuery r ''renovate'';
          project = uqQuery r ''project''
      in if \<not> authorizeJobAccess E srv r namespace renovate s then http_error ''forbidden'' 403
         else case GetLogsForProject E \<lparr>riName = renovate, riNamespace = namespace\<rparr> project s of
                (_, Some err) \<Rightarrow> internalServerError (Some err) ''failed to get logs for project, probably the completed job has been cleaned up already''
              | (logs, None) \<Rightarrow> reply 200 (LogsBody (log_entries logs)))"

definition discoveryStatusForProject :: "'w env \<Rightarrow> ui_server \<Rightarrow> 'w ui_handler" where
  "discoveryStatusForProject E srv r s =
     (let namespace = uqQuery r ''namespace''; renovate = uqQuery r ''renovate''
      in case authorizeAndGetJob E srv r namespace renovate s of
           None \<Rightarrow> (Returns (http_error ''forbidden'' 403), s)
         | Some job \<Rightarrow>
             (case GetDiscoveryJobStatus E job [] s of
                (Panics m, s) \<Rightarrow> (Panics m, s)
              | (Returns (Inr status), s) \<Rightarrow> (Returns (reply 200 (StatusBody status)), s)
              | (Returns (Inl err), s) \<Rightarrow>
                  (Returns (if is_not_found err then reply 200 (StatusBody JobStatusScheduled)
                            else internalServerError (Some err) ''failed to get discovery job status''), s)))"

section \<open>Changing handlers\<close>

record json_params =
  jpName :: string
  jpNamespace :: string
  jpProject :: string

definition dec_params :: "json_params decoder" where
  "dec_params = dec_struct
     [(''renovateJob'', dec_field dec_string jpName jpName_update),
      (''namespace'', dec_field dec_string jpNamespace jpNamespace_update),
      (''project'', dec_field dec_string jpProject jpProject_update)]"

definition getRenovateJsonBody :: "ui_request \<Rightarrow> go_error + json_params" where
  "getRenovateJsonBody r =
     (if uqHeader r ''Content-Type'' = ''application/json'' then
        (case Option.bind (uqBody r)
                (decode_body dec_params \<lparr>jpName = [], jpNamespace = [], jpProject = []\<rparr>) of
           None \<Rightarrow> Inl (ErrOther ''json'')
         | Some params \<Rightarrow> Inr params)
      else case uqForm r of
             None \<Rightarrow> Inl (ErrOther ''form'')
           | Some form \<Rightarrow> Inr \<lparr>jpName = form ''renovateJob'', jpNamespace = form ''namespace'',
                                jpProject = form ''project''\<rparr>)"

definition params_id :: "json_params \<Rightarrow> renovate_job_identifier" where
  "params_id params = \<lparr>riName = jpName params, riNamespace = jpNamespace params\<rparr>"

definition runRenovateForProject :: "'w env \<Rightarrow> ui_server \<Rightarrow> ui_request \<Rightarrow> 'w sys \<Rightarrow> ui_response \<times> 'w sys"
where
  "runRenovateForProject E srv r s =
     (case getRenovateJsonBody r of
        Inl err \<Rightarrow> (badRequestError (Some err) ''failed to parse request body'', s)
      | Inr params \<Rightarrow>
          if jpName params = [] \<or> jpNamespace params = [] \<or> jpProject params = []
          then (badRequestError None ''Missing parameters'', s)
          else if \<not> authorizeJobAccess E srv r (jpNamespace params) (jpName params) s
          then (http_error ''forbidden'' 403, s)
          else case UpdateProjectStatus E (jpProject params) (params_id params)
                      (mk_update JobStatusScheduled 2) s of
                 (Some err, s) \<Rightarrow> (internalServerError (Some err) ''failed to run Renovate for project'', s)
               | (None, s) \<Rightarrow> (writeSuccess ''Renovate job triggered for project'', s))"

definition not_queued :: "project_status \<Rightarrow> bool" where
  "not_queued p \<longleftrightarrow> psStatus p \<noteq> JobStatusRunning \<and> psStatus p \<noteq> JobStatusScheduled"

definition runRenovateForAllProjects :: "'w env \<Rightarrow> ui_request \<Rightarrow> 'w sys \<Rightarrow> ui_response \<times> 'w sys" where
  "runRenovateForAllProjects E r s =
     (case getRenovateJsonBody r of
        Inl err \<Rightarrow> (badRequestError (Some err) ''failed to parse request body'', s)
      | Inr params \<Rightarrow>
          if jpName params = [] \<or> jpNamespace params = []
          then (badRequestError None ''Missing parameters'', s)
          else case UpdateProjectStatusBatched E not_queued (params_id params)
                      (mk_update JobStatusScheduled 2) s of
                 (Some err, s) \<Rightarrow> (internalServerError (Some err) ''failed to trigger all projects'', s)
               | (None, s) \<Rightarrow> (writeSuccess ''All projects triggered'', s))"

text \<open>
  A discovery: the handler answers as soon as the job exists; the rest is a goroutine, noted in
  \<open>syDiscoveries\<close> with the parameters of the request, the resource as it was read, and the
  generation of the job.
\<close>

definition runDiscoveryForProject :: "'w env \<Rightarrow> ui_server \<Rightarrow> 'w ui_handler" where
  "runDiscoveryForProject E srv r s =
     (case getRenovateJsonBody r of
        Inl err \<Rightarrow> (Returns (badRequestError (Some err) ''failed to parse request body''), s)
      | Inr params \<Rightarrow>
          if jpName params = [] \<or> jpNamespace params = []
          then (Returns (badRequestError None ''missing parameters''), s)
          else case authorizeAndGetJob E srv r (jpNamespace params) (jpName params) s of
                 None \<Rightarrow> (Returns (http_error ''forbidden'' 403), s)
               | Some job \<Rightarrow>
                   (case GetDiscoveryJobStatus E job [] s of
                      (Panics m, s) \<Rightarrow> (Panics m, s)
                    | (Returns x, s) \<Rightarrow>
                        if x = Inr JobStatusRunning
                        then (Returns (writeSuccess ''discovery job is already running''), s)
                        else case CreateDiscoveryJob E job s of
                               (Inl err, s) \<Rightarrow>
                                 (Returns (internalServerError (Some err) ''failed to create discovery job''), s)
                             | (Inr generation, s) \<Rightarrow>
                                 (Returns (writeSuccess ''discovery job started''),
                                  s\<lparr>syDiscoveries := syDiscoveries s @
                                    [(jpName params, jpNamespace params, job, generation)]\<rparr>)))"

text \<open>The goroutine: \<open>None\<close> when the wait never ends. Its errors are only logged.\<close>

definition discovery_task ::
    "'w env \<Rightarrow> string \<times> string \<times> renovate_job \<times> string \<Rightarrow> 'w sys \<Rightarrow> (unit go_run \<times> 'w sys) option" where
  "discovery_task E task s =
     (case task of (name, namespace, job, generation) \<Rightarrow>
        (case WaitForDiscoveryJob E job generation s of
           None \<Rightarrow> None
         | Some (Panics m, s) \<Rightarrow> Some (Panics m, s)
         | Some (Returns (Inl err), s) \<Rightarrow> Some (Returns (), s)
         | Some (Returns (Inr projects), s) \<Rightarrow>
             (case skip_forks E job projects s of
                (Inl err, s) \<Rightarrow> Some (Returns (), s)
              | (Inr projects, s) \<Rightarrow>
                  Some (Returns (), snd (ReconcileProjects E
                    \<lparr>riName = name, riNamespace = namespace\<rparr> projects s)))))"

record options_params =
  opRenovateJob :: string
  opNamespace :: string
  opDebug :: bool

definition dec_options :: "options_params decoder" where
  "dec_options = dec_struct
     [(''renovateJob'', dec_field dec_string opRenovateJob opRenovateJob_update),
      (''namespace'', dec_field dec_string opNamespace opNamespace_update),
      (''debug'', dec_field dec_bool opDebug opDebug_update)]"

definition updateExecutionOptions :: "'w env \<Rightarrow> ui_request \<Rightarrow> 'w sys \<Rightarrow> ui_response \<times> 'w sys" where
  "updateExecutionOptions E r s =
     (case Option.bind (uqBody r)
             (decode_body dec_options \<lparr>opRenovateJob = [], opNamespace = [], opDebug = False\<rparr>) of
        None \<Rightarrow> (badRequestError (Some (ErrOther ''json'')) ''failed to parse request body'', s)
      | Some params \<Rightarrow>
          if opRenovateJob params = [] \<or> opNamespace params = []
          then (badRequestError None ''missing parameters'', s)
          else case UpdateExecutionOptions E
                      \<lparr>riName = opRenovateJob params, riNamespace = opNamespace params\<rparr>
                      (Some \<lparr>eoDebug = opDebug params\<rparr>) s of
                 (Some err, s) \<Rightarrow> (internalServerError (Some err) ''failed to update execution options'', s)
               | (None, s) \<Rightarrow> (writeSuccess ''execution options updated'', s))"

section \<open>The server\<close>

datatype ui_route =
    LoginRoute | CallbackRoute | CompleteRoute | LogoutRoute | LoggedOutRoute
  | AuthStatusRoute | VersionRoute | JobsRoute | RunRoute | RunAllRoute | LogsRoute
  | DiscoveryStartRoute | DiscoveryStatusRoute | ExecutionOptionsRoute | HealthRoute | StaticRoute

definition handleLoggedOut :: ui_response where
  "handleLoggedOut = reply 200 LoggedOutPage"

text \<open>The routes the two registration functions give the router; the paths of a route.\<close>

definition ui_paths :: "(string \<times> string list \<times> ui_route) list" where
  "ui_paths =
     [(''/auth/login'', [''GET''], LoginRoute),
      (''/auth/callback'', [''GET''], CallbackRoute),
      (''/auth/complete'', [''GET''], CompleteRoute),
      (''/auth/logout'', [''GET'', ''POST''], LogoutRoute),
      (''/auth/logged-out'', [''GET''], LoggedOutRoute),
      (''/api/v1/auth/status'', [''GET''], AuthStatusRoute),
      (''/api/v1/version'', [''GET''], VersionRoute),
      (''/api/v1/renovatejobs'', [''GET''], JobsRoute),
      (''/api/v1/renovate'', [''POST''], RunRoute),
      (''/api/v1/renovate/all'', [''POST''], RunAllRoute),
      (''/api/v1/logs'', [''GET''], LogsRoute),
      (''/api/v1/discovery/start'', [''POST''], DiscoveryStartRoute),
      (''/api/v1/discovery/status'', [''GET''], DiscoveryStatusRoute),
      (''/api/v1/executionOptions'', [''POST''], ExecutionOptionsRoute),
      (''/health'', [''GET''], HealthRoute)]"

text \<open>The routes of a login are registered only with a provider.\<close>

definition login_route :: "ui_route \<Rightarrow> bool" where
  "login_route x \<longleftrightarrow> x \<in> {LoginRoute, CallbackRoute, CompleteRoute, LogoutRoute, LoggedOutRoute}"

definition registered :: "ui_server \<Rightarrow> (string \<times> string list \<times> ui_route) list" where
  "registered srv = filter (\<lambda>(path, methods, x). login_route x \<longrightarrow> usAuth srv \<noteq> None) ui_paths"

text \<open>
  The router library is the parameter \<open>mux\<close>, of the method and the path. Its documented behaviour:
  it hands a request to a handler only if the path and the method are those the handler was
  registered with; all others go to the file server, which is registered for every path.
\<close>

definition mux_law :: "ui_server \<Rightarrow> (string \<Rightarrow> string \<Rightarrow> ui_route) \<Rightarrow> bool" where
  "mux_law srv mux \<longleftrightarrow>
     (\<forall>m path. mux m path = StaticRoute \<or>
        (\<exists>methods. (path, methods, mux m path) \<in> set (registered srv) \<and> m \<in> set methods))"

definition route_of :: "(string \<Rightarrow> string \<Rightarrow> ui_route) \<Rightarrow> ui_request \<Rightarrow> ui_route" where
  "route_of mux r = mux (uqMethod r) (uqPath r)"

definition with_provider ::
    "ui_server \<Rightarrow> (auth_provider \<Rightarrow> ui_response \<times> 'w sys) \<Rightarrow> 'w sys \<Rightarrow> ui_response go_run \<times> 'w sys" where
  "with_provider srv f s =
     (case usAuth srv of None \<Rightarrow> (Returns (reply 404 NoBody), s) | Some a \<Rightarrow> apfst Returns (f a))"

definition serve_route ::
    "'w env \<Rightarrow> 'w oauth_lib \<Rightarrow> ('f, 'c) cron_lib \<Rightarrow> ui_server \<Rightarrow> string option \<Rightarrow> ui_route \<Rightarrow> 'w ui_handler"
where
  "serve_route E OL L srv random x r s =
     (case x of
        LoginRoute \<Rightarrow> with_provider srv (\<lambda>a. (HandleLogin OL a random r, s)) s
      | CallbackRoute \<Rightarrow> with_provider srv (\<lambda>a. HandleCallback E OL a random r s) s
      | CompleteRoute \<Rightarrow> with_provider srv (\<lambda>a. (handleComplete (base_of a) r, s)) s
      | LogoutRoute \<Rightarrow> with_provider srv (\<lambda>a. HandleLogout E a r s) s
      | LoggedOutRoute \<Rightarrow> (Returns handleLoggedOut, s)
      | AuthStatusRoute \<Rightarrow> (Returns (getAuthStatus E srv r s), s)
      | VersionRoute \<Rightarrow> (Returns (getVersion srv), s)
      | JobsRoute \<Rightarrow> getRenovateJobs E L srv r s
      | RunRoute \<Rightarrow> apfst Returns (runRenovateForProject E srv r s)
      | RunAllRoute \<Rightarrow> apfst Returns (runRenovateForAllProjects E r s)
      | LogsRoute \<Rightarrow> (Returns (getRenovateJobLogs E srv r s), s)
      | DiscoveryStartRoute \<Rightarrow> runDiscoveryForProject E srv r s
      | DiscoveryStatusRoute \<Rightarrow> discoveryStatusForProject E srv r s
      | ExecutionOptionsRoute \<Rightarrow> apfst Returns (updateExecutionOptions E r s)
      | HealthRoute \<Rightarrow> (Returns (handleHealthCheck s), s)
      | StaticRoute \<Rightarrow> (Returns (reply 200 (StaticBody (uqPath r))), s))"

definition ui_server_handler ::
    "'w env \<Rightarrow> 'w oauth_lib \<Rightarrow> ('f, 'c) cron_lib \<Rightarrow> ui_server \<Rightarrow> (string \<Rightarrow> string \<Rightarrow> ui_route) \<Rightarrow>
     string option \<Rightarrow> 'w ui_handler" where
  "ui_server_handler E OL L srv mux random r s =
     (let router = (\<lambda>r s. serve_route E OL L srv random (route_of mux r) r s)
      in case usAuth srv of
           None \<Rightarrow> router r s
         | Some a \<Rightarrow> auth_middleware E (base_of a) router r s)"

end
