(* ===== verification/Ui_Properties.thy ===== *)
theory Ui_Properties
  imports Ui_Api Memory_Server
begin

text \<open>
  The UI server's promises: what validation makes of claimed groups, who gets past the middleware,
  who may see and change a resource, and the way of a session from the provider to a request.
\<close>

section \<open>Groups\<close>

text \<open>
  C21: The groups a login keeps: exactly the lower-case forms of the first hundred claims that have
  an admissible name and satisfy the policy, each once; validating them again changes nothing.
\<close>
theorem groups_validated:
  "set (ValidateAndNormalizeGroups cfg gs) =
     {g. group_allowed cfg g \<and> (\<exists>h \<in> set (take 100 gs).
        validateGroupName (strings_TrimSpace h) = None \<and> g = strings_ToLower (strings_TrimSpace h))} \<and>
   distinct (ValidateAndNormalizeGroups cfg gs) \<and>
   length (ValidateAndNormalizeGroups cfg gs) \<le> 100 \<and>
   (\<forall>g \<in> set (ValidateAndNormalizeGroups cfg gs). g \<noteq> [] \<and> length g \<le> 256 \<and> list_all group_char g) \<and>
   ValidateAndNormalizeGroups cfg (ValidateAndNormalizeGroups cfg gs) = ValidateAndNormalizeGroups cfg gs"
proof (intro conjI)
  show "length (ValidateAndNormalizeGroups cfg gs) \<le> 100"
    using validated_length [of cfg gs] by (simp add: maxGroupsPerUser_def)
  show "\<forall>g \<in> set (ValidateAndNormalizeGroups cfg gs). g \<noteq> [] \<and> length g \<le> 256 \<and> list_all group_char g"
    using validated_member(1) [of _ cfg gs]
    by (simp add: validateGroupName_None maxGroupNameLength_def)
qed (simp_all only: validated_set maxGroupsPerUser_def validated_distinct validated_stable)

definition example_policy :: group_filter_config where
  "example_policy = \<lparr>gfAllowedPrefix = ''team-'', gfAllowedPattern = None\<rparr>"

theorem groups_validated_witness:
  "distinct (ValidateAndNormalizeGroups example_policy ['' Team-A '', ''ops'', ''team-a'']) \<and>
   set (ValidateAndNormalizeGroups example_policy ['' Team-A '', ''ops'', ''team-a'']) = {''team-a''}"
proof -
  have "ValidateAndNormalizeGroups example_policy ['' Team-A '', ''ops'', ''team-a''] = [''team-a'']"
    by code_simp
  with groups_validated [of example_policy "['' Team-A '', ''ops'', ''team-a'']"] show ?thesis
    by simp
qed

text \<open>
  C40: A required group prefix that has a capital letter matches no group at all: groups are put
  into lower case before they are compared with the prefix, which is not. Every user then has
  no groups.
\<close>
theorem capital_prefix_hides_all:
  assumes "strings_ToLower (gfAllowedPrefix cfg) \<noteq> gfAllowedPrefix cfg"
  shows "ValidateAndNormalizeGroups cfg gs = []"
proof -
  have "g \<notin> set (ValidateAndNormalizeGroups cfg gs)" for g
  proof
    assume g: "g \<in> set (ValidateAndNormalizeGroups cfg gs)"
    have "gfAllowedPrefix cfg \<noteq> []" using assms by (auto simp: strings_ToLower_def)
    with validated_member(4) [OF g] have "strings_HasPrefix g (gfAllowedPrefix cfg)"
      by (simp add: group_allowed_def)
    with validated_member(2) [OF g] assms prefix_lower show False by blast
  qed
  then show ?thesis by (metis list.set_intros(1) neq_Nil_conv)
qed

theorem capital_prefix_hides_all_witness:
  "ValidateAndNormalizeGroups \<lparr>gfAllowedPrefix = ''Team-'', gfAllowedPattern = None\<rparr> [''Team-A''] = []"
  by (rule capital_prefix_hides_all) code_simp

section \<open>Getting past the middleware\<close>

text \<open>A route that is served without a session.\<close>

definition open_route :: "ui_route \<Rightarrow> bool" where
  "open_route x \<longleftrightarrow> login_route x \<or> x \<in> {AuthStatusRoute, HealthRoute, StaticRoute}"

lemma open_routes:
  "list_all (\<lambda>(path, methods, x). open_route x \<longleftrightarrow> isPublicPath path) ui_paths"
  unfolding ui_paths_def list_all_Cons_Nil prod.case
  by (intro conjI)
    (simp_all add: open_route_def login_route_def isPublicPath_def strings_HasPrefix_def)

lemma closed_route_path:
  assumes "mux_law srv mux" and "\<not> open_route (route_of mux r)"
  shows "\<not> isPublicPath (uqPath r)"
proof -
  from assms obtain methods where "(uqPath r, methods, route_of mux r) \<in> set ui_paths"
    by (auto simp: mux_law_def open_route_def registered_def route_of_def)
  with open_routes assms(2) show ?thesis by (auto simp: list_all_iff)
qed

text \<open>
  C8: With a provider configured, a request for any route but the public ones is answered without
  touching anything (a redirect to the login, 401, or the message about the login loop), unless it
  carries a session cookie that was sealed under the operator's key, decodes to a session and has
  not expired; then the route serves the request with that session.
\<close>
theorem ui_requires_session:
  assumes "aead_law (baAead (base_of a))" and "usAuth srv = Some a" and "mux_law srv mux"
    and "\<not> open_route (route_of mux r)"
    and served: "ui_server_handler E OL L srv mux random r s = (x, s')"
  shows "(x = Returns (reject_unauthenticated r) \<and> s' = s \<and>
      upStatus (reject_unauthenticated r) \<in> {302, 401, 500}) \<or>
    (\<exists>v nonce plaintext session. uqCookie r sessionCookieName = Some v \<and>
       base64_decode v = Some (nonce @ aeSeal (baAead (base_of a)) (baEncryptionKey (base_of a))
         nonce plaintext) \<and>
       unmarshal_into dec_session zero_session plaintext = Some session \<and>
       unix_seconds (eNow E (syWorld s)) \<le> sdExpiry session \<and>
       s' = snd (serve_route E OL L srv random (route_of mux r) (r\<lparr>uqSession := Some session\<rparr>) s))"
proof -
  let ?b = "base_of a"
  let ?h = "\<lambda>r s. serve_route E OL L srv random (route_of mux r) r s"
  have path: "\<not> isPublicPath (uqPath r)" by (rule closed_route_path [OF assms(3,4)])
  have mw: "auth_middleware E ?b ?h r s = (x, s')"
    using served assms(2) by (simp add: ui_server_handler_def)
  show ?thesis
  proof (cases "getSession E ?b r s")
    case (Inl err)
    have "upStatus (reject_unauthenticated r) \<in> {302, 401, 500}"
      by (simp add: reject_unauthenticated_def reply_def redirect_def with_cookies_def)
    with middleware_refused [OF path Inl, of ?h] mw show ?thesis by simp
  next
    case (Inr session)
    from getSession_valid [OF Inr] obtain v where v: "uqCookie r sessionCookieName = Some v"
      and d: "decryptSession ?b v = Inr session" by blast
    obtain y s1 where h: "?h (r\<lparr>uqSession := Some session\<rparr>) s = (y, s1)" by fastforce
    with middleware_admitted [OF path Inr, of ?h] mw have "s1 = s'" by auto
    with h have "s' = snd (serve_route E OL L srv random (route_of mux r)
        (r\<lparr>uqSession := Some session\<rparr>) s)"
      by (simp add: route_of_def)
    with v getSession_valid(2) [OF Inr] decrypt_sealed [OF assms(1) d] show ?thesis by blast
  qed
qed

text \<open>A cipher that meets the law, and a server that uses it.\<close>

definition plain_aead :: aead where
  "plain_aead = \<lparr>aeSeal = (\<lambda>k n p. n @ p),
     aeOpen = (\<lambda>k n c. if strings_HasPrefix c n then Some (drop (length n) c) else None)\<rparr>"

lemma plain_aead_law: "aead_law plain_aead"
proof -
  have "(if strings_HasPrefix c n then Some (drop (length n) c) else None) = Some p \<longleftrightarrow> c = n @ p"
    for c n p :: string
    by (auto simp: strings_HasPrefix_iff prefix_def)
  then show ?thesis by (simp add: aead_law_def plain_aead_def)
qed

definition example_auth :: auth_provider where
  "example_auth = OIDC \<lparr>oaBase = \<lparr>baAead = plain_aead, baEncryptionKey = ''key''\<rparr>, oaClientID = ''ui'',
     oaScopes = base_scopes, oaEndSessionURL = [], oaPostLogoutRedirect = [],
     oaGroupFilter = example_policy\<rparr>"

definition example_server :: ui_server where
  "example_server = \<lparr>usAuth = Some example_auth, usDefaultAllowedGroups = [], usVersion = ''dev''\<rparr>"

definition example_mux :: "string \<Rightarrow> string \<Rightarrow> ui_route" where
  "example_mux m path = (if m = ''POST'' \<and> path = ''/api/v1/renovate'' then RunRoute else StaticRoute)"

lemma example_mux_law: "mux_law example_server example_mux"
  by (auto simp: mux_law_def example_mux_def registered_def ui_paths_def login_route_def)

definition example_ui_request :: ui_request where
  "example_ui_request = \<lparr>uqMethod = ''POST'', uqPath = ''/api/v1/renovate'', uqQuery = (\<lambda>_. []),
     uqHeader = (\<lambda>_. []), uqCookie = (\<lambda>_. None), uqTLS = True, uqBody = Some [], uqForm = None,
     uqSession = None\<rparr>"

theorem ui_requires_session_witness:
  "ui_server_handler memory_env undefined (undefined :: (unit, unit) cron_lib) example_server example_mux
      None example_ui_request example_sys =
     (Returns (reply 401 UnauthorizedBody), example_sys)"
proof -
  obtain x s' where h: "ui_server_handler memory_env undefined
      (undefined :: (unit, unit) cron_lib) example_server example_mux None example_ui_request example_sys =
      (x, s')" by fastforce
  have "\<not> open_route (route_of example_mux example_ui_request)"
    by (simp add: route_of_def example_mux_def example_ui_request_def open_route_def login_route_def)
  moreover have "uqCookie example_ui_request n = None" for n by (simp add: example_ui_request_def)
  ultimately have "x = Returns (reject_unauthenticated example_ui_request)" and "s' = example_sys"
    using ui_requires_session [of example_auth example_server example_mux example_ui_request, OF _ _ _ _ h]
    by (auto simp: example_server_def example_auth_def plain_aead_law example_mux_law [unfolded example_server_def example_auth_def])
  moreover have "reject_unauthenticated example_ui_request = reply 401 UnauthorizedBody"
    by (simp add: reject_unauthenticated_def example_ui_request_def strings_HasPrefix_def)
  ultimately show ?thesis using h by simp
qed

section \<open>Who may see a resource\<close>

definition may_see :: "ui_server \<Rightarrow> session_data option \<Rightarrow> renovate_job \<Rightarrow> bool" where
  "may_see srv session job \<longleftrightarrow>
     usAuth srv = None \<or>
     (\<exists>x. session = Some x \<and>
        (let allowed = effective_groups (usDefaultAllowedGroups srv) job
         in allowed = [] \<or> set (sdGroups x) \<inter> set allowed \<noteq> {}))"

lemma authorize_iff:
  "authorizeAndGetJob E srv r ns n s = Some job \<longleftrightarrow>
     GetRenovateJob E n ns s = Inr job \<and> may_see srv (uqSession r) job"
  by (auto simp: authorizeAndGetJob_def may_see_def hasIntersection_iff Let_def
      split: sum.splits option.splits if_splits)

lemma filter_jobs_filter:
  "filter_jobs gs defaults jobs = filter (\<lambda>job. effective_groups defaults job = [] \<or>
     set gs \<inter> set (effective_groups defaults job) \<noteq> {}) jobs"
  by (induction jobs) (simp_all add: hasIntersection_iff Let_def)

lemma listing_filter:
  "filterRenovateJobsByGroups jobs (usAuth srv \<noteq> None) session (usDefaultAllowedGroups srv) =
     filter (may_see srv session) jobs"
proof (cases "usAuth srv = None \<or> session = None")
  case True
  then show ?thesis
    by (auto simp: filterRenovateJobsByGroups_def may_see_def intro: filter_True [symmetric] filter_False [symmetric])
next
  case False
  then obtain x where "session = Some x" and "usAuth srv \<noteq> None" by auto
  then show ?thesis
    unfolding filterRenovateJobsByGroups_def filter_jobs_filter
    by (simp only: option.case if_False not_True_eq_False not_False_eq_True if_True simp_thms)
      (intro filter_cong refl; auto simp: may_see_def Let_def)
qed

text \<open>
  C20: The list of resources and the access to a single one agree: a session is given a resource by
  name exactly if the resource, as it is stored, would be in the list the session gets; and that is
  the case without a provider, or with a session if nothing restricts the resource or the session
  has one of the groups.
\<close>
theorem listing_matches_access:
  "(authorizeAndGetJob E srv r ns n s = Some job \<longleftrightarrow>
     GetRenovateJob E n ns s = Inr job \<and>
     filterRenovateJobsByGroups [job] (usAuth srv \<noteq> None) (uqSession r) (usDefaultAllowedGroups srv) = [job]) \<and>
   filterRenovateJobsByGroups jobs (usAuth srv \<noteq> None) session (usDefaultAllowedGroups srv) =
     filter (may_see srv session) jobs"
  unfolding listing_filter authorize_iff by simp

text \<open>
  The guard of a handler: with readable parameters it refuses a resource that the session may not
  see, or that cannot be read, before it does anything.
\<close>

definition refused :: "'w env \<Rightarrow> ui_server \<Rightarrow> ui_request \<Rightarrow> string \<Rightarrow> string \<Rightarrow> 'w sys \<Rightarrow> bool" where
  "refused E srv r n ns s \<longleftrightarrow>
     \<not> (\<exists>job. GetRenovateJob E n ns s = Inr job \<and> may_see srv (uqSession r) job)"

lemma refused_access: "refused E srv r n ns s \<longleftrightarrow> authorizeAndGetJob E srv r ns n s = None"
  using authorize_iff [of E srv r ns n s] by (cases "authorizeAndGetJob E srv r ns n s") (auto simp: refused_def)


definition restricted_job :: renovate_job where
  "restricted_job = \<lparr>rjName = ''job'', rjNamespace = ''ns'', rjAnnotations = Map.empty,
     rjMeta = JNull, rjSpec = zero_spec\<lparr>spAllowedGroups := [''admins'']\<rparr>,
     rjStatus = \<lparr>rsProjects = [example_project ''b'' JobStatusCompleted 0], rsExecutionOptions = None\<rparr>\<rparr>"

definition restricted_sys :: "memory sys" where
  "restricted_sys = example_sys\<lparr>syWorld := example_memory\<lparr>meJobs := [(''job'', ''ns'') \<mapsto> restricted_job]\<rparr>\<rparr>"

definition outsider :: session_data where
  "outsider = \<lparr>sdEmail = ''x@y'', sdName = ''x'', sdExpiry = 1800000000, sdAccessToken = [],
     sdGroups = [''team-a'']\<rparr>"

definition form_request :: ui_request where
  "form_request = example_ui_request\<lparr>uqSession := Some outsider,
     uqQuery := (\<lambda>k. if k = ''renovate'' then ''job'' else ''ns''),
     uqForm := Some (\<lambda>k. if k = ''renovateJob'' then ''job'' else if k = ''namespace'' then ''ns'' else ''b''),
     uqBody := Some (json_text (JObj [(''renovateJob'', JStr ''job''), (''namespace'', JStr ''ns''),
       (''debug'', JBool True)]))\<rparr>"

lemma form_params:
  "getRenovateJsonBody form_request = Inr \<lparr>jpName = ''job'', jpNamespace = ''ns'', jpProject = ''b''\<rparr>"
  by (simp add: getRenovateJsonBody_def form_request_def example_ui_request_def)

lemma options_field_names [simp]:
  "fold_name ''renovateJob'' = ''renovatejob''" "fold_name ''namespace'' = ''namespace''"
  "fold_name ''debug'' = ''debug''"
  by code_simp+

lemma form_options:
  "Option.bind (uqBody form_request)
     (decode_body dec_options \<lparr>opRenovateJob = [], opNamespace = [], opDebug = False\<rparr>) =
   Some \<lparr>opRenovateJob = ''job'', opNamespace = ''ns'', opDebug = True\<rparr>"
proof -
  let ?v = "JObj [(''renovateJob'', JStr ''job''), (''namespace'', JStr ''ns''), (''debug'', JBool True)]"
  have "plain_json ?v"
    by (simp_all only: plain_json.simps list_all_Cons_Nil prod.case, simp_all add: plain_char_def)
  moreover have "json_depth ?v \<le> 10000" by simp
  ultimately have "json_decode_first (json_text ?v) = Some ?v" by (rule decode_first_json_text)
  moreover have "uqBody form_request = Some (json_text ?v)"
    by (simp add: form_request_def del: json_text.simps)
  ultimately show ?thesis
    by (simp add: decode_body_def dec_options_def dec_struct_def dec_field_def dec_string_def
        dec_bool_def del: json_text.simps)
qed

lemma restricted_get:
  "GetRenovateJob memory_env ''job'' ''ns'' restricted_sys = Inr restricted_job"
  by (simp add: GetRenovateJob_def loadRenovateJob_def memory_env_def memory_get_def
      restricted_sys_def example_memory_def restricted_job_def)

lemma restricted_groups: "effective_groups [] restricted_job = [''admins'']"
  by code_simp

lemma outsider_refused: "refused memory_env example_server form_request ''job'' ''ns'' restricted_sys"
  by (simp add: refused_def restricted_get may_see_def example_server_def form_request_def
      restricted_groups outsider_def)



end
