(* ===== verification/Login_Properties.thy ===== *)
theory Login_Properties
  imports Ui_Properties
begin

text \<open>
  The way of a login: from the provider's callback through the redirect that carries the sealed
  session to the cookie that later requests show; what GitHub says of a user; and the fork filter.
\<close>

section \<open>From the callback to a request\<close>

lemma group_char_safe:
  assumes "group_char c"
  shows "safe_char c"
proof -
  have lit: "list_all safe_char ''._@/,= -''"
    by (simp_all add: safe_char_def plain_char_def html_char_def)
  let ?n = "of_char c :: nat"
  from assms consider "97 \<le> ?n" "?n \<le> 122" | "65 \<le> ?n" "?n \<le> 90" | "48 \<le> ?n" "?n \<le> 57"
    | "c \<in> set ''._@/,= -''"
    by (auto simp: group_char_def Let_def)
  then show ?thesis
  proof cases
    case 4
    with lit show ?thesis by (auto simp only: list_all_iff)
  qed (auto simp: safe_char_def plain_char_def html_char_def)
qed

lemma validated_safe: "list_all (list_all safe_char) (ValidateAndNormalizeGroups cfg gs)"
  using validated_member(1) [of _ cfg gs] group_char_safe
  by (auto simp: list_all_iff validateGroupName_None)

text \<open>The session an OpenID login makes at a time.\<close>

definition login_session :: "oidc_auth \<Rightarrow> oidc_claims \<Rightarrow> time \<Rightarrow> session_data" where
  "login_session o_auth c now =
     \<lparr>sdEmail = clEmail c, sdName = clName c, sdExpiry = unix_seconds (now + sessionDuration),
      sdAccessToken = [], sdGroups = ValidateAndNormalizeGroups (oaGroupFilter o_auth) (clGroups c)\<rparr>"


definition example_oidc :: oidc_auth where
  "example_oidc = \<lparr>oaBase = \<lparr>baAead = plain_aead, baEncryptionKey = ''key''\<rparr>, oaClientID = ''ui'',
     oaScopes = base_scopes, oaEndSessionURL = [], oaPostLogoutRedirect = [],
     oaGroupFilter = example_policy\<rparr>"

definition claims_json :: json where
  "claims_json = JObj [(''email'', JStr ''a@b''), (''groups'', JArr [JStr ''Team-A'', JStr ''ops''])]"

definition example_lib :: "memory oauth_lib" where
  "example_lib = \<lparr>olNewProvider = (\<lambda>_ _ _. Inr None), olCompile = (\<lambda>_. Inr (\<lambda>_. True)),
     olAuthCodeURL = (\<lambda>_ _ _. ''https://idp''),
     olExchange = (\<lambda>_ _. Inr \<lparr>otAccessToken = ''at'', otIdToken = Some ''id''\<rparr>),
     olVerify = (\<lambda>_ _. Inr (json_text claims_json))\<rparr>"

definition callback_request :: ui_request where
  "callback_request = example_ui_request\<lparr>uqQuery := (\<lambda>_. ''x''), uqCookie := (\<lambda>_. Some ''x'')\<rparr>"

lemma claims_decoded:
  "unmarshal_into dec_claims zero_claims (json_text claims_json) =
     Some \<lparr>clEmail = ''a@b'', clName = [], clGroups = [''Team-A'', ''ops'']\<rparr>"
proof -
  have "plain_json claims_json"
    by (simp_all only: claims_json_def plain_json.simps list_all_Cons_Nil prod.case,
        simp_all add: plain_char_def)
  moreover have "json_depth claims_json \<le> 10000" by (simp add: claims_json_def)
  ultimately have "json_unmarshal (json_text claims_json) = Some claims_json"
    by (rule unmarshal_json_text)
  then show ?thesis
    by (simp add: unmarshal_into_def)
      (simp add: claims_json_def dec_claims_def dec_struct_def dec_field_def dec_string_def
        dec_slice_def zero_claims_def)
qed


end
