(* ===== verification/Forgejo_Sync.thy ===== *)
theory Forgejo_Sync
  imports Renovate_Manager Json_Write "HOL-Library.AList"
begin

text \<open>
  The Forgejo API client, \<open>src/src/internal/forgejo/client.go\<close>, and the webhook syncer,
  \<open>src/src/internal/forgejo/sync.go\<close>: every repository with a topic that the operator may
  administer gets the operator's webhook, and repositories that lost the topic lose it.

  The syncer's table of managed repositories is an association list; the Go loops over maps run in
  an unspecified order, here in the order of the list. The syncer's lock only guards the table. The
  loops over pages have no bound of their own: they are partial functions.
\<close>

section \<open>The API client\<close>

record repository_permissions =
  rpAdmin :: bool
  rpPush :: bool
  rpPull :: bool

record sync_repository =
  srID :: int
  srFullName :: string
  srOwnerLogin :: string
  srName :: string
  srPermissions :: "repository_permissions option"

record webhook_config =
  wcURL :: string
  wcContentType :: string
  wcAuthorizationHeader :: string

record sync_webhook =
  swID :: int
  swType :: string
  swConfig :: webhook_config
  swEvents :: "string list"
  swActive :: bool

record create_webhook_options =
  cwType :: string
  cwConfig :: webhook_config
  cwEvents :: "string list"
  cwActive :: bool

definition zero_permissions :: repository_permissions where
  "zero_permissions = \<lparr>rpAdmin = False, rpPush = False, rpPull = False\<rparr>"

definition dec_permissions :: "repository_permissions decoder" where
  "dec_permissions = dec_struct
     [(''admin'', dec_field dec_bool rpAdmin rpAdmin_update),
      (''push'', dec_field dec_bool rpPush rpPush_update),
      (''pull'', dec_field dec_bool rpPull rpPull_update)]"

definition zero_repository :: sync_repository where
  "zero_repository = \<lparr>srID = 0, srFullName = [], srOwnerLogin = [], srName = [], srPermissions = None\<rparr>"

definition dec_owner :: "string decoder" where
  "dec_owner = dec_struct [(''login'', dec_string)]"

definition dec_repository :: "sync_repository decoder" where
  "dec_repository = dec_struct
     [(''id'', dec_field dec_int srID srID_update),
      (''full_name'', dec_field dec_string srFullName srFullName_update),
      (''owner'', dec_field dec_owner srOwnerLogin srOwnerLogin_update),
      (''name'', dec_field dec_string srName srName_update),
      (''permissions'', dec_field (dec_pointer zero_permissions dec_permissions)
        srPermissions srPermissions_update)]"

definition zero_config :: webhook_config where
  "zero_config = \<lparr>wcURL = [], wcContentType = [], wcAuthorizationHeader = []\<rparr>"

definition dec_config :: "webhook_config decoder" where
  "dec_config = dec_struct
     [(''url'', dec_field dec_string wcURL wcURL_update),
      (''content_type'', dec_field dec_string wcContentType wcContentType_update),
      (''authorization_header'', dec_field dec_string wcAuthorizationHeader wcAuthorizationHeader_update)]"

definition zero_webhook :: sync_webhook where
  "zero_webhook = \<lparr>swID = 0, swType = [], swConfig = zero_config, swEvents = [], swActive = False\<rparr>"

definition dec_webhook :: "sync_webhook decoder" where
  "dec_webhook = dec_struct
     [(''id'', dec_field dec_int swID swID_update),
      (''type'', dec_field dec_string swType swType_update),
      (''config'', dec_field dec_config swConfig swConfig_update),
      (''events'', dec_field (dec_slice [] dec_string) swEvents swEvents_update),
      (''active'', dec_field dec_bool swActive swActive_update)]"

definition config_json :: "webhook_config \<Rightarrow> json" where
  "config_json c = JObj
     ([(''url'', JStr (wcURL c)), (''content_type'', JStr (wcContentType c))] @
      (if wcAuthorizationHeader c = [] then []
       else [(''authorization_header'', JStr (wcAuthorizationHeader c))]))"

definition options_json :: "create_webhook_options \<Rightarrow> json" where
  "options_json o_opts = JObj
     [(''type'', JStr (cwType o_opts)), (''config'', config_json (cwConfig o_opts)),
      (''events'', JArr (map JStr (cwEvents o_opts))), (''active'', JBool (cwActive o_opts))]"

record forgejo_client =
  fcBaseURL :: string
  fcToken :: string

definition forgejo_request :: "forgejo_client \<Rightarrow> string \<Rightarrow> string \<Rightarrow> string option \<Rightarrow> http_call" where
  "forgejo_request c meth path body =
     \<lparr>hcMethod = meth, hcUrl = fcBaseURL c @ path,
      hcHeaders = (''Authorization'', ''token '' @ fcToken c) #
        (if body = None then [] else [(''Content-Type'', ''application/json'')]),
      hcBody = body\<rparr>"

definition doRequest ::
    "'w env \<Rightarrow> forgejo_client \<Rightarrow> string \<Rightarrow> string \<Rightarrow> string option \<Rightarrow> 'w sys \<Rightarrow>
     (go_error + http_answer) \<times> 'w sys" where
  "doRequest E c meth path body s = http_do E (forgejo_request c meth path body) s"

definition unexpected_status :: "http_answer \<Rightarrow> go_error" where
  "unexpected_status resp =
     ErrMsg (''unexpected status '' @ show_nat (haStatus resp) @ '': '' @ haBody resp)"

definition decodeResponse :: "'a decoder \<Rightarrow> 'a \<Rightarrow> http_answer \<Rightarrow> go_error + 'a" where
  "decodeResponse d zero resp =
     (if haStatus resp < 200 \<or> haStatus resp \<ge> 300 then Inl (unexpected_status resp)
      else case decode_body d zero (haBody resp) of
             None \<Rightarrow> Inl (ErrOther ''json'')
           | Some x \<Rightarrow> Inr x)"

text \<open>One request whose answer is decoded, with the error wrapped as the caller does.\<close>

definition call_decode ::
    "'w env \<Rightarrow> forgejo_client \<Rightarrow> string \<Rightarrow> string \<Rightarrow> string \<Rightarrow> string option \<Rightarrow> 'a decoder \<Rightarrow> 'a \<Rightarrow>
     'w sys \<Rightarrow> (go_error + 'a) \<times> 'w sys" where
  "call_decode E c what meth path body d zero s =
     (case doRequest E c meth path body s of
        (Inl err, s) \<Rightarrow> (Inl (ErrWrap what err), s)
      | (Inr resp, s) \<Rightarrow>
          (case decodeResponse d zero resp of
             Inl err \<Rightarrow> (Inl (ErrWrap what err), s)
           | Inr x \<Rightarrow> (Inr x, s)))"

definition page_limit :: nat where
  "page_limit = 50"

definition search_path :: "string \<Rightarrow> nat \<Rightarrow> string" where
  "search_path topic page = ''/api/v1/repos/search?'' @ encode_values
     [(''limit'', show_nat page_limit), (''page'', show_nat page), (''q'', topic), (''topic'', ''true'')]"

definition search_page ::
    "'w env \<Rightarrow> forgejo_client \<Rightarrow> string \<Rightarrow> nat \<Rightarrow> 'w sys \<Rightarrow> (go_error + sync_repository list) \<times> 'w sys"
where
  "search_page E c topic page s =
     call_decode E c ''searching repos by topic'' ''GET'' (search_path topic page) None
       (dec_struct [(''data'', dec_slice zero_repository dec_repository)]) [] s"

definition hooks_path :: "string \<Rightarrow> string \<Rightarrow> string" where
  "hooks_path owner repo = ''/api/v1/repos/'' @ owner @ ''/'' @ repo @ ''/hooks''"

definition hooks_page ::
    "'w env \<Rightarrow> forgejo_client \<Rightarrow> string \<Rightarrow> string \<Rightarrow> nat \<Rightarrow> 'w sys \<Rightarrow> (go_error + sync_webhook list) \<times> 'w sys"
where
  "hooks_page E c owner repo page s =
     call_decode E c ''listing webhooks'' ''GET''
       (hooks_path owner repo @ ''?limit='' @ show_nat page_limit @ ''&page='' @ show_nat page) None
       (dec_slice zero_webhook dec_webhook) [] s"

text \<open>
  The loop over pages that both listings run: it ends with an error, an empty page or a page that
  is not full, and goes on as long as pages are full.
\<close>

partial_function (option) all_pages ::
    "(nat \<Rightarrow> 'w sys \<Rightarrow> (go_error + 'a list) \<times> 'w sys) \<Rightarrow> nat \<Rightarrow> 'a list \<Rightarrow> 'w sys \<Rightarrow>
     ((go_error + 'a list) \<times> 'w sys) option" where
  "all_pages get page found s =
     (case get page s of
        (Inl err, s) \<Rightarrow> Some (Inl err, s)
      | (Inr items, s) \<Rightarrow>
          if items = [] then Some (Inr found, s)
          else if length items < page_limit then Some (Inr (found @ items), s)
          else all_pages get (page + 1) (found @ items) s)"

definition SearchReposByTopic ::
    "'w env \<Rightarrow> forgejo_client \<Rightarrow> string \<Rightarrow> 'w sys \<Rightarrow> ((go_error + sync_repository list) \<times> 'w sys) option"
where
  "SearchReposByTopic E c topic s = all_pages (search_page E c topic) 1 [] s"

definition ListRepoWebhooks ::
    "'w env \<Rightarrow> forgejo_client \<Rightarrow> string \<Rightarrow> string \<Rightarrow> 'w sys \<Rightarrow>
     ((go_error + sync_webhook list) \<times> 'w sys) option" where
  "ListRepoWebhooks E c owner repo s = all_pages (hooks_page E c owner repo) 1 [] s"

definition CreateRepoWebhook ::
    "'w env \<Rightarrow> forgejo_client \<Rightarrow> string \<Rightarrow> string \<Rightarrow> create_webhook_options \<Rightarrow> 'w sys \<Rightarrow>
     (go_error + sync_webhook) \<times> 'w sys" where
  "CreateRepoWebhook E c owner repo opts s =
     call_decode E c ''creating webhook'' ''POST'' (hooks_path owner repo)
       (Some (json_marshal (options_json opts))) dec_webhook zero_webhook s"

definition delete_path :: "string \<Rightarrow> string \<Rightarrow> int \<Rightarrow> string" where
  "delete_path owner repo hookID = hooks_path owner repo @ ''/'' @ show_int hookID"

definition DeleteRepoWebhook ::
    "'w env \<Rightarrow> forgejo_client \<Rightarrow> string \<Rightarrow> string \<Rightarrow> int \<Rightarrow> 'w sys \<Rightarrow> go_error option \<times> 'w sys" where
  "DeleteRepoWebhook E c owner repo hookID s =
     (case doRequest E c ''DELETE'' (delete_path owner repo hookID) None s of
        (Inl err, s) \<Rightarrow> (Some (ErrWrap ''deleting webhook'' err), s)
      | (Inr resp, s) \<Rightarrow>
          (if haStatus resp \<noteq> 204 \<and> haStatus resp \<noteq> 200 then Some (unexpected_status resp) else None, s))"

section \<open>The syncer\<close>

type_synonym managed = "(string \<times> int) list"

record webhook_syncer =
  wsClient :: forgejo_client
  wsWebhookURL :: string
  wsAuthToken :: string
  wsEvents :: "string list"
  wsTopic :: string
  wsManagedRepos :: managed

definition NewWebhookSyncer ::
    "forgejo_client \<Rightarrow> string \<Rightarrow> string \<Rightarrow> string \<Rightarrow> string list \<Rightarrow> webhook_syncer" where
  "NewWebhookSyncer c webhookURL authToken topic events =
     \<lparr>wsClient = c, wsWebhookURL = webhookURL, wsAuthToken = authToken,
      wsEvents = (if events = [] then [''issues'', ''pull_request''] else events),
      wsTopic = topic, wsManagedRepos = []\<rparr>"

definition ManagedRepos :: "webhook_syncer \<Rightarrow> managed" where
  "ManagedRepos sy = wsManagedRepos sy"

definition SetManagedRepos :: "managed \<Rightarrow> webhook_syncer \<Rightarrow> webhook_syncer" where
  "SetManagedRepos m sy = sy\<lparr>wsManagedRepos := m\<rparr>"

text \<open>\<open>strings.SplitN(fullName, "/", 2)\<close> of a well-formed name.\<close>

definition owner_and_name :: "string \<Rightarrow> (string \<times> string) option" where
  "owner_and_name fullName =
     (case strings_SplitN2 CHR ''/'' fullName of [owner, repo] \<Rightarrow> Some (owner, repo) | _ \<Rightarrow> None)"

definition hook_options :: "webhook_syncer \<Rightarrow> create_webhook_options" where
  "hook_options sy =
     \<lparr>cwType = ''forgejo'',
      cwConfig = \<lparr>wcURL = wsWebhookURL sy, wcContentType = ''json'',
                  wcAuthorizationHeader = (if wsAuthToken sy = [] then []
                                           else ''Bearer '' @ wsAuthToken sy)\<rparr>,
      cwEvents = wsEvents sy, cwActive = True\<rparr>"

text \<open>The table after the call, with the error of the call.\<close>

definition ensureWebhook ::
    "'w env \<Rightarrow> webhook_syncer \<Rightarrow> string \<Rightarrow> string \<Rightarrow> string \<Rightarrow> managed \<Rightarrow> 'w sys \<Rightarrow>
     (go_error option \<times> managed \<times> 'w sys) option" where
  "ensureWebhook E sy owner repo fullName m s =
     (case ListRepoWebhooks E (wsClient sy) owner repo s of
        None \<Rightarrow> None
      | Some (Inl err, s) \<Rightarrow> Some (Some (ErrWrap ''listing webhooks'' err), m, s)
      | Some (Inr hooks, s) \<Rightarrow>
          (case find (\<lambda>hook. wcURL (swConfig hook) = wsWebhookURL sy) hooks of
             Some hook \<Rightarrow> Some (None, AList.update fullName (swID hook) m, s)
           | None \<Rightarrow>
               (case CreateRepoWebhook E (wsClient sy) owner repo (hook_options sy) s of
                  (Inl err, s) \<Rightarrow> Some (Some (ErrWrap ''creating webhook'' err), m, s)
                | (Inr hook, s) \<Rightarrow> Some (None, AList.update fullName (swID hook) m, s))))"

text \<open>Step 2: the names with the topic, and those among them the operator administers.\<close>

definition is_admin :: "sync_repository \<Rightarrow> bool" where
  "is_admin repo = (case srPermissions repo of None \<Rightarrow> False | Some p \<Rightarrow> rpAdmin p)"

definition topic_names :: "sync_repository list \<Rightarrow> string list" where
  "topic_names repos = map srFullName repos"

definition admin_names :: "sync_repository list \<Rightarrow> string list" where
  "admin_names repos = remdups (map srFullName (filter is_admin repos))"

text \<open>Step 3.\<close>

fun ensure_all ::
    "'w env \<Rightarrow> webhook_syncer \<Rightarrow> string list \<Rightarrow> managed \<Rightarrow> 'w sys \<Rightarrow> (managed \<times> 'w sys) option" where
  "ensure_all E sy [] m s = Some (m, s)"
| "ensure_all E sy (fullName # names) m s =
     (case owner_and_name fullName of
        None \<Rightarrow> ensure_all E sy names m s
      | Some (owner, repo) \<Rightarrow>
          (case ensureWebhook E sy owner repo fullName m s of
             None \<Rightarrow> None
           | Some (_, m, s) \<Rightarrow> ensure_all E sy names m s))"

text \<open>Step 4.\<close>

fun remove_stale ::
    "'w env \<Rightarrow> webhook_syncer \<Rightarrow> string list \<Rightarrow> string list \<Rightarrow> managed \<Rightarrow> managed \<Rightarrow> 'w sys \<Rightarrow>
     managed \<times> 'w sys" where
  "remove_stale E sy topics admins [] m s = (m, s)"
| "remove_stale E sy topics admins ((fullName, hookID) # pending) m s =
     (if fullName \<in> set admins then remove_stale E sy topics admins pending m s
      else if fullName \<in> set topics
      then remove_stale E sy topics admins pending (AList.delete fullName m) s
      else case owner_and_name fullName of
             None \<Rightarrow> remove_stale E sy topics admins pending m s
           | Some (owner, repo) \<Rightarrow>
               (case DeleteRepoWebhook E (wsClient sy) owner repo hookID s of
                  (Some err, s) \<Rightarrow> remove_stale E sy topics admins pending m s
                | (None, s) \<Rightarrow> remove_stale E sy topics admins pending (AList.delete fullName m) s))"

definition RunOnce ::
    "'w env \<Rightarrow> webhook_syncer \<Rightarrow> 'w sys \<Rightarrow> ((go_error + managed) \<times> webhook_syncer \<times> 'w sys) option" where
  "RunOnce E sy s =
     (case SearchReposByTopic E (wsClient sy) (wsTopic sy) s of
        None \<Rightarrow> None
      | Some (Inl err, s) \<Rightarrow>
          Some (Inl (ErrWrap (''searching repos by topic '' @ CHR 0x22 # wsTopic sy @ [CHR 0x22]) err), sy, s)
      | Some (Inr repos, s) \<Rightarrow>
          (case ensure_all E sy (admin_names repos) (wsManagedRepos sy) s of
             None \<Rightarrow> None
           | Some (m, s) \<Rightarrow>
               (case remove_stale E sy (topic_names repos) (admin_names repos) m m s of
                  (m, s) \<Rightarrow> Some (Inr m, sy\<lparr>wsManagedRepos := m\<rparr>, s))))"

section \<open>Pages\<close>

text \<open>The items of \<open>k\<close> full pages from a page on, and the state after them.\<close>

fun full_pages ::
    "nat \<Rightarrow> (nat \<Rightarrow> 'w sys \<Rightarrow> (go_error + 'a list) \<times> 'w sys) \<Rightarrow> nat \<Rightarrow> 'w sys \<Rightarrow> ('a list \<times> 'w sys) option"
where
  "full_pages 0 get page s = Some ([], s)"
| "full_pages (Suc k) get page s =
     (case get page s of
        (Inl err, s) \<Rightarrow> None
      | (Inr items, s) \<Rightarrow>
          if length items < page_limit then None
          else map_option (apfst ((@) items)) (full_pages k get (page + 1) s))"

lemma page_limit_pos: "0 < page_limit"
  by (simp add: page_limit_def)

lemma all_pages_end:
  assumes "get page s = (Inr items, s')" and "length items < page_limit"
  shows "all_pages get page found s = Some (Inr (found @ items), s')"
  using assms by (subst all_pages.simps) auto

lemma all_pages_more:
  assumes "get page s = (Inr items, s')" and "\<not> length items < page_limit"
  shows "all_pages get page found s = all_pages get (page + 1) (found @ items) s'"
  using assms page_limit_pos by (subst all_pages.simps) auto

lemma all_pages_full:
  "full_pages k get page s = Some (items, s1) \<Longrightarrow>
   all_pages get page found s = all_pages get (page + k) (found @ items) s1"
proof (induction k arbitrary: page s found items)
  case 0
  then show ?case by simp
next
  case (Suc k)
  obtain here s2 where g: "get page s = (Inr here, s2)" and l: "\<not> length here < page_limit"
    using Suc.prems by (auto split: prod.splits sum.splits if_splits)
  with Suc.prems obtain more where f: "full_pages k get (page + 1) s2 = Some (more, s1)"
    and items: "items = here @ more" by auto
  from all_pages_more [of get page s here s2 found, OF g l] Suc.IH [OF f, of "found @ here"] items
  show ?case by simp
qed

text \<open>How a loop that returns has gone: full pages, and one more request that ended it.\<close>

definition pages_end ::
    "(nat \<Rightarrow> 'w sys \<Rightarrow> (go_error + 'a list) \<times> 'w sys) \<Rightarrow> nat \<Rightarrow> 'a list \<Rightarrow> 'w sys \<Rightarrow>
     (go_error + 'a list) \<times> 'w sys \<Rightarrow> bool" where
  "pages_end get page found s x \<longleftrightarrow>
     (\<exists>k items s1. full_pages k get page s = Some (items, s1) \<and> snd x = snd (get (page + k) s1) \<and>
        (case fst (get (page + k) s1) of
           Inl err \<Rightarrow> fst x = Inl err
         | Inr rest \<Rightarrow> length rest < page_limit \<and> fst x = Inr (found @ items @ rest)))"

lemma pages_end_now:
  assumes "snd x = snd (get page s)"
    and "case fst (get page s) of Inl err \<Rightarrow> fst x = Inl err
      | Inr rest \<Rightarrow> length rest < page_limit \<and> fst x = Inr (found @ rest)"
  shows "pages_end get page found s x"
  unfolding pages_end_def using assms
  by (intro exI [of _ 0] exI [of _ "[]"] exI [of _ s]) (simp split: sum.splits)

lemma pages_end_later:
  assumes "get page s = (Inr here, s2)" and "\<not> length here < page_limit"
    and "pages_end get (page + 1) (found @ here) s2 x"
  shows "pages_end get page found s x"
proof -
  from assms(3) obtain k items s1 where "full_pages k get (page + 1) s2 = Some (items, s1)"
    and "snd x = snd (get (page + 1 + k) s1)"
    and "case fst (get (page + 1 + k) s1) of Inl err \<Rightarrow> fst x = Inl err
      | Inr rest \<Rightarrow> length rest < page_limit \<and> fst x = Inr ((found @ here) @ items @ rest)"
    unfolding pages_end_def by blast
  with assms(1,2) show ?thesis
    unfolding pages_end_def
    by (intro exI [of _ "Suc k"] exI [of _ "here @ items"] exI [of _ s1]) (simp split: sum.splits)
qed

lemma all_pages_ends: "all_pages get page found s = Some x \<Longrightarrow> pages_end get page found s x"
proof (induction rule: all_pages.raw_induct [rotated, consumes 1])
  case (1 all get page found s x)
  obtain r s2 where g: "get page s = (r, s2)" by fastforce
  show ?case
  proof (cases r)
    case (Inl err)
    with 1(2) g show ?thesis by (intro pages_end_now) auto
  next
    case (Inr here)
    show ?thesis
    proof (cases "length here < page_limit")
      case True
      with 1(2) g Inr page_limit_pos show ?thesis
        by (intro pages_end_now) (auto split: if_splits)
    next
      case False
      with page_limit_pos have "here \<noteq> []" by auto
      with 1(2) g Inr False have "all get (page + 1) (found @ here) s2 = Some x" by simp
      from pages_end_later [OF _ False 1(1) [OF this]] g Inr show ?thesis by simp
    qed
  qed
qed

lemma all_pages_returns:
  assumes "pages_end get page found s x"
  shows "all_pages get page found s = Some x"
proof -
  from assms obtain k items s1 where f: "full_pages k get page s = Some (items, s1)"
    and x: "snd x = snd (get (page + k) s1)" "case fst (get (page + k) s1) of Inl err \<Rightarrow> fst x = Inl err
      | Inr rest \<Rightarrow> length rest < page_limit \<and> fst x = Inr (found @ items @ rest)"
    unfolding pages_end_def by blast
  obtain r s2 where g: "get (page + k) s1 = (r, s2)" by fastforce
  have "all_pages get (page + k) (found @ items) s1 = Some x"
  proof (cases r)
    case (Inl err)
    with g x show ?thesis by (subst all_pages.simps) (cases x; simp)
  next
    case (Inr rest)
    with g x have "x = (Inr ((found @ items) @ rest), s2)" "length rest < page_limit"
      by (cases x; simp)+
    with all_pages_end g Inr show ?thesis by metis
  qed
  with all_pages_full [OF f] show ?thesis by simp
qed

section \<open>The requests of a run\<close>

text \<open>
  \<open>sends E P\<close> leads from a state to every one that requests satisfying \<open>P\<close>, and nothing else, can
  lead to.
\<close>

inductive sends :: "'w env \<Rightarrow> (http_call \<Rightarrow> bool) \<Rightarrow> 'w sys \<Rightarrow> 'w sys \<Rightarrow> bool" for E P where
  sends_refl [simp]: "sends E P s s"
| sends_request: "sends E P s t \<Longrightarrow> P c \<Longrightarrow> http_do E c t = (r, u) \<Longrightarrow> sends E P s u"

lemma sends_trans:
  assumes "sends E P s s'" and "sends E P s' s''"
  shows "sends E P s s''"
  using assms(2,1) by (induction rule: sends.induct) (auto intro: sends_request)

lemma sends_mono: "sends E P s s' \<Longrightarrow> (\<And>c. P c \<Longrightarrow> Q c) \<Longrightarrow> sends E Q s s'"
  by (induction rule: sends.induct) (auto intro: sends_request)

text \<open>The requests are noted, in their order.\<close>

lemma sends_calls:
  assumes "sends E P s s'"
  shows "\<exists>cs. syHttp s' = syHttp s @ cs \<and> (\<forall>c \<in> set cs. P c)"
  using assms
proof (induction rule: sends.induct)
  case (sends_refl s)
  show ?case by simp
next
  case (sends_request s t c r u)
  then obtain cs where "syHttp t = syHttp s @ cs" "\<forall>c \<in> set cs. P c" by blast
  with sends_request.hyps(2) http_do_calls [OF sends_request.hyps(3)] show ?case
    by (intro exI [of _ "cs @ [c]"]) auto
qed

lemma doRequest_sends:
  "doRequest E c m p b s = (r, s') \<Longrightarrow> P (forgejo_request c m p b) \<Longrightarrow> sends E P s s'"
  unfolding doRequest_def using sends_request [OF sends_refl] by blast

lemma call_decode_sends:
  assumes "call_decode E c what m p b d zero s = (r, s')" and "P (forgejo_request c m p b)"
  shows "sends E P s s'"
proof -
  obtain x s1 where x: "doRequest E c m p b s = (x, s1)" by fastforce
  with assms(1) have "s' = s1"
    by (auto simp: call_decode_def split: sum.splits)
  with doRequest_sends [where P = P, OF x assms(2)] show ?thesis by simp
qed

definition is_get :: "http_call \<Rightarrow> bool" where
  "is_get c \<longleftrightarrow> hcMethod c = ''GET''"

lemma all_pages_sends:
  assumes "\<And>p s r s'. get p s = (r, s') \<Longrightarrow> sends E P s s'"
    and "all_pages get page found s = Some x"
  shows "sends E P s (snd x)"
proof -
  have full: "full_pages k get p s = Some (items, s1) \<Longrightarrow> sends E P s s1" for k p s items s1
  proof (induction k arbitrary: p s items)
    case 0
    then show ?case by simp
  next
    case (Suc k)
    obtain here s2 where g: "get p s = (Inr here, s2)" and l: "\<not> length here < page_limit"
      using Suc.prems by (auto split: prod.splits sum.splits if_splits)
    with Suc.prems obtain more where "full_pages k get (p + 1) s2 = Some (more, s1)" by auto
    from sends_trans [OF assms(1) [OF g] Suc.IH [OF this]] show ?case .
  qed
  from all_pages_ends [OF assms(2)] obtain k items s1
    where f: "full_pages k get page s = Some (items, s1)" and x: "snd x = snd (get (page + k) s1)"
    unfolding pages_end_def by blast
  have "sends E P s1 (snd x)" using assms(1) [OF prod.collapse [symmetric]] x by simp
  with full [OF f] sends_trans show ?thesis by blast
qed

lemma search_page_sends: "search_page E c topic p s = (r, s') \<Longrightarrow> sends E is_get s s'"
  unfolding search_page_def by (rule call_decode_sends) (auto simp: is_get_def forgejo_request_def)

lemma hooks_page_sends: "hooks_page E c owner repo p s = (r, s') \<Longrightarrow> sends E is_get s s'"
  unfolding hooks_page_def by (rule call_decode_sends) (auto simp: is_get_def forgejo_request_def)

lemma Search_sends:
  assumes "SearchReposByTopic E c topic s = Some (r, s')"
  shows "sends E is_get s s'"
proof -
  have "sends E is_get s (snd (r, s'))"
    by (rule all_pages_sends [OF search_page_sends assms [unfolded SearchReposByTopic_def]])
  then show ?thesis by simp
qed

lemma List_sends:
  assumes "ListRepoWebhooks E c owner repo s = Some (r, s')"
  shows "sends E is_get s s'"
proof -
  have "sends E is_get s (snd (r, s'))"
    by (rule all_pages_sends [OF hooks_page_sends assms [unfolded ListRepoWebhooks_def]])
  then show ?thesis by simp
qed

text \<open>The request that creates the webhook of the syncer on a repository.\<close>

definition creates :: "webhook_syncer \<Rightarrow> string \<Rightarrow> string \<Rightarrow> http_call \<Rightarrow> bool" where
  "creates sy owner repo c \<longleftrightarrow> c = forgejo_request (wsClient sy) ''POST'' (hooks_path owner repo)
     (Some (json_marshal (options_json (hook_options sy))))"

lemma ensureWebhook_effect:
  assumes "ensureWebhook E sy owner repo n m s = Some (r, m', s')"
  shows "m' = m \<or> (\<exists>i. m' = AList.update n i m)"
    and "sends E (\<lambda>c. is_get c \<or> creates sy owner repo c) s s'"
proof -
  let ?P = "\<lambda>c. is_get c \<or> creates sy owner repo c"
  obtain x s1 where l: "ListRepoWebhooks E (wsClient sy) owner repo s = Some (x, s1)"
    using assms by (auto simp: ensureWebhook_def split: option.splits)
  then have s1: "sends E ?P s s1" by (auto intro: sends_mono [OF List_sends])
  show "m' = m \<or> (\<exists>i. m' = AList.update n i m)"
    using assms l by (auto simp: ensureWebhook_def split: sum.splits option.splits prod.splits)
  show "sends E ?P s s'"
  proof (cases "s' = s1")
    case True
    with s1 show ?thesis by simp
  next
    case False
    then obtain y where "CreateRepoWebhook E (wsClient sy) owner repo (hook_options sy) s1 = (y, s')"
      using assms l by (auto simp: ensureWebhook_def split: sum.splits option.splits prod.splits)
    then have "sends E ?P s1 s'"
      unfolding CreateRepoWebhook_def by (rule call_decode_sends) (simp add: creates_def)
    with s1 sends_trans show ?thesis by blast
  qed
qed

end
