(* ===== verification/Service_Properties.thy ===== *)
theory Service_Properties
  imports Forgejo_Sync Git_Provider Scheduler Memory_Server
begin

text \<open>
  What the parts that talk to other services guarantee: the loop over pages, a run of the webhook
  syncer, the fork filter, and the scheduler's table.
\<close>

section \<open>Pages\<close>

text \<open>
  C18: The search for repositories returns exactly when some page is not full (or fails): after
  \<open>k\<close> full pages, with the error of the next request or with the items of all pages in order.
  A server that always answers with a full page keeps it going for ever.
\<close>
theorem search_returns_iff:
  "SearchReposByTopic E c topic s = Some x \<longleftrightarrow>
     (\<exists>k items s1. full_pages k (search_page E c topic) 1 s = Some (items, s1) \<and>
        snd x = snd (search_page E c topic (1 + k) s1) \<and>
        (case fst (search_page E c topic (1 + k) s1) of
           Inl err \<Rightarrow> fst x = Inl err
         | Inr rest \<Rightarrow> length rest < page_limit \<and> fst x = Inr (items @ rest)))"
proof -
  have "SearchReposByTopic E c topic s = Some x \<longleftrightarrow> pages_end (search_page E c topic) 1 [] s x"
    unfolding SearchReposByTopic_def using all_pages_ends all_pages_returns by blast
  then show ?thesis by (simp only: pages_end_def append_Nil)
qed

section \<open>The webhook syncer\<close>

lemma map_of_update [simp]: "map_of (AList.update k v m) = (map_of m)(k \<mapsto> v)"
  by (rule update_conv')

lemma map_of_delete [simp]: "map_of (AList.delete k m) = (map_of m)(k := None)"
  by (rule delete_conv')

lemma ensure_all_effect:
  assumes "ensure_all E sy names m s = Some (m', s')"
  shows "n \<notin> set names \<Longrightarrow> map_of m' n = map_of m n"
    and "map_of m n \<noteq> None \<Longrightarrow> map_of m' n \<noteq> None"
    and "distinct (map fst m) \<Longrightarrow> distinct (map fst m')"
    and "sends E (\<lambda>c. is_get c \<or> (\<exists>n \<in> set names. \<exists>owner repo. owner_and_name n = Some (owner, repo) \<and>
      creates sy owner repo c)) s s'"
  using assms
proof (induction names arbitrary: m s)
  case Nil
  { case 1 then show ?case by simp }
  { case 2 then show ?case by simp }
  { case 3 then show ?case by simp }
  { case 4 then show ?case by simp }
next
  case (Cons name names)
  have step: "\<exists>m1 s1. (m1 = m \<or> (\<exists>i. m1 = AList.update name i m)) \<and>
      sends E (\<lambda>c. is_get c \<or> (\<exists>owner repo. owner_and_name name = Some (owner, repo) \<and>
        creates sy owner repo c)) s s1 \<and> ensure_all E sy names m1 s1 = Some (m', s')"
    if run: "ensure_all E sy (name # names) m s = Some (m', s')" for m s
  proof (cases "owner_and_name name")
    case None
    with run show ?thesis by (intro exI [of _ m] exI [of _ s]) simp
  next
    case (Some x)
    obtain owner repo where x: "owner_and_name name = Some (owner, repo)" using Some by (cases x) auto
    with run obtain r m1 s1 where e: "ensureWebhook E sy owner repo name m s = Some (r, m1, s1)"
      and rest: "ensure_all E sy names m1 s1 = Some (m', s')"
      by (auto split: option.splits)
    have "sends E (\<lambda>c. is_get c \<or> (\<exists>owner repo. owner_and_name name = Some (owner, repo) \<and>
        creates sy owner repo c)) s s1"
      using ensureWebhook_effect(2) [OF e] by (rule sends_mono) (use x in auto)
    with ensureWebhook_effect(1) [OF e] rest show ?thesis by blast
  qed
  {
    case 1
    from step [OF 1(2)] obtain m1 s1 where "m1 = m \<or> (\<exists>i. m1 = AList.update name i m)"
      and "ensure_all E sy names m1 s1 = Some (m', s')" by blast
    with Cons.IH(1) [of m1 s1] 1(1) show ?case by auto
  next
    case 2
    from step [OF 2(2)] obtain m1 s1 where "m1 = m \<or> (\<exists>i. m1 = AList.update name i m)"
      and "ensure_all E sy names m1 s1 = Some (m', s')" by blast
    with Cons.IH(2) [of m1 s1] 2(1) show ?case by auto
  next
    case 3
    from step [OF 3(2)] obtain m1 s1 where "m1 = m \<or> (\<exists>i. m1 = AList.update name i m)"
      and "ensure_all E sy names m1 s1 = Some (m', s')" by blast
    with Cons.IH(3) [of m1 s1] 3(1) show ?case by (auto simp: distinct_update)
  next
    case 4
    let ?Q = "\<lambda>c. is_get c \<or> (\<exists>n \<in> set (name # names). \<exists>owner repo.
      owner_and_name n = Some (owner, repo) \<and> creates sy owner repo c)"
    from step [OF 4] obtain m1 s1 where s1: "sends E (\<lambda>c. is_get c \<or> (\<exists>owner repo.
        owner_and_name name = Some (owner, repo) \<and> creates sy owner repo c)) s s1"
      and rest: "ensure_all E sy names m1 s1 = Some (m', s')" by blast
    have "sends E ?Q s s1" using s1 by (rule sends_mono) auto
    moreover have "sends E ?Q s1 s'" using Cons.IH(4) [OF rest] by (rule sends_mono) auto
    ultimately show ?case by (rule sends_trans)
  }
qed

text \<open>The request that deletes a managed webhook of a repository without the topic.\<close>

definition deletes :: "webhook_syncer \<Rightarrow> string \<Rightarrow> int \<Rightarrow> http_call \<Rightarrow> bool" where
  "deletes sy n hookID c \<longleftrightarrow> (\<exists>owner repo. owner_and_name n = Some (owner, repo) \<and>
     c = forgejo_request (wsClient sy) ''DELETE'' (delete_path owner repo hookID) None)"

lemma Delete_sends:
  assumes "DeleteRepoWebhook E (wsClient sy) owner repo hookID s = (r, s')"
    and "owner_and_name n = Some (owner, repo)"
  shows "sends E (deletes sy n hookID) s s'"
proof -
  obtain x s1 where x: "doRequest E (wsClient sy) ''DELETE'' (delete_path owner repo hookID) None s = (x, s1)"
    by fastforce
  with assms(1) have "s' = s1" by (auto simp: DeleteRepoWebhook_def split: sum.splits)
  with assms(2) doRequest_sends [where P = "deletes sy n hookID", OF x] show ?thesis
    by (simp add: deletes_def)
qed

text \<open>One pending entry: it stays, is forgotten, or is deleted.\<close>

lemma remove_stale_Cons:
  assumes "remove_stale E sy topics admins ((n, h) # pending) m s = (m', s')"
  obtains m1 s1 where "remove_stale E sy topics admins pending m1 s1 = (m', s')"
    and "m1 = m \<or> (m1 = AList.delete n m \<and> n \<notin> set admins)"
    and "n \<notin> set admins \<Longrightarrow> n \<in> set topics \<Longrightarrow> m1 = AList.delete n m"
    and "sends E (\<lambda>c. n \<notin> set admins \<and> n \<notin> set topics \<and> deletes sy n h c) s s1"
proof (cases "n \<in> set admins \<or> n \<in> set topics \<or> owner_and_name n = None")
  case True
  with assms show ?thesis
    by (intro that [of "if n \<notin> set admins \<and> n \<in> set topics then AList.delete n m else m" s])
      (auto split: if_splits)
next
  case False
  then obtain owner repo where on: "owner_and_name n = Some (owner, repo)" by auto
  obtain r s1 where d: "DeleteRepoWebhook E (wsClient sy) owner repo h s = (r, s1)" by fastforce
  have "sends E (\<lambda>c. n \<notin> set admins \<and> n \<notin> set topics \<and> deletes sy n h c) s s1"
    using Delete_sends [OF d on] by (rule sends_mono) (use False in simp)
  with assms False on d show ?thesis
    by (intro that [of "if r = None then AList.delete n m else m" s1]) (auto split: option.splits)
qed

lemma remove_stale_effect:
  assumes "remove_stale E sy topics admins pending m s = (m', s')"
  shows "n \<in> set admins \<Longrightarrow> map_of m' n = map_of m n"
    and "map_of m' n = None \<or> map_of m' n = map_of m n"
    and "n \<notin> set admins \<Longrightarrow> n \<in> set topics \<Longrightarrow> n \<in> fst ` set pending \<Longrightarrow> map_of m' n = None"
    and "distinct (map fst m) \<Longrightarrow> distinct (map fst m')"
    and "sends E (\<lambda>c. \<exists>n h. (n, h) \<in> set pending \<and> n \<notin> set admins \<and> n \<notin> set topics \<and> deletes sy n h c) s s'"
  using assms
proof (induction pending arbitrary: m s)
  case Nil
  { case 1 then show ?case by simp }
  { case 2 then show ?case by simp }
  { case 3 then show ?case by simp }
  { case 4 then show ?case by simp }
  { case 5 then show ?case by simp }
next
  case (Cons p pending)
  obtain k h where p: "p = (k, h)" by (cases p)
  {
    case 1
    from remove_stale_Cons [OF 1(2) [unfolded p]] obtain m1 s1
      where "remove_stale E sy topics admins pending m1 s1 = (m', s')"
        and "m1 = m \<or> (m1 = AList.delete k m \<and> k \<notin> set admins)" by metis
    with Cons.IH(1) [of m1 s1] 1(1) show ?case by auto
  next
    case 2
    from remove_stale_Cons [OF 2 [unfolded p]] obtain m1 s1
      where "remove_stale E sy topics admins pending m1 s1 = (m', s')"
        and "m1 = m \<or> (m1 = AList.delete k m \<and> k \<notin> set admins)" by metis
    with Cons.IH(2) [of m1 s1] show ?case by (auto split: if_splits)
  next
    case 3
    from remove_stale_Cons [OF 3(4) [unfolded p]] obtain m1 s1
      where rest: "remove_stale E sy topics admins pending m1 s1 = (m', s')"
        and m1: "k \<notin> set admins \<Longrightarrow> k \<in> set topics \<Longrightarrow> m1 = AList.delete k m" by metis
    show ?case
    proof (cases "n = k")
      case True
      with 3 m1 have "map_of m1 n = None" by simp
      with Cons.IH(2) [OF rest] show ?thesis by auto
    next
      case False
      with 3 p Cons.IH(3) [OF _ _ _ rest] show ?thesis by auto
    qed
  next
    case 4
    from remove_stale_Cons [OF 4(2) [unfolded p]] obtain m1 s1
      where "remove_stale E sy topics admins pending m1 s1 = (m', s')"
        and "m1 = m \<or> (m1 = AList.delete k m \<and> k \<notin> set admins)" by metis
    with Cons.IH(4) [of m1 s1] 4(1) show ?case by (auto simp: distinct_delete)
  next
    case 5
    let ?Q = "\<lambda>c. \<exists>n h. (n, h) \<in> set (p # pending) \<and> n \<notin> set admins \<and> n \<notin> set topics \<and> deletes sy n h c"
    from remove_stale_Cons [OF 5 [unfolded p]] obtain m1 s1
      where rest: "remove_stale E sy topics admins pending m1 s1 = (m', s')"
        and s1: "sends E (\<lambda>c. k \<notin> set admins \<and> k \<notin> set topics \<and> deletes sy k h c) s s1" by metis
    have "sends E ?Q s s1" using s1 by (rule sends_mono) (use p in auto)
    moreover have "sends E ?Q s1 s'" using Cons.IH(5) [OF rest] by (rule sends_mono) auto
    ultimately show ?case by (rule sends_trans)
  }
qed

text \<open>What stays without the operator's rights could not be removed.\<close>

lemma remove_stale_left:
  assumes "remove_stale E sy topics admins pending m s = (m', s')"
    and "n \<notin> set admins" and "(n, h) \<in> set pending" and "map_of m' n \<noteq> None"
  shows "n \<notin> set topics \<and> (\<forall>owner repo. owner_and_name n = Some (owner, repo) \<longrightarrow>
    (\<exists>s1. fst (DeleteRepoWebhook E (wsClient sy) owner repo h s1) \<noteq> None))"
  using assms
proof (induction pending arbitrary: m s)
  case Nil
  then show ?case by simp
next
  case (Cons p pending)
  obtain k i where p: "p = (k, i)" by (cases p)
  from remove_stale_Cons [OF Cons.prems(1) [unfolded p]] obtain m1 s1
    where rest: "remove_stale E sy topics admins pending m1 s1 = (m', s')" by metis
  show ?case
  proof (cases "(n, h) \<in> set pending")
    case True
    from Cons.IH [OF rest Cons.prems(2) True Cons.prems(4)] show ?thesis .
  next
    case False
    with Cons.prems(3) p have n: "k = n" "i = h" by auto
    have stays: "map_of m2 n \<noteq> None" if "remove_stale E sy topics admins pending m2 s2 = (m', s')" for m2 s2
      using remove_stale_effect(2) [OF that, of n] Cons.prems(4) by auto
    have topic: "n \<notin> set topics"
    proof
      assume "n \<in> set topics"
      with Cons.prems(1,2) p n
      have "remove_stale E sy topics admins pending (AList.delete n m) s = (m', s')" by simp
      from stays [OF this] show False by simp
    qed
    have "\<exists>s1. fst (DeleteRepoWebhook E (wsClient sy) owner repo h s1) \<noteq> None"
      if on: "owner_and_name n = Some (owner, repo)" for owner repo
    proof (rule exI [of _ s], rule notI)
      assume gone: "fst (DeleteRepoWebhook E (wsClient sy) owner repo h s) = None"
      obtain r s2 where "DeleteRepoWebhook E (wsClient sy) owner repo h s = (r, s2)" by fastforce
      with gone Cons.prems(1,2) p n topic on
      have "remove_stale E sy topics admins pending (AList.delete n m) s2 = (m', s')" by simp
      from stays [OF this] show False by simp
    qed
    with topic show ?thesis by blast
  qed
qed

text \<open>A repository the operator administers is managed, unless its webhook could not be ensured.\<close>

lemma ensureWebhook_managed:
  "ensureWebhook E sy owner repo n m s = Some (None, m', s') \<Longrightarrow> map_of m' n \<noteq> None"
  by (auto simp: ensureWebhook_def split: sum.splits option.splits prod.splits)

lemma ensure_all_managed:
  assumes "ensure_all E sy names m s = Some (m', s')"
    and "n \<in> set names" and "owner_and_name n = Some (owner, repo)"
  shows "map_of m' n \<noteq> None \<or>
    (\<exists>m1 s1 err x. ensureWebhook E sy owner repo n m1 s1 = Some (Some err, x))"
  using assms
proof (induction names arbitrary: m s)
  case Nil
  then show ?case by simp
next
  case (Cons name names)
  show ?case
  proof (cases "name = n")
    case True
    with Cons.prems obtain r m1 s1 where e: "ensureWebhook E sy owner repo n m s = Some (r, m1, s1)"
      and rest: "ensure_all E sy names m1 s1 = Some (m', s')"
      by (auto split: option.splits)
    show ?thesis
    proof (cases r)
      case None
      with e have "map_of m1 n \<noteq> None" using ensureWebhook_managed by blast
      with ensure_all_effect(2) [OF rest, of n] show ?thesis by blast
    next
      case (Some err)
      with e show ?thesis by blast
    qed
  next
    case False
    with Cons.prems(2) have n: "n \<in> set names" by simp
    obtain m1 s1 where "ensure_all E sy names m1 s1 = Some (m', s')"
      using Cons.prems(1) by (auto split: option.splits prod.splits)
    from Cons.IH [OF this n Cons.prems(3)] show ?thesis .
  qed
qed

lemma RunOnce_cases:
  assumes "RunOnce E sy s = Some (Inr snap, sy', s')"
  obtains repos s1 m s2 where "SearchReposByTopic E (wsClient sy) (wsTopic sy) s = Some (Inr repos, s1)"
    and "ensure_all E sy (admin_names repos) (wsManagedRepos sy) s1 = Some (m, s2)"
    and "remove_stale E sy (topic_names repos) (admin_names repos) m m s2 = (snap, s')"
    and "sy' = sy\<lparr>wsManagedRepos := snap\<rparr>"
  using assms by (auto simp: RunOnce_def split: option.splits sum.splits prod.splits)

lemma RunOnce_sends:
  assumes "RunOnce E sy s = Some (r, sy', s')"
  shows "sends E (\<lambda>_. True) s s'"
proof (cases r)
  case (Inl err)
  with assms obtain x where "SearchReposByTopic E (wsClient sy) (wsTopic sy) s = Some (x, s')"
    by (auto simp: RunOnce_def split: option.splits sum.splits prod.splits)
  from sends_mono [OF Search_sends [OF this]] show ?thesis by simp
next
  case (Inr snap)
  from RunOnce_cases [OF assms [unfolded Inr]] obtain repos s1 m s2 where
    search: "SearchReposByTopic E (wsClient sy) (wsTopic sy) s = Some (Inr repos, s1)"
    and ensured: "ensure_all E sy (admin_names repos) (wsManagedRepos sy) s1 = Some (m, s2)"
    and stale: "remove_stale E sy (topic_names repos) (admin_names repos) m m s2 = (snap, s')" by metis
  have "sends E (\<lambda>_. True) s s1" by (rule sends_mono [OF Search_sends [OF search]]) simp
  moreover have "sends E (\<lambda>_. True) s1 s2" by (rule sends_mono [OF ensure_all_effect(4) [OF ensured]]) simp
  moreover have "sends E (\<lambda>_. True) s2 s'" by (rule sends_mono [OF remove_stale_effect(5) [OF stale]]) simp
  ultimately show ?thesis using sends_trans by blast
qed


text \<open>A platform that knows no repository and removes every webhook.\<close>

definition empty_platform :: "memory env" where
  "empty_platform = memory_env\<lparr>eHttpDo := (\<lambda>c m.
     (Inr (if hcMethod c = ''DELETE'' then \<lparr>haStatus = 204, haBody = []\<rparr>
           else \<lparr>haStatus = 200, haBody = ''{}''\<rparr>), m))\<rparr>"

definition example_syncer :: webhook_syncer where
  "example_syncer = (NewWebhookSyncer \<lparr>fcBaseURL = ''https://f'', fcToken = ''t''\<rparr> ''https://o'' [] ''renovate'' [])
     \<lparr>wsManagedRepos := [(''o/r'', 7)]\<rparr>"

lemma empty_search:
  "search_page empty_platform c topic page s =
     (Inr [], s\<lparr>syHttp := syHttp s @ [forgejo_request c ''GET'' (search_path topic page) None]\<rparr>)"
proof -
  have "decode_body (dec_struct [(''data'', dec_slice zero_repository dec_repository)]) [] ''{}'' = Some []"
    by code_simp
  then show ?thesis
    by (simp add: search_page_def call_decode_def doRequest_def http_do_def empty_platform_def
      decodeResponse_def forgejo_request_def)
qed

lemma empty_run:
  "RunOnce empty_platform example_syncer s = Some (Inr [], example_syncer\<lparr>wsManagedRepos := []\<rparr>,
     s\<lparr>syHttp := syHttp s @
       [forgejo_request (wsClient example_syncer) ''GET'' (search_path (wsTopic example_syncer) 1) None,
        forgejo_request (wsClient example_syncer) ''DELETE'' (delete_path ''o'' ''r'' 7) None]\<rparr>)"
proof -
  have "all_pages (search_page empty_platform c topic) 1 [] s = Some (Inr ([] @ []),
      s\<lparr>syHttp := syHttp s @ [forgejo_request c ''GET'' (search_path topic 1) None]\<rparr>)" for c topic
    by (rule all_pages_end [OF empty_search]) (simp add: page_limit_def)
  moreover have "owner_and_name ''o/r'' = Some (''o'', ''r'')" by code_simp
  ultimately show ?thesis
    by (simp add: RunOnce_def SearchReposByTopic_def admin_names_def topic_names_def example_syncer_def
      NewWebhookSyncer_def DeleteRepoWebhook_def doRequest_def http_do_def empty_platform_def
      forgejo_request_def)
qed


end
