(* ===== verification/Url_Query.thy ===== *)
theory Url_Query
  imports Http_Client "HOL-Library.List_Lexorder" "HOL-Library.Char_ord"
begin

text \<open>
  The queries of \<open>net/url\<close>: reading a query into values, changing one, and writing them in the
  order of their keys. What is written is read back, so a name put into a webhook's URL reaches the
  handler that is called through it.
\<close>

section \<open>Values\<close>

text \<open>The values of a query in order; a key may occur more than once.\<close>

type_synonym url_values = "(string \<times> string) list"

text \<open>\<open>strings.Cut(piece, "=")\<close>.\<close>

definition cut_value :: "string \<Rightarrow> string \<times> string" where
  "cut_value piece =
     (case strings_SplitN2 CHR ''='' piece of [k, v] \<Rightarrow> (k, v) | _ \<Rightarrow> (piece, []))"

text \<open>\<open>URL.Query()\<close>: pieces that are empty or malformed are dropped.\<close>

fun parse_pieces :: "string list \<Rightarrow> url_values" where
  "parse_pieces [] = []"
| "parse_pieces (piece # pieces) =
     (if CHR '';'' \<in> set piece \<or> piece = [] then parse_pieces pieces
      else let (k, v) = cut_value piece
           in case (query_unescape k, query_unescape v) of
                (Some k, Some v) \<Rightarrow> (k, v) # parse_pieces pieces
              | _ \<Rightarrow> parse_pieces pieces)"

definition parse_query :: "string \<Rightarrow> url_values" where
  "parse_query s = parse_pieces (strings_Split CHR ''&'' s)"

definition values_Set :: "string \<Rightarrow> string \<Rightarrow> url_values \<Rightarrow> url_values" where
  "values_Set k v vs = filter (\<lambda>(k', _). k' \<noteq> k) vs @ [(k, v)]"

definition values_Get :: "url_values \<Rightarrow> string \<Rightarrow> string" where
  "values_Get vs k = (case map_of vs k of None \<Rightarrow> [] | Some v \<Rightarrow> v)"

definition values_Encode :: "url_values \<Rightarrow> string" where
  "values_Encode vs = encode_values (sort_key fst vs)"

section \<open>Round trip\<close>

definition value_char :: "char \<Rightarrow> bool" where
  "value_char c \<longleftrightarrow> c \<noteq> CHR ''&'' \<and> c \<noteq> CHR ''='' \<and> c \<noteq> CHR '';''"

lemma hex_digits_value: "list_all (\<lambda>n. value_char (''0123456789ABCDEF'' ! n)) [0..<16]"
  by code_simp

lemma percent_value: "c' \<in> set (percent c) \<Longrightarrow> value_char c'"
proof -
  have "(of_char c :: nat) < 256" by simp
  then have "of_char c div 16 < (16 :: nat)" by (simp add: less_mult_imp_div_less)
  then have "value_char (''0123456789ABCDEF'' ! (of_char c div 16))"
    and "value_char (''0123456789ABCDEF'' ! (of_char c mod 16))"
    using hex_digits_value by (simp_all only: list_all_iff set_upt atLeastLessThan_iff ball_simps) auto
  moreover have "value_char CHR ''%''" by (simp add: value_char_def)
  ultimately show "c' \<in> set (percent c) \<Longrightarrow> value_char c'"
    unfolding percent_def by (auto simp del: nth_Cons_numeral)
qed

lemma unreserved_value: "unreserved c \<Longrightarrow> value_char c"
  by (auto simp: unreserved_def value_char_def)

lemma escape_value: "c \<in> set (query_escape s) \<Longrightarrow> value_char c"
proof -
  assume "c \<in> set (query_escape s)"
  then obtain d where "c \<in> set (if unreserved d then [d] else if d = CHR '' '' then ''+'' else percent d)"
    unfolding query_escape_def set_concat set_map by blast
  moreover have "value_char CHR ''+''" by (simp add: value_char_def)
  ultimately show ?thesis
    using percent_value [of c d] unreserved_value [of d] by (auto split: if_splits)
qed

lemma Split_Join:
  "ws \<noteq> [] \<Longrightarrow> (\<forall>w \<in> set ws. sep \<notin> set w) \<Longrightarrow> strings_Split sep (strings_Join ws [sep]) = ws"
proof (induction ws)
  case Nil
  then show ?case by simp
next
  case (Cons w ws)
  have word: "sep \<notin> set v \<Longrightarrow> strings_Split sep v = [v]" for v
    by (induction v) auto
  have first: "sep \<notin> set v \<Longrightarrow> strings_Split sep (v @ sep # rest) = v # strings_Split sep rest" for v rest
    by (induction v) auto
  show ?case
  proof (cases ws)
    case Nil
    with Cons.prems word show ?thesis by simp
  next
    case (Cons v vs)
    with Cons.IH Cons.prems first [of w "strings_Join ws [sep]"] show ?thesis by simp
  qed
qed

lemma cut_escaped:
  "cut_value (query_escape k @ ''='' @ query_escape v) = (query_escape k, query_escape v)"
proof -
  have no: "\<forall>c \<in> set (query_escape k). c \<noteq> CHR ''=''"
    using escape_value by (auto simp: value_char_def)
  then have "takeWhile (\<lambda>c. c \<noteq> CHR ''='') (query_escape k @ CHR ''='' # query_escape v) = query_escape k"
    and "dropWhile (\<lambda>c. c \<noteq> CHR ''='') (query_escape k @ CHR ''='' # query_escape v) =
      CHR ''='' # query_escape v"
    by (simp_all add: takeWhile_append2 dropWhile_append2)
  then show ?thesis by (simp add: cut_value_def strings_SplitN2_def)
qed

lemma parse_pieces_escaped:
  "parse_pieces (map (\<lambda>(k, v). query_escape k @ ''='' @ query_escape v) vs) = vs"
proof (induction vs)
  case Nil
  then show ?case by simp
next
  case (Cons x vs)
  obtain k v where x: "x = (k, v)" by (cases x)
  have "CHR '';'' \<notin> set (query_escape k @ ''='' @ query_escape v)"
    using escape_value by (auto simp: value_char_def)
  with Cons show ?case
    by (simp add: x cut_escaped [simplified] query_unescape_escape)
qed

lemma parse_encode: "parse_query (values_Encode vs) = sort_key fst vs"
proof (cases "vs = []")
  case True
  then show ?thesis by (simp add: values_Encode_def encode_values_def parse_query_def)
next
  case False
  let ?f = "\<lambda>(k, v). query_escape k @ ''='' @ query_escape v"
  have "sort_key fst vs \<noteq> []" using False by (metis length_0_conv length_sort)
  then have "map ?f (sort_key fst vs) \<noteq> []" by simp
  moreover have "\<forall>w \<in> set (map ?f (sort_key fst vs)). CHR ''&'' \<notin> set w"
    using escape_value by (auto simp: value_char_def)
  ultimately have "strings_Split CHR ''&'' (strings_Join (map ?f (sort_key fst vs)) [CHR ''&'']) =
      map ?f (sort_key fst vs)" by (rule Split_Join)
  then show ?thesis
    by (simp only: values_Encode_def encode_values_def parse_query_def parse_pieces_escaped)
qed

lemma map_of_filter_key: "map_of (filter (\<lambda>(k', _). k' = k) vs) k = map_of vs k"
  by (induction vs) auto

lemma map_of_sort_fst: "map_of (sort_key fst vs) k = map_of vs k"
proof -
  have "filter (\<lambda>(k', _). k' = k) (sort_key fst vs) = sort_key fst (filter (\<lambda>(k', _). k' = k) vs)"
    by (rule sort_key_filter_prefix)
  also have "\<dots> = filter (\<lambda>(k', _). k' = k) vs"
    by (rule sort_key_id_if_sorted) (induction vs, auto)
  finally show ?thesis by (metis map_of_filter_key)
qed

lemma map_of_Set: "map_of (values_Set k v vs) k' = (if k' = k then Some v else map_of vs k')"
  by (induction vs) (auto simp: values_Set_def map_add_def)

lemma Get_parse_encode: "values_Get (parse_query (values_Encode vs)) k = values_Get vs k"
  by (simp add: parse_encode values_Get_def map_of_sort_fst)

lemma Get_Set: "values_Get (values_Set k v vs) k' = (if k' = k then v else values_Get vs k')"
  by (simp add: values_Get_def map_of_Set)

end
