(* ===== verification/Controller.thy ===== *)
theory Controller
  imports Forgejo_Sync Git_Provider Scheduler Discovery Url_Query
begin

text \<open>
  The reconciler of the custom resources, \<open>src/src/controllers/renovatejob_controller.go\<close>: it keeps
  one schedule and at most one webhook syncer per resource, and what it schedules is the run that
  discovers the projects of a resource, marks them as scheduled and synchronises its webhooks.

  A Go closure is the data it captures: the function given to the scheduler is \<open>schedule_fn\<close>,
  interpreted by \<open>run_schedule\<close>. Reconciling a resource is one step; so is a run of a schedule,
  during which other writers may act on the cluster as the laws of the environment allow. The parser
  of URLs is a parameter, of which the code uses the three parts of \<open>parsed_url\<close>.
\<close>

section \<open>State\<close>

record schedule_fn =
  sfName :: string
  sfJobName :: string
  sfJobNamespace :: string

record syncer_entry =
  weSyncer :: webhook_syncer
  weFingerprint :: string

record ('w, 'c) controller =
  coScheduler :: "('w, 'c) scheduler"
  coSyncers :: "string \<rightharpoonup> syncer_entry"

abbreviation co_sys :: "('w, 'c) controller \<Rightarrow> 'w sys" where
  "co_sys co \<equiv> scSys (coScheduler co)"

definition on_sys :: "('w sys \<Rightarrow> 'w sys) \<Rightarrow> ('w, 'c) controller \<Rightarrow> ('w, 'c) controller" where
  "on_sys f co = co\<lparr>coScheduler := (coScheduler co)\<lparr>scSys := f (co_sys co)\<rparr>\<rparr>"

definition with_sys :: "'w sys \<Rightarrow> ('w, 'c) controller \<Rightarrow> ('w, 'c) controller" where
  "with_sys s = on_sys (\<lambda>_. s)"

lemma on_sys_frame [simp]:
  "scEntries (coScheduler (on_sys f co)) = scEntries (coScheduler co)"
  "scCron (coScheduler (on_sys f co)) = scCron (coScheduler co)"
  "coSyncers (on_sys f co) = coSyncers co"
  "co_sys (on_sys f co) = f (co_sys co)"
  by (simp_all add: on_sys_def)

lemma with_sys_frame [simp]:
  "scEntries (coScheduler (with_sys s co)) = scEntries (coScheduler co)"
  "scCron (coScheduler (with_sys s co)) = scCron (coScheduler co)"
  "coSyncers (with_sys s co) = coSyncers co"
  "co_sys (with_sys s co) = s"
  by (simp_all add: with_sys_def)

section \<open>The saved state of a syncer\<close>

definition webhookSyncStateAnnotation :: string where
  "webhookSyncStateAnnotation = ''renovate-operator.mogenius.com/webhook-sync-managed-repos''"

text \<open>\<open>json.Unmarshal\<close> into a map of integers; \<open>None\<close> is an error or the nil map of \<open>null\<close>.\<close>

fun dec_entries :: "(string \<times> json) list \<Rightarrow> managed \<Rightarrow> managed option" where
  "dec_entries [] m = Some m"
| "dec_entries ((k, v) # ms) m =
     (case dec_int v 0 of None \<Rightarrow> None | Some i \<Rightarrow> dec_entries ms (AList.update k i m))"

definition decode_state :: "string \<Rightarrow> managed option" where
  "decode_state raw =
     (case json_unmarshal raw of Some (JObj ms) \<Rightarrow> dec_entries ms [] | _ \<Rightarrow> None)"

text \<open>\<open>json.Marshal\<close> of the map writes its keys in order.\<close>

definition state_json :: "managed \<Rightarrow> json" where
  "state_json m = JObj (map (\<lambda>(k, i). (k, JNum (show_int i))) (sort_key fst m))"

definition loadWebhookSyncState :: "renovate_job \<Rightarrow> managed option" where
  "loadWebhookSyncState renovateJob =
     (case rjAnnotations renovateJob webhookSyncStateAnnotation of
        None \<Rightarrow> None
      | Some raw \<Rightarrow> if raw = [] then None else decode_state raw)"

text \<open>The syncer after the call: rolled back to what was saved before when saving fails.\<close>

definition saveWebhookSyncState ::
    "'w env \<Rightarrow> string \<Rightarrow> string \<Rightarrow> webhook_syncer \<Rightarrow> managed \<Rightarrow> 'w sys \<Rightarrow> webhook_syncer \<times> 'w sys" where
  "saveWebhookSyncState E jobName jobNamespace sy state s =
     (case GetRenovateJob E jobName jobNamespace s of
        Inl err \<Rightarrow> (sy, s)
      | Inr rj \<Rightarrow>
          let newVal = json_marshal (state_json state);
              previousState = loadWebhookSyncState rj;
              updated = rj\<lparr>rjAnnotations :=
                (rjAnnotations rj)(webhookSyncStateAnnotation \<mapsto> newVal)\<rparr>
          in if rjAnnotations rj webhookSyncStateAnnotation = Some newVal then (sy, s)
             else case kube_write (eUpdateObject E updated) (ObjectUpdated updated) s of
                    (None, s) \<Rightarrow> (sy, s)
                  | (Some err, s) \<Rightarrow>
                      (case previousState of None \<Rightarrow> sy | Some m \<Rightarrow> SetManagedRepos m sy, s))"

section \<open>The webhook syncer of a resource\<close>

definition ref_text :: "secret_key_reference option \<Rightarrow> string" where
  "ref_text r = (case r of None \<Rightarrow> [] | Some x \<Rightarrow> skName x @ ''/'' @ skKey x)"

definition sync_topic :: "renovate_webhook_forgejo_sync \<Rightarrow> string \<Rightarrow> string" where
  "sync_topic cfg defaultTopic = (if fsTopic cfg = [] then defaultTopic else fsTopic cfg)"

definition syncFingerprint ::
    "renovate_webhook_forgejo_sync \<Rightarrow> string \<Rightarrow> string \<Rightarrow> string \<Rightarrow> string \<Rightarrow> string" where
  "syncFingerprint cfg endpoint defaultTopic namespace jobName =
     strings_Join [endpoint, fsWebhookURL cfg, sync_topic cfg defaultTopic,
       strings_Join (fsEvents cfg) '','', ref_text (fsTokenSecretRef cfg),
       ref_text (fsAuthTokenSecretRef cfg), namespace @ ''/'' @ jobName] ''|''"

definition readSecretKey ::
    "'w env \<Rightarrow> secret_key_reference option \<Rightarrow> string \<Rightarrow> 'w sys \<Rightarrow> go_error + string" where
  "readSecretKey E ref namespace s =
     (case ref of
        None \<Rightarrow> Inl (ErrMsg ''secret reference is nil'')
      | Some r \<Rightarrow>
          (case eGetSecret E namespace (skName r) (syWorld s) of
             Inl err \<Rightarrow> Inl (ErrWrap (''reading secret '' @ skName r) err)
           | Inr data \<Rightarrow>
               (case data (skKey r) of
                  None \<Rightarrow> Inl (ErrMsg (''key '' @ skKey r @ '' not found in secret '' @ skName r))
                | Some val \<Rightarrow> Inr val)))"

record parsed_url =
  puBase :: string
  puRawQuery :: string
  puFragment :: string

type_synonym url_parser = "string \<Rightarrow> go_error + parsed_url"

definition url_String :: "parsed_url \<Rightarrow> string" where
  "url_String u = puBase u @ (if puRawQuery u = [] then [] else ''?'' @ puRawQuery u) @ puFragment u"

text \<open>The URL that Forgejo calls names the resource in its query.\<close>

definition webhook_query :: "renovate_job \<Rightarrow> string \<Rightarrow> string" where
  "webhook_query rj rawQuery =
     values_Encode (values_Set ''job'' (rjName rj)
       (values_Set ''namespace'' (rjNamespace rj) (parse_query rawQuery)))"

definition sync_config :: "renovate_job \<Rightarrow> renovate_webhook_forgejo_sync option" where
  "sync_config rj =
     (case Option.bind (Option.bind (spWebhook (rjSpec rj)) whForgejo) wfSync of
        None \<Rightarrow> None
      | Some cfg \<Rightarrow> if fsEnabled cfg then Some cfg else None)"

text \<open>A syncer made from the configuration; \<open>None\<close> where the code logs an error and returns.\<close>

definition new_syncer ::
    "'w env \<Rightarrow> url_parser \<Rightarrow> renovate_job \<Rightarrow> renovate_webhook_forgejo_sync \<Rightarrow> string \<Rightarrow> 'w sys \<Rightarrow>
     webhook_syncer option" where
  "new_syncer E U rj cfg providerEndpoint s =
     (if fsTokenSecretRef cfg = None then None
      else case readSecretKey E (fsTokenSecretRef cfg) (rjNamespace rj) s of
             Inl err \<Rightarrow> None
           | Inr forgejoToken \<Rightarrow>
               (case (if fsAuthTokenSecretRef cfg = None then Inr []
                      else readSecretKey E (fsAuthTokenSecretRef cfg) (rjNamespace rj) s) of
                  Inl err \<Rightarrow> None
                | Inr authToken \<Rightarrow>
                    (case U (fsWebhookURL cfg) of
                       Inl err \<Rightarrow> None
                     | Inr parsed \<Rightarrow>
                         if providerEndpoint = [] then None
                         else Some (NewWebhookSyncer
                                \<lparr>fcBaseURL = providerEndpoint, fcToken = forgejoToken\<rparr>
                                (url_String (parsed\<lparr>puRawQuery := webhook_query rj (puRawQuery parsed)\<rparr>))
                                authToken (sync_topic cfg (spDiscoverTopics (rjSpec rj)))
                                (fsEvents cfg)))))"

definition ensureWebhookSyncer ::
    "'w env \<Rightarrow> url_parser \<Rightarrow> renovate_job \<Rightarrow> 'w sys \<Rightarrow> (string \<rightharpoonup> syncer_entry) \<Rightarrow>
     string \<rightharpoonup> syncer_entry" where
  "ensureWebhookSyncer E U rj s syncers =
     (let name = Fullname rj
      in case sync_config rj of
           None \<Rightarrow> syncers(name := None)
         | Some syncCfg \<Rightarrow>
             let providerEndpoint = snd (GetPlatformAndEndpoint (spProvider (rjSpec rj)));
                 fp = syncFingerprint syncCfg providerEndpoint (spDiscoverTopics (rjSpec rj))
                        (rjNamespace rj) (rjName rj)
             in if map_option weFingerprint (syncers name) = Some fp then syncers
                else case new_syncer E U rj syncCfg providerEndpoint s of
                       None \<Rightarrow> syncers
                     | Some syncer \<Rightarrow>
                         let syncer = (case syncers name of
                               Some oldEntry \<Rightarrow> SetManagedRepos (ManagedRepos (weSyncer oldEntry)) syncer
                             | None \<Rightarrow> (case loadWebhookSyncState rj of
                                          None \<Rightarrow> syncer
                                        | Some state \<Rightarrow> if length state > 0 then SetManagedRepos state syncer
                                                        else syncer))
                         in syncers(name \<mapsto> \<lparr>weSyncer = syncer, weFingerprint = fp\<rparr>))"

section \<open>The scheduled run\<close>

definition not_running :: "project_status \<Rightarrow> bool" where
  "not_running p \<longleftrightarrow> psStatus p \<noteq> JobStatusRunning"

text \<open>The entry is shared: what the run does to its syncer is in the table afterwards.\<close>

definition sync_webhooks ::
    "'w env \<Rightarrow> schedule_fn \<Rightarrow> ('w, 'c) controller \<Rightarrow> ('w, 'c) controller option" where
  "sync_webhooks E f co =
     (case coSyncers co (sfName f) of
        None \<Rightarrow> Some co
      | Some entry \<Rightarrow>
          (case RunOnce E (weSyncer entry) (co_sys co) of
             None \<Rightarrow> None
           | Some (Inl err, _, s) \<Rightarrow> Some (with_sys s co)
           | Some (Inr state, sy, s) \<Rightarrow>
               (case saveWebhookSyncState E (sfJobName f) (sfJobNamespace f) sy state s of
                  (sy, s) \<Rightarrow>
                    Some (with_sys s (co\<lparr>coSyncers := (coSyncers co)
                      (sfName f \<mapsto> entry\<lparr>weSyncer := sy\<rparr>)\<rparr>)))))"

definition fn_id :: "schedule_fn \<Rightarrow> renovate_job_identifier" where
  "fn_id f = \<lparr>riName = sfJobName f, riNamespace = sfJobNamespace f\<rparr>"

text \<open>
  \<open>None\<close> is a run that never returns: a wait for the discovery job, or a listing of pages, that
  never ends. Every error ends the run and is only logged, but for the one of marking the projects.
\<close>

definition run_schedule ::
    "'w env \<Rightarrow> schedule_fn \<Rightarrow> ('w, 'c) controller \<Rightarrow> (unit go_run \<times> ('w, 'c) controller) option" where
  "run_schedule E f co =
     (case GetRenovateJob E (sfJobName f) (sfJobNamespace f) (co_sys co) of
        Inl err \<Rightarrow> Some (Returns (), co)
      | Inr currentJob \<Rightarrow>
          (case Discover E currentJob (co_sys co) of
             None \<Rightarrow> None
           | Some (Panics m, s) \<Rightarrow> Some (Panics m, with_sys s co)
           | Some (Returns (Inl err), s) \<Rightarrow> Some (Returns (), with_sys s co)
           | Some (Returns (Inr projects), s) \<Rightarrow>
               (case skip_forks E currentJob projects s of
                  (Inl err, s) \<Rightarrow> Some (Returns (), with_sys s co)
                | (Inr projects, s) \<Rightarrow>
                    (case ReconcileProjects E (fn_id f) projects s of
                       (Some err, s) \<Rightarrow> Some (Returns (), with_sys s co)
                     | (None, s) \<Rightarrow>
                         (case UpdateProjectStatusBatched E not_running (fn_id f)
                                 (mk_update JobStatusScheduled 0) s of
                            (_, s) \<Rightarrow>
                              map_option (Pair (Returns ()))
                                (sync_webhooks E f (with_sys s co)))))))"

text \<open>What the cron library runs: the closure inside the register of its health.\<close>

definition run_cron_task ::
    "'w env \<Rightarrow> (schedule_fn, 'c) cron_lib \<Rightarrow> schedule_fn cron_task \<Rightarrow> ('w, 'c) controller \<Rightarrow>
     (unit go_run \<times> ('w, 'c) controller) option" where
  "run_cron_task E L t co =
     execute_schedule E L on_sys (ctKey t) (ctSchedule t) (run_schedule E (ctFn t)) co"

section \<open>Reconciling\<close>

definition schedule_fn_of :: "renovate_job \<Rightarrow> schedule_fn" where
  "schedule_fn_of rj =
     \<lparr>sfName = Fullname rj, sfJobName = rjName rj, sfJobNamespace = rjNamespace rj\<rparr>"

definition createScheduler ::
    "'w env \<Rightarrow> (schedule_fn, 'c) cron_lib \<Rightarrow> renovate_job \<Rightarrow> ('w, 'c) controller \<Rightarrow> ('w, 'c) controller"
where
  "createScheduler E L rj co =
     co\<lparr>coScheduler := snd (AddScheduleReplaceExisting E L (spSchedule (rjSpec rj)) (Fullname rj)
          (schedule_fn_of rj) (coScheduler co))\<rparr>"

text \<open>The time after which the library asks again, with the error of the request.\<close>

definition requeue :: time where
  "requeue = 60 * second"

definition Reconcile ::
    "'w env \<Rightarrow> (schedule_fn, 'c) cron_lib \<Rightarrow> url_parser \<Rightarrow> string \<Rightarrow> string \<Rightarrow> ('w, 'c) controller \<Rightarrow>
     (time \<times> go_error option) \<times> ('w, 'c) controller" where
  "Reconcile E L U name namespace co =
     (case GetRenovateJob E name namespace (co_sys co) of
        Inr renovateJob \<Rightarrow>
          ((requeue, None), createScheduler E L renovateJob
             (co\<lparr>coSyncers := ensureWebhookSyncer E U renovateJob (co_sys co) (coSyncers co)\<rparr>))
      | Inl err \<Rightarrow>
          if is_not_found err then
            (let key = name @ ''-'' @ namespace
             in ((requeue, None), co\<lparr>coScheduler := RemoveSchedule E L key (coScheduler co),
                   coSyncers := (coSyncers co)(key := None)\<rparr>))
          else ((requeue, Some err), co))"

text \<open>\<open>SetupWithManager\<close>: no syncers yet.\<close>

definition SetupWithManager :: "('w, 'c) scheduler \<Rightarrow> ('w, 'c) controller" where
  "SetupWithManager sc = \<lparr>coScheduler = sc, coSyncers = Map.empty\<rparr>"

end
