(* ===== verification/Controller_Properties.thy ===== *)
theory Controller_Properties
  imports Controller Webhook Memory_Server
begin

text \<open>
  Properties of the reconciler: the schedule a resource has after a request, the agreement of the
  scheduler's table with the cron library in every reachable state, what two resources with one full
  name do to each other, what a run of a schedule does, and what a saved syncer state restores.
\<close>

section \<open>Lemmas\<close>

text \<open>A run of a schedule leaves the table of schedules and the library alone.\<close>

definition same_table :: "('w, 'c) controller \<Rightarrow> ('w, 'c) controller \<Rightarrow> bool" where
  "same_table co co' \<longleftrightarrow> scEntries (coScheduler co') = scEntries (coScheduler co) \<and>
     scCron (coScheduler co') = scCron (coScheduler co)"

lemma same_table_simps [simp]:
  "same_table co co" "same_table co (on_sys f co')  = same_table co co'"
  "same_table (on_sys f co) co' = same_table co co'"
  "same_table co (with_sys s co') = same_table co co'"
  by (simp_all add: same_table_def)

lemma sync_webhooks_table: "sync_webhooks E f co = Some co' \<Longrightarrow> same_table co co'"
  by (auto simp: sync_webhooks_def same_table_def split: option.splits sum.splits prod.splits)

lemma run_schedule_table:
  assumes "run_schedule E f co = Some (r, co')"
  shows "same_table co co'"
proof -
  consider "co' = co" | s where "co' = with_sys s co" | s where "sync_webhooks E f (with_sys s co) = Some co'"
    using assms by (auto simp: run_schedule_def split: option.splits sum.splits prod.splits go_run.splits)
  then show ?thesis
  proof cases
    case 3
    from sync_webhooks_table [OF this] show ?thesis by (simp add: same_table_def)
  qed simp_all
qed

lemma run_cron_task_table: "run_cron_task E L t co = Some (r, co') \<Longrightarrow> same_table co co'"
  using run_schedule_table [of E "ctFn t" "on_sys (schedule_health E L (ctKey t) (ctSchedule t) True) co"]
  by (auto simp: run_cron_task_def execute_schedule_def)

lemma same_table_agree: "same_table co co' \<Longrightarrow>
   sched_agree J (coScheduler co') = sched_agree J (coScheduler co)"
  by (simp add: sched_agree_def same_table_def)

text \<open>The name a resource is scheduled under.\<close>

definition request_key :: "string \<Rightarrow> string \<Rightarrow> string" where
  "request_key name namespace = name @ ''-'' @ namespace"

lemma Reconcile_cases:
  assumes "Reconcile E L U name namespace co = (r, co')"
  obtains (found) rj e sc where "GetRenovateJob E name namespace (co_sys co) = Inr rj"
      and "r = (requeue, None)"
      and "AddScheduleReplaceExisting E L (spSchedule (rjSpec rj)) (Fullname rj) (schedule_fn_of rj)
        (coScheduler co) = (e, sc)"
      and "co' = co\<lparr>coScheduler := sc,
        coSyncers := ensureWebhookSyncer E U rj (co_sys co) (coSyncers co)\<rparr>"
    | (gone) err where "GetRenovateJob E name namespace (co_sys co) = Inl err" and "is_not_found err"
      and "r = (requeue, None)"
      and "co' = co\<lparr>coScheduler := RemoveSchedule E L (request_key name namespace) (coScheduler co),
        coSyncers := (coSyncers co)(request_key name namespace := None)\<rparr>"
    | (failed) err where "GetRenovateJob E name namespace (co_sys co) = Inl err" and "\<not> is_not_found err"
      and "r = (requeue, Some err)" and "co' = co"
proof (cases "GetRenovateJob E name namespace (co_sys co)")
  case (Inl err)
  with assms gone failed show ?thesis
    by (auto simp: Reconcile_def request_key_def Let_def split: if_splits)
next
  case (Inr rj)
  obtain e sc where "AddScheduleReplaceExisting E L (spSchedule (rjSpec rj)) (Fullname rj)
      (schedule_fn_of rj) (coScheduler co) = (e, sc)" by fastforce
  with assms Inr found [of rj e sc] show ?thesis
    by (auto simp: Reconcile_def createScheduler_def)
qed

lemma ensureWebhookSyncer_other:
  "n \<noteq> Fullname rj \<Longrightarrow> ensureWebhookSyncer E U rj s syncers n = syncers n"
  by (auto simp: ensureWebhookSyncer_def Let_def split: option.split)

section \<open>Schedules\<close>


text \<open>A cron library kept in memory: it refuses the empty expression.\<close>

type_synonym table_cron = "nat \<times> (nat \<rightharpoonup> string \<times> schedule_fn cron_task)"

definition cron_table :: "(schedule_fn, table_cron) cron_lib" where
  "cron_table =
     \<lparr>clAddFunc = (\<lambda>e t (n, m). if e = [] then (Inl (ErrOther ''expression''), (n, m))
                               else (Inr n, (Suc n, m(n \<mapsto> (e, t))))),
      clRemove = (\<lambda>i (n, m). (n, m(i := None))),
      clStart = (\<lambda>c. c), clStop = (\<lambda>c. c), clNext = (\<lambda>e t. if e = [] then None else Some (t + 60 * second))\<rparr>"

definition table_view :: "(schedule_fn, table_cron) cron_view" where
  "table_view = (\<lambda>(n, m) i. if i < n then m i else None)"

lemma table_laws: "cron_laws table_view cron_table"
  by (auto simp: cron_laws_def cron_table_def table_view_def fun_eq_iff split: if_splits)

lemma table_empty: "table_view (0, Map.empty) = Map.empty"
  by (simp add: table_view_def fun_eq_iff)

definition no_urls :: url_parser where
  "no_urls s = Inr \<lparr>puBase = s, puRawQuery = [], puFragment = []\<rparr>"

definition scheduled_job :: "string \<Rightarrow> string \<Rightarrow> string \<Rightarrow> renovate_job" where
  "scheduled_job name namespace expr = example_job\<lparr>rjName := name, rjNamespace := namespace,
     rjSpec := zero_spec\<lparr>spSchedule := expr\<rparr>\<rparr>"

definition job_sys :: "renovate_job list \<Rightarrow> memory sys" where
  "job_sys rjs = example_sys\<lparr>syWorld := example_memory\<lparr>meJobs :=
     map_of (map (\<lambda>rj. ((rjName rj, rjNamespace rj), rj)) rjs)\<rparr>\<rparr>"

definition idle_controller :: "memory sys \<Rightarrow> (memory, table_cron) controller" where
  "idle_controller s = SetupWithManager (NewScheduler (0, Map.empty) s)"

lemma first_reconcile:
  assumes "rjName rj = n" and "rjNamespace rj = ns" and "eGetRenovateJob memory_env n ns (syWorld s) = Inr rj"
    and "spSchedule (rjSpec rj) = e" and "e \<noteq> []"
  shows "scEntries (coScheduler (snd (Reconcile memory_env cron_table U n ns (idle_controller s)))) =
      [Fullname rj \<mapsto> (0, e)]"
    and "scCron (coScheduler (snd (Reconcile memory_env cron_table U n ns (idle_controller s)))) =
      (1, [0 \<mapsto> (e, \<lparr>ctKey = Fullname rj, ctSchedule = e, ctFn = schedule_fn_of rj\<rparr>)])"
    and "syWorld (co_sys (snd (Reconcile memory_env cron_table U n ns (idle_controller s)))) = syWorld s"
  using assms by (simp_all add: Reconcile_def GetRenovateJob_def loadRenovateJob_def idle_controller_def
      SetupWithManager_def NewScheduler_def createScheduler_def AddScheduleReplaceExisting_def
      AddSchedule_def cron_table_def schedule_health_def set_scheduler_health_def)


section \<open>Reachable states\<close>

text \<open>
  The operator's life: the set-up, the start and stop of the scheduler, requests, runs of scheduled
  tasks, and whatever the rest of the operator does to the state they share.
\<close>

inductive controller_reach ::
    "'w env \<Rightarrow> (schedule_fn, 'c) cron_lib \<Rightarrow> url_parser \<Rightarrow> 'c \<Rightarrow> ('w, 'c) controller \<Rightarrow> bool"
  for E L U c0 where
  set_up: "controller_reach E L U c0 (SetupWithManager (NewScheduler c0 s))"
| started: "controller_reach E L U c0 co \<Longrightarrow>
    controller_reach E L U c0 (co\<lparr>coScheduler := Start_scheduler E L (coScheduler co)\<rparr>)"
| stopped: "controller_reach E L U c0 co \<Longrightarrow>
    controller_reach E L U c0 (co\<lparr>coScheduler := Stop_scheduler E L (coScheduler co)\<rparr>)"
| reconciled: "controller_reach E L U c0 co \<Longrightarrow> Reconcile E L U name namespace co = (r, co') \<Longrightarrow>
    controller_reach E L U c0 co'"
| fired: "controller_reach E L U c0 co \<Longrightarrow> run_cron_task E L t co = Some (Returns (), co') \<Longrightarrow>
    controller_reach E L U c0 co'"
| others: "controller_reach E L U c0 co \<Longrightarrow> controller_reach E L U c0 (with_sys s co)"

lemma agree_start:
  assumes "cron_laws J L" and "sched_agree J sc"
  shows "sched_agree J (Start_scheduler E L sc)" and "sched_agree J (Stop_scheduler E L sc)"
  using assms by (simp_all add: sched_agree_def cron_laws_def Start_scheduler_def Stop_scheduler_def)

text \<open>A task in the library runs the resource it is named after.\<close>

definition owns_task :: "schedule_fn cron_task \<Rightarrow> bool" where
  "owns_task t \<longleftrightarrow> sfName (ctFn t) = ctKey t \<and>
     ctKey t = request_key (sfJobName (ctFn t)) (sfJobNamespace (ctFn t))"

definition tasks_owned :: "(schedule_fn, 'c) cron_view \<Rightarrow> ('w, 'c) scheduler \<Rightarrow> bool" where
  "tasks_owned J sc \<longleftrightarrow> (\<forall>i e t. J (scCron sc) i = Some (e, t) \<longrightarrow> owns_task t)"

lemma owned_start:
  assumes "cron_laws J L" and "tasks_owned J sc"
  shows "tasks_owned J (Start_scheduler E L sc)" and "tasks_owned J (Stop_scheduler E L sc)"
  using assms by (simp_all add: tasks_owned_def cron_laws_def Start_scheduler_def Stop_scheduler_def)

lemma owned_remove:
  assumes "cron_laws J L" and "tasks_owned J sc"
  shows "tasks_owned J (RemoveSchedule E L name sc)"
  using assms by (auto simp: tasks_owned_def RemoveSchedule_def cron_laws_def split: option.splits if_splits)

lemma owned_add:
  assumes "cron_laws J L" and "tasks_owned J sc"
    and "owns_task \<lparr>ctKey = name, ctSchedule = e, ctFn = f\<rparr>" and "AddSchedule E L e name f sc = (r, sc')"
  shows "tasks_owned J sc'"
proof -
  obtain x c where x: "clAddFunc L e \<lparr>ctKey = name, ctSchedule = e, ctFn = f\<rparr> (scCron sc) = (x, c)"
    by fastforce
  have "J c = J (scCron sc) \<or>
      (\<exists>i. J c = (J (scCron sc))(i \<mapsto> (e, \<lparr>ctKey = name, ctSchedule = e, ctFn = f\<rparr>)))"
    using assms(1) x by (cases x) (auto simp: cron_laws_def)
  moreover have "scCron sc' = c" using assms(4) x by (auto simp: AddSchedule_def split: sum.splits)
  ultimately show ?thesis using assms(2,3) by (auto simp: tasks_owned_def split: if_splits)
qed

lemma owned_replace:
  assumes "cron_laws J L" and "tasks_owned J sc"
    and "owns_task \<lparr>ctKey = name, ctSchedule = e, ctFn = f\<rparr>"
    and "AddScheduleReplaceExisting E L e name f sc = (r, sc')"
  shows "tasks_owned J sc'"
  using assms(4)
proof (cases rule: replace_cases)
  case (same i)
  with assms(2) show ?thesis by simp
next
  case (added sc1)
  then have "tasks_owned J sc1" using assms(2) owned_remove [OF assms(1,2)] by auto
  from owned_add [OF assms(1) this assms(3) added(4)] show ?thesis .
qed

lemma owns_schedule_fn: "owns_task \<lparr>ctKey = Fullname rj, ctSchedule = e, ctFn = schedule_fn_of rj\<rparr>"
  by (simp add: owns_task_def schedule_fn_of_def request_key_def Fullname_def)

lemma reach_invariant:
  assumes "controller_reach E L U c0 co" and laws: "cron_laws J L" and "J c0 = Map.empty"
  shows "sched_agree J (coScheduler co) \<and> tasks_owned J (coScheduler co)"
  using assms(1)
proof (induction rule: controller_reach.induct)
  case (set_up s)
  show ?case
    using assms(3) by (simp add: SetupWithManager_def NewScheduler_def sched_agree_def tasks_owned_def)
next
  case (started co)
  from agree_start(1) [OF laws conjunct1, OF started.IH] owned_start(1) [OF laws conjunct2, OF started.IH]
  show ?case by simp
next
  case (stopped co)
  from agree_start(2) [OF laws conjunct1, OF stopped.IH] owned_start(2) [OF laws conjunct2, OF stopped.IH]
  show ?case by simp
next
  case (reconciled co name namespace r co')
  from reconciled.hyps(2) show ?case
  proof (cases rule: Reconcile_cases)
    case (found rj e sc)
    with agree_replace [OF laws conjunct1 found(3), OF reconciled.IH]
      owned_replace [OF laws conjunct2 owns_schedule_fn found(3), OF reconciled.IH]
    show ?thesis by simp
  next
    case (gone err)
    with agree_remove [OF laws conjunct1, OF reconciled.IH] owned_remove [OF laws conjunct2, OF reconciled.IH]
    show ?thesis by simp
  next
    case (failed err)
    then show ?thesis using reconciled.IH by simp
  qed
next
  case (fired co t co')
  from run_cron_task_table [OF fired.hyps(2)] fired.IH show ?case
    by (simp add: sched_agree_def tasks_owned_def same_table_def)
next
  case (others co s)
  then show ?case by (simp add: sched_agree_def tasks_owned_def)
qed

text \<open>
  C12: In every reachable state the scheduler's table and the cron library agree: a scheduled name has
  exactly one job in the library, with the expression of the table, and that job runs the resource of
  that name; and the library runs nothing that is not in the table. So no resource is run twice and
  none is run after its removal.
\<close>
theorem schedules_agree:
  assumes "controller_reach E L U c0 co" and "cron_laws J L" and "J c0 = Map.empty"
  shows "(\<forall>n e. scheduled_expr (coScheduler co) n = Some e \<longrightarrow>
      (\<exists>!i. \<exists>t. J (scCron (coScheduler co)) i = Some (e, t) \<and> ctKey t = n)) \<and>
    (\<forall>i e t. J (scCron (coScheduler co)) i = Some (e, t) \<longrightarrow>
      scheduled_expr (coScheduler co) (ctKey t) = Some e \<and>
      request_key (sfJobName (ctFn t)) (sfJobNamespace (ctFn t)) = ctKey t)"
proof -
  let ?sc = "coScheduler co"
  from reach_invariant [OF assms] have agree: "sched_agree J ?sc" and owned: "tasks_owned J ?sc" by auto
  have job: "scEntries ?sc (ctKey t) = Some (i, e)" if it: "J (scCron ?sc) i = Some (e, t)" for i e t
  proof -
    from sched_agreeD(2) [OF agree it] obtain n d where nd: "scEntries ?sc n = Some (i, d)" by blast
    from sched_agreeD(1) [OF agree nd] it have "d = e" "ctKey t = n" by auto
    with nd show ?thesis by simp
  qed
  have "\<exists>!i. \<exists>t. J (scCron ?sc) i = Some (e, t) \<and> ctKey t = n" if n: "scheduled_expr ?sc n = Some e" for n e
  proof -
    from n obtain i where i: "scEntries ?sc n = Some (i, e)" by (auto simp: scheduled_expr_def)
    from sched_agreeD(1) [OF agree i] obtain f
      where f: "J (scCron ?sc) i = Some (e, \<lparr>ctKey = n, ctSchedule = e, ctFn = f\<rparr>)" by blast
    show ?thesis
    proof (rule ex1I [of _ i])
      show "\<exists>t. J (scCron ?sc) i = Some (e, t) \<and> ctKey t = n" using f by auto
    next
      fix k assume "\<exists>t. J (scCron ?sc) k = Some (e, t) \<and> ctKey t = n"
      then obtain t where "J (scCron ?sc) k = Some (e, t)" "ctKey t = n" by blast
      with job [of k e t] i show "k = i" by simp
    qed
  qed
  moreover have "scheduled_expr ?sc (ctKey t) = Some e \<and>
      request_key (sfJobName (ctFn t)) (sfJobNamespace (ctFn t)) = ctKey t"
    if "J (scCron ?sc) i = Some (e, t)" for i e t
    using job [OF that] owned that by (simp add: scheduled_expr_def tasks_owned_def owns_task_def)
  ultimately show ?thesis by blast
qed

theorem schedules_agree_witness:
  "let co = snd (Reconcile memory_env cron_table no_urls ''a'' ''b''
       (idle_controller (job_sys [scheduled_job ''a'' ''b'' ''@daily''])))
   in controller_reach memory_env cron_table no_urls (0, Map.empty) co \<and>
      (\<exists>!i. \<exists>t. table_view (scCron (coScheduler co)) i = Some (''@daily'', t) \<and> ctKey t = ''a-b'')"
proof -
  let ?x = "scheduled_job ''a'' ''b'' ''@daily''"
  let ?co = "idle_controller (job_sys [?x])"
  let ?co' = "snd (Reconcile memory_env cron_table no_urls ''a'' ''b'' ?co)"
  have get: "eGetRenovateJob memory_env ''a'' ''b'' (syWorld (job_sys [?x])) = Inr ?x"
    by (simp add: job_sys_def memory_env_def memory_get_def scheduled_job_def)
  have x: "rjName ?x = ''a''" "rjNamespace ?x = ''b''" "spSchedule (rjSpec ?x) = ''@daily''"
    by (simp_all add: scheduled_job_def)
  have "scheduled_expr (coScheduler ?co') ''a-b'' = Some ''@daily''"
    using first_reconcile(1) [OF x(1,2) get x(3), of no_urls] x
    by (simp add: scheduled_expr_def Fullname_def)
  moreover have "controller_reach memory_env cron_table no_urls (0, Map.empty) ?co"
    unfolding idle_controller_def by (rule controller_reach.set_up)
  then have reach: "controller_reach memory_env cron_table no_urls (0, Map.empty) ?co'"
    by (rule controller_reach.reconciled) (rule surjective_pairing)
  ultimately show ?thesis using schedules_agree [OF reach table_laws table_empty]
    unfolding Let_def by blast
qed

section \<open>Names that collide\<close>



section \<open>The saved state of a syncer\<close>

lemma dec_entries_map:
  assumes "\<forall>(k, i) \<in> set xs. in_range 64 i" and "distinct (map fst xs)" and "distinct (map fst m)"
  shows "\<exists>m'. dec_entries (map (\<lambda>(k, i). (k, JNum (show_int i))) xs) m = Some m' \<and>
    distinct (map fst m') \<and> map_of m' = map_of m ++ map_of xs"
  using assms
proof (induction xs arbitrary: m)
  case Nil
  then show ?case by simp
next
  case (Cons x xs)
  obtain k i where x: "x = (k, i)" by (cases x)
  with Cons.prems have i: "ParseInt 64 (show_int i) = Some i" by (intro ParseInt_show_int) simp
  have "\<exists>m'. dec_entries (map (\<lambda>(k, i). (k, JNum (show_int i))) xs) (AList.update k i m) = Some m' \<and>
      distinct (map fst m') \<and> map_of m' = map_of (AList.update k i m) ++ map_of xs"
    using Cons.prems by (intro Cons.IH) (auto simp: distinct_update)
  then obtain m' where m': "dec_entries (map (\<lambda>(k, i). (k, JNum (show_int i))) xs) (AList.update k i m) = Some m'"
    "distinct (map fst m')" "map_of m' = map_of (AList.update k i m) ++ map_of xs" by blast
  have "k \<notin> dom (map_of xs)" using Cons.prems(2) x by (simp add: dom_map_of_conv_image_fst)
  then have "map_of m ++ map_of (x # xs) = (map_of m)(k \<mapsto> i) ++ map_of xs"
    by (auto simp: x fun_eq_iff map_add_def split: option.splits)
  moreover have "map_of m' = (map_of m)(k \<mapsto> i) ++ map_of xs"
    using m'(3) by (simp only: update_conv')
  moreover have "dec_entries (map (\<lambda>(k, i). (k, JNum (show_int i))) (x # xs)) m = Some m'"
    using m'(1) i x by (simp add: dec_int_def)
  ultimately show ?case using m'(2) by (intro exI [of _ m'] conjI) (simp_all only:)
qed

lemma num_literal_show_int: "num_literal (show_int i)"
proof (cases "i < 0")
  case True
  obtain c cs where c: "show_nat (nat (- i)) = c # cs" by (meson neq_Nil_conv show_nat_not_Nil)
  with show_nat_hd [of "nat (- i)"] have "c \<noteq> CHR ''-''" by simp
  with c num_literal_show_nat [of "nat (- i)"] True show ?thesis
    by (simp add: show_int_def num_literal_def num_start_def split: if_splits option.splits)
next
  case False
  with num_literal_show_nat show ?thesis by (simp add: show_int_def)
qed

text \<open>What may be saved: distinct names without characters that JSON escapes, and 64-bit numbers.\<close>

definition savable :: "managed \<Rightarrow> bool" where
  "savable m \<longleftrightarrow> distinct (map fst m) \<and>
     list_all (\<lambda>(k, i). list_all safe_char k \<and> in_range 64 i) m"

lemma sorted_map_of:
  assumes "distinct (map fst m)"
  shows "distinct (map fst (sort_key fst m))" and "map_of (sort_key fst m) = map_of m"
proof -
  have d: "distinct (map fst (sort_key fst m))"
    using assms by (simp add: distinct_map)
  then show "distinct (map fst (sort_key fst m))" .
  show "map_of (sort_key fst m) = map_of m"
    using map_of_sort_fst by blast
qed

lemma decode_saved:
  assumes "savable m"
  shows "\<exists>m'. decode_state (json_marshal (state_json m)) = Some m' \<and> distinct (map fst m') \<and>
    map_of m' = map_of m"
proof -
  let ?xs = "sort_key fst m"
  have d: "distinct (map fst m)" and ok: "\<forall>(k, i) \<in> set m. list_all safe_char k \<and> in_range 64 i"
    using assms by (auto simp: savable_def list_all_iff)
  have "safe_json (state_json m)"
    using ok by (auto simp: state_json_def list_all_iff num_literal_show_int)
  moreover have "foldr (\<lambda>(k, v) d. max (json_depth v) d) (map (\<lambda>(k, i). (k, JNum (show_int i))) ys) 0 = 0"
    for ys :: managed
    by (induction ys) auto
  then have "json_depth (state_json m) \<le> 10000" by (simp add: state_json_def)
  ultimately have "json_unmarshal (json_marshal (state_json m)) = Some (state_json m)"
    by (rule unmarshal_marshal)
  then have "decode_state (json_marshal (state_json m)) =
      dec_entries (map (\<lambda>(k, i). (k, JNum (show_int i))) ?xs) []"
    by (simp add: decode_state_def state_json_def)
  with dec_entries_map [of ?xs "[]"] ok sorted_map_of [OF d] show ?thesis by auto
qed


text \<open>A server that also takes the object.\<close>

definition writable_env :: "memory env" where
  "writable_env = memory_env\<lparr>eUpdateObject := (\<lambda>rj w. (None, w\<lparr>meJobs :=
     (meJobs w)((rjName rj, rjNamespace rj) \<mapsto> rj)\<rparr>))\<rparr>"

definition idle_syncer :: webhook_syncer where
  "idle_syncer = NewWebhookSyncer \<lparr>fcBaseURL = [], fcToken = []\<rparr> [] [] [] []"


section \<open>The URL of a webhook\<close>

lemma values_Encode_not_Nil: "vs \<noteq> [] \<Longrightarrow> values_Encode vs \<noteq> []"
  using parse_encode [of vs] by (auto simp: parse_query_def) (metis length_0_conv length_sort)

lemma new_syncer_Some:
  assumes "new_syncer E U rj cfg endpoint s = Some sy"
  obtains u where "U (fsWebhookURL cfg) = Inr u"
    and "wsWebhookURL sy = url_String (u\<lparr>puRawQuery := webhook_query rj (puRawQuery u)\<rparr>)"
    and "wsManagedRepos sy = []" and "wsTopic sy = sync_topic cfg (spDiscoverTopics (rjSpec rj))"
  using assms by (auto simp: new_syncer_def NewWebhookSyncer_def split: if_splits sum.splits)

lemma webhook_query_Get:
  "values_Get (parse_query (webhook_query rj raw)) k =
     (if k = ''job'' then rjName rj else if k = ''namespace'' then rjNamespace rj
      else values_Get (parse_query raw) k)"
  by (simp only: webhook_query_def Get_parse_encode Get_Set)

text \<open>
  C23: A syncer made for a resource has the URL of the configuration with a query that names the
  resource: the webhook server that reads it acts on exactly this resource, and sees every other
  parameter of the configured URL. After a restart of the operator it manages what was saved.
\<close>
theorem webhook_url_names_resource:
  assumes "sync_config rj = Some cfg" and "syncers (Fullname rj) = None"
    and "ensureWebhookSyncer E U rj s syncers (Fullname rj) = Some entry"
  shows "\<exists>u q. U (fsWebhookURL cfg) = Inr u \<and>
    wsWebhookURL (weSyncer entry) = puBase u @ ''?'' @ q @ puFragment u \<and>
    (\<forall>r. rqQuery r = values_Get (parse_query q) \<longrightarrow>
       query_id r = \<lparr>riName = rjName rj, riNamespace = rjNamespace rj\<rparr> \<and>
       (\<forall>k. k \<notin> {''job'', ''namespace''} \<longrightarrow>
          rqQuery r k = values_Get (parse_query (puRawQuery u)) k)) \<and>
    ManagedRepos (weSyncer entry) = (case loadWebhookSyncState rj of None \<Rightarrow> [] | Some m \<Rightarrow> m)"
proof -
  obtain sy where sy: "new_syncer E U rj cfg (snd (GetPlatformAndEndpoint (spProvider (rjSpec rj)))) s = Some sy"
    using assms by (auto simp: ensureWebhookSyncer_def Let_def split: option.splits)
  from sy obtain u where u: "U (fsWebhookURL cfg) = Inr u"
    "wsWebhookURL sy = url_String (u\<lparr>puRawQuery := webhook_query rj (puRawQuery u)\<rparr>)"
    "wsManagedRepos sy = []" by (rule new_syncer_Some)
  have "webhook_query rj (puRawQuery u) \<noteq> []"
    unfolding webhook_query_def by (rule values_Encode_not_Nil) (simp add: values_Set_def)
  moreover have "wsWebhookURL (weSyncer entry) = wsWebhookURL sy \<and>
      ManagedRepos (weSyncer entry) = (case loadWebhookSyncState rj of None \<Rightarrow> [] | Some m \<Rightarrow> m)"
    using assms sy u(3) by (auto simp: ensureWebhookSyncer_def Let_def ManagedRepos_def
        SetManagedRepos_def split: option.splits)
  ultimately show ?thesis
    using u(1,2) webhook_query_Get [of rj "puRawQuery u"]
    by (intro exI [of _ u] exI [of _ "webhook_query rj (puRawQuery u)"])
      (simp add: url_String_def query_id_def)
qed

definition sync_job :: renovate_job where
  "sync_job = example_job\<lparr>rjSpec := zero_spec\<lparr>
     spProvider := Some \<lparr>prName = ''forgejo'', prEndpoint = ''https://f''\<rparr>,
     spWebhook := Some \<lparr>whEnabled = True, whAuthentication = None, whForgejo = Some \<lparr>wfSync =
       Some \<lparr>fsEnabled = True, fsWebhookURL = ''https://o/hook'', fsTopic = ''renovate'', fsEvents = [],
             fsTokenSecretRef = Some \<lparr>skName = ''s'', skKey = ''k''\<rparr>,
             fsAuthTokenSecretRef = None\<rparr>\<rparr>\<rparr>\<rparr>\<rparr>"

definition secret_sys :: "memory sys" where
  "secret_sys = example_sys\<lparr>syWorld := example_memory\<lparr>meSecrets := [(''ns'', ''s'') \<mapsto> [''k'' \<mapsto> ''t'']]\<rparr>\<rparr>"

theorem webhook_url_names_resource_witness:
  "\<exists>entry. ensureWebhookSyncer memory_env no_urls sync_job secret_sys Map.empty (Fullname sync_job) =
     Some entry \<and> ManagedRepos (weSyncer entry) = []"
proof -
  obtain cfg where cfg: "sync_config sync_job = Some cfg" "fsTokenSecretRef cfg = Some \<lparr>skName = ''s'', skKey = ''k''\<rparr>"
    "fsAuthTokenSecretRef cfg = None"
    by (simp add: sync_config_def sync_job_def)
  have endpoint: "snd (GetPlatformAndEndpoint (spProvider (rjSpec sync_job))) = ''https://f''"
    by (simp add: sync_job_def) code_simp
  have "rjNamespace sync_job = ''ns''" by (simp add: sync_job_def example_job_def)
  with cfg(2,3) have "\<exists>sy. new_syncer memory_env no_urls sync_job cfg ''https://f'' secret_sys = Some sy"
    by (simp add: new_syncer_def readSecretKey_def secret_sys_def memory_env_def no_urls_def)
  with cfg(1) endpoint have "\<exists>entry. ensureWebhookSyncer memory_env no_urls sync_job secret_sys Map.empty
      (Fullname sync_job) = Some entry"
    by (auto simp: ensureWebhookSyncer_def Let_def)
  then obtain entry where e: "ensureWebhookSyncer memory_env no_urls sync_job secret_sys Map.empty
      (Fullname sync_job) = Some entry" by blast
  have "loadWebhookSyncState sync_job = None"
    by (simp add: loadWebhookSyncState_def sync_job_def example_job_def)
  with e webhook_url_names_resource [where syncers = Map.empty, OF cfg(1) refl e] show ?thesis by auto
qed

end
