(* ===== verification/Run_Properties.thy ===== *)
theory Run_Properties
  imports Controller Manager_Properties Discovery_Properties Service_Properties
begin

text \<open>
  What a run of a schedule does to its resource, from the discovery to the marked projects, and what
  it never does: start a project.
\<close>

section \<open>A run seen from the resources\<close>

text \<open>A request to another service changes no resource; others may meanwhile.\<close>

definition law_http :: "(job_view \<Rightarrow> job_view \<Rightarrow> bool) \<Rightarrow> 'w env \<Rightarrow> bool" where
  "law_http I E \<longleftrightarrow> (\<forall>c w r w'. eHttpDo E c w = (r, w') \<longrightarrow> I (view E w) (view E w'))"

lemma http_do_view: "law_http I E \<Longrightarrow> http_do E c s = (r, s') \<Longrightarrow> I (sview E s) (sview E s')"
  unfolding law_http_def http_do_def by (auto split: prod.splits)

lemma ask_fork_view:
  assumes "law_http I E" and "ask_fork E req answer s = (r, s')"
  shows "I (sview E s) (sview E s')"
proof -
  obtain x s1 where x: "http_do E req s = (x, s1)" by fastforce
  with assms(2) have "s' = s1" by (auto simp: ask_fork_def split: sum.splits)
  with http_do_view [OF assms(1) x] show ?thesis by simp
qed

lemma IsFork_view: "law_http I E \<Longrightarrow> I (sview E s) (sview E (snd (IsFork E c p s)))"
  using ask_fork_view [OF _ prod.collapse [symmetric], where I = I]
  by (cases c) (simp_all add: github_IsFork_def gitlab_IsFork_def gitea_IsFork_def bitbucket_IsFork_def)

lemma skip_forks_view:
  assumes "interference I" and "law_http I E" and "skip_forks E job projects s = (r, s')"
  shows "I (sview E s) (sview E s')"
proof -
  have all: "I (sview E s) (sview E (snd (fork_results E c ps s)))" for c ps s
  proof (induction ps arbitrary: s)
    case Nil
    show ?case using interference_refl [OF assms(1)] by simp
  next
    case (Cons p ps)
    from interference_trans [OF assms(1) IsFork_view [OF assms(2)] Cons] show ?case
      by (simp add: fork_results_Cons Let_def)
  qed
  have "I (sview E s) (sview E (snd (FilterForks E c ps s)))" for c ps
    using all [of s c ps] interference_refl [OF assms(1)]
    by (auto simp: FilterForks_def split: prod.splits)
  with assms(3) interference_refl [OF assms(1)] show ?thesis
    by (auto simp: skip_forks_def split: sum.splits if_splits) (metis snd_apfst snd_conv)
qed

lemma sleep_view: "kube_laws I E \<Longrightarrow> I (sview E s) (sview E (sleep E d s))"
  using kube_laws_sleep [of I E "syWorld s" d] by (simp add: sleep_def)

lemma retry_lookup_view:
  assumes "interference I" and "kube_laws I E"
  shows "I (sview E s) (sview E (snd (retry_lookup tries E sel err s)))"
proof (induction tries arbitrary: err s)
  case 0
  show ?case using interference_refl [OF assms(1)] by simp
next
  case (Suc tries)
  have "I (sview E s) (sview E (snd (retry_lookup tries E sel e (sleep E 0 s))))" for e
    using interference_trans [OF assms(1) sleep_view [OF assms(2)] Suc] .
  with interference_refl [OF assms(1)] sleep_view [OF assms(2), of s 0] show ?case
    by (simp add: Let_def split: sum.split)
qed

lemma status_view:
  assumes "interference I" and "kube_laws I E" and "getDiscoveryJobStatusInternal E job g s = (r, s')"
  shows "I (sview E s) (sview E s')"
proof -
  have retry: "I (sview E s) (sview E s1)"
    if "retry_lookup 5 E (discovery_selector job (Some g)) err (sleep E (1 * second) s) = (l, s1)" for err l s1
    using interference_trans [OF assms(1) sleep_view [OF assms(2)] retry_lookup_view [OF assms(1,2)]] that
    by (metis snd_conv)
  show ?thesis
  proof (cases "s' = s")
    case True
    with interference_refl [OF assms(1)] show ?thesis by simp
  next
    case False
    with assms(3) obtain err l where
      "retry_lookup 5 E (discovery_selector job (Some g)) err (sleep E (1 * second) s) = (l, s')"
      by (auto simp: getDiscoveryJobStatusInternal_def Let_def simp del: retry_lookup.simps
          split: sum.splits if_splits prod.splits lookup.splits)
    from retry [OF this] show ?thesis .
  qed
qed

lemma poll_view:
  assumes "interference I" and "kube_laws I E"
  shows "poll E job g s = Inl (r, s') \<Longrightarrow> I (sview E s) (sview E s')"
    and "poll E job g s = Inr s' \<Longrightarrow> I (sview E s) (sview E s')"
proof -
  obtain x s1 where x: "getDiscoveryJobStatusInternal E job g s = (x, s1)" by fastforce
  note first = status_view [OF assms x]
  note later = interference_trans [OF assms(1) first sleep_view [OF assms(2)]]
  show "poll E job g s = Inl (r, s') \<Longrightarrow> I (sview E s) (sview E s')"
    using first by (auto simp: poll_def x split: go_run.splits sum.splits if_splits)
  show "poll E job g s = Inr s' \<Longrightarrow> I (sview E s) (sview E s')"
    using first later by (auto simp: poll_def x split: go_run.splits sum.splits if_splits)
qed

lemma Wait_view:
  assumes "interference I" and "kube_laws I E" and "WaitForDiscoveryJob E job g s = Some (r, s')"
  shows "I (sview E s) (sview E s')"
proof -
  have polls: "polls k E job g s = Some s1 \<Longrightarrow> I (sview E s) (sview E s1)" for k s s1
  proof (induction k arbitrary: s)
    case 0
    then show ?case using interference_refl [OF assms(1)] by simp
  next
    case (Suc k)
    then obtain s2 where "poll E job g s = Inr s2" "polls k E job g s2 = Some s1"
      by (auto split: sum.splits)
    from interference_trans [OF assms(1) poll_view(2) [OF assms(1,2) this(1)] Suc.IH [OF this(2)]]
    show ?case .
  qed
  from wait_returns [OF assms(3)] obtain k s1 where "polls k E job g s = Some s1"
    "poll E job g s1 = Inl (r, s')" by blast
  from interference_trans [OF assms(1) polls [OF this(1)] poll_view(1) [OF assms(1,2) this(2)]]
  show ?thesis .
qed

lemma CreateDiscoveryJob_view:
  assumes "interference I" and "kube_laws I E" and "CreateDiscoveryJob E job s = (r, s')"
  shows "I (sview E s) (sview E s')"
proof (cases "s' = s")
  case True
  with interference_refl [OF assms(1)] show ?thesis by simp
next
  case False
  with assms(3) obtain j x where "CreateJobWithGeneration E j (discovery_selector job None) s = (x, s')"
    by (auto simp: CreateDiscoveryJob_def Let_def split: sum.splits prod.splits)
  from CreateJob_view [OF assms(2) this] show ?thesis .
qed

lemma Discover_view:
  assumes "interference I" and "kube_laws I E" and "Discover E job s = Some (r, s')"
  shows "I (sview E s) (sview E s')"
proof -
  obtain x s1 where x: "CreateDiscoveryJob E job s = (x, s1)" by fastforce
  note created = CreateDiscoveryJob_view [OF assms(1,2) x]
  show ?thesis
  proof (cases x)
    case (Inl err)
    with assms(3) x created show ?thesis by (simp add: Discover_def)
  next
    case (Inr g)
    with assms(3) x have "WaitForDiscoveryJob E job g s1 = Some (r, s')" by (simp add: Discover_def)
    from interference_trans [OF assms(1) created Wait_view [OF assms(1,2) this]] show ?thesis .
  qed
qed

lemma skip_forks_subseq: "skip_forks E job projects s = (Inr left, s') \<Longrightarrow> subseq left projects"
  using FilterForks_subseq [of E _ projects s]
  by (auto simp: skip_forks_def split: if_splits sum.splits) (metis apfst_conv fst_conv old.sum.inject(2) surj_pair)

text \<open>
  A write of the object itself stores everything but the status, which is a resource of its own; a
  refused one stores nothing.
\<close>

definition law_object :: "(job_view \<Rightarrow> job_view \<Rightarrow> bool) \<Rightarrow> 'w env \<Rightarrow> bool" where
  "law_object I E \<longleftrightarrow> (\<forall>rj w r w'. eUpdateObject E rj w = (r, w') \<longrightarrow>
     (case r of
        Some err \<Rightarrow> I (view E w) (view E w')
      | None \<Rightarrow> \<exists>sp st. view E w (rjName rj, rjNamespace rj) = Some (sp, st) \<and>
          I ((view E w)((rjName rj, rjNamespace rj) \<mapsto> (rjSpec rj, st))) (view E w')))"

lemma sends_view:
  assumes "interference I" and "law_http I E" and "sends E P s s'"
  shows "I (sview E s) (sview E s')"
  using assms(3)
proof (induction rule: sends.induct)
  case (sends_refl s)
  show ?case using interference_refl [OF assms(1)] .
next
  case (sends_request s t c r u)
  from interference_trans [OF assms(1) sends_request.IH http_do_view [OF assms(2) sends_request.hyps(3)]]
  show ?case .
qed

text \<open>Saving the table of a syncer writes an annotation of a resource that was just read.\<close>

lemma saveWebhookSyncState_view:
  assumes "interference I" and "kube_laws I E" and "law_object I E"
    and "saveWebhookSyncState E n ns sy m s = (sy', s')"
  shows "I (sview E s) (sview E s')"
proof (cases "s' = s")
  case True
  with interference_refl [OF assms(1)] show ?thesis by simp
next
  case False
  with assms(4) obtain rj where rj: "GetRenovateJob E n ns s = Inr rj"
    by (auto simp: saveWebhookSyncState_def split: sum.splits)
  let ?u = "rj\<lparr>rjAnnotations := (rjAnnotations rj)(webhookSyncStateAnnotation \<mapsto> json_marshal (state_json m))\<rparr>"
  obtain r s1 where w: "kube_write (eUpdateObject E ?u) (ObjectUpdated ?u) s = (r, s1)" by fastforce
  with assms(4) rj False have "s' = s1"
    by (auto simp: saveWebhookSyncState_def Let_def split: if_splits option.splits)
  moreover have "rjName rj = n \<and> rjNamespace rj = ns"
    using load_identity [OF assms(2)] rj by (simp add: GetRenovateJob_def)
  moreover have "sview E s (n, ns) = Some (rjSpec rj, rjStatus rj)"
    using load_view rj by (simp add: GetRenovateJob_def)
  moreover have "(sview E s)((n, ns) \<mapsto> (rjSpec rj, rjStatus rj)) = sview E s"
    using calculation(3) by (simp add: fun_upd_idem)
  ultimately show ?thesis
    using assms(3) [unfolded law_object_def, rule_format, OF kube_write_world [OF w]] by (cases r) auto
qed

lemma sync_webhooks_view:
  assumes "interference I" and "kube_laws I E" and "law_http I E" and "law_object I E"
    and "sync_webhooks E f co = Some co'"
  shows "I (sview E (co_sys co)) (sview E (co_sys co'))"
proof (cases "coSyncers co (sfName f)")
  case None
  with assms(5) interference_refl [OF assms(1)] show ?thesis by (simp add: sync_webhooks_def)
next
  case (Some entry)
  with assms(5) obtain r sy s where run: "RunOnce E (weSyncer entry) (co_sys co) = Some (r, sy, s)"
    by (auto simp: sync_webhooks_def split: option.splits)
  note sent = sends_view [OF assms(1,3) RunOnce_sends [OF run]]
  show ?thesis
  proof (cases r)
    case (Inl err)
    with assms(5) Some run sent show ?thesis by (auto simp: sync_webhooks_def)
  next
    case (Inr state)
    obtain sy' s' where saved: "saveWebhookSyncState E (sfJobName f) (sfJobNamespace f) sy state s = (sy', s')"
      by fastforce
    with assms(5) Some run Inr have "co_sys co' = s'" by (auto simp: sync_webhooks_def)
    with interference_trans [OF assms(1) sent saveWebhookSyncState_view [OF assms(1,2,4) saved]]
    show ?thesis by simp
  qed
qed

section \<open>The course of a run\<close>

lemma run_schedule_cases:
  assumes "run_schedule E f co = Some (Returns (), co')"
  obtains (unread) err where "GetRenovateJob E (sfJobName f) (sfJobNamespace f) (co_sys co) = Inl err"
      and "co' = co"
    | (stopped) rj r s1 where "GetRenovateJob E (sfJobName f) (sfJobNamespace f) (co_sys co) = Inr rj"
      and "Discover E rj (co_sys co) = Some (r, s1)"
      and "(\<forall>projects. r \<noteq> Returns (Inr projects)) \<and> co_sys co' = s1 \<or>
        (\<exists>projects err. r = Returns (Inr projects) \<and>
           skip_forks E rj projects s1 = (Inl err, co_sys co'))"
    | (listed) rj projects s1 left s2 r s3 q s4 where
        "GetRenovateJob E (sfJobName f) (sfJobNamespace f) (co_sys co) = Inr rj"
      and "Discover E rj (co_sys co) = Some (Returns (Inr projects), s1)"
      and "skip_forks E rj projects s1 = (Inr left, s2)"
      and "ReconcileProjects E (fn_id f) left s2 = (r, s3)"
      and "UpdateProjectStatusBatched E not_running (fn_id f) (mk_update JobStatusScheduled 0) s3 = (q, s4)"
      and "if r = None then sync_webhooks E f (with_sys s4 co) = Some co' else co_sys co' = s3"
proof (cases "GetRenovateJob E (sfJobName f) (sfJobNamespace f) (co_sys co)")
  case (Inl err)
  with assms(1) have "co' = co" by (simp add: run_schedule_def)
  with unread [OF Inl] show ?thesis .
next
  case (Inr rj)
  with assms(1) obtain d s1 where d: "Discover E rj (co_sys co) = Some (d, s1)"
    by (auto simp: run_schedule_def split: option.splits)
  show ?thesis
  proof (cases "\<exists>projects. d = Returns (Inr projects)")
    case False
    with assms(1) Inr d have "co_sys co' = s1"
      by (auto simp: run_schedule_def split: go_run.splits sum.splits)
    with False stopped [OF Inr d] show ?thesis by blast
  next
    case True
    then obtain projects where projects: "d = Returns (Inr projects)" by blast
    obtain x s2 where x: "skip_forks E rj projects s1 = (x, s2)" by fastforce
    show ?thesis
    proof (cases x)
      case (Inl err)
      with assms(1) \<open>GetRenovateJob _ _ _ _ = _\<close> d projects x have "co_sys co' = s2"
        by (auto simp: run_schedule_def)
      with stopped [OF Inr d] x Inl projects show ?thesis by blast
    next
      case left: (Inr left)
      obtain r s3 where r: "ReconcileProjects E (fn_id f) left s2 = (r, s3)" by fastforce
      obtain q s4 where q: "UpdateProjectStatusBatched E not_running (fn_id f)
        (mk_update JobStatusScheduled 0) s3 = (q, s4)" by fastforce
      have "if r = None then sync_webhooks E f (with_sys s4 co) = Some co' else co_sys co' = s3"
        using assms Inr d projects x left r q by (cases r) (auto simp: run_schedule_def)
      with listed [OF Inr d [unfolded projects] x [unfolded left] r q] show ?thesis by simp
    qed
  qed
qed

lemma writes_start_nothing:
  assumes "kube_laws I E" and "retry_law I E" and "interference I" and "never_starts I (key_of i)"
    and "tidy (sview E s) (key_of i)" and "distinct left"
    and rec: "ReconcileProjects E i left s = (r, s3)"
    and upd: "UpdateProjectStatusBatched E not_running i (mk_update JobStatusScheduled 0) s3 = (q, s4)"
  shows "running_names (view_projects (sview E s3) (key_of i)) \<subseteq> running_names (view_projects (sview E s) (key_of i))"
    and "running_names (view_projects (sview E s4) (key_of i)) \<subseteq> running_names (view_projects (sview E s) (key_of i))"
    and "tidy (sview E s4) (key_of i)"
proof -
  have s3: "tidy (sview E s3) (key_of i) \<and>
      running_names (view_projects (sview E s3) (key_of i)) \<subseteq> running_names (view_projects (sview E s) (key_of i))"
    using write_effect_starts [OF assms(4) reconciles_starts [OF assms(6)]
        ReconcileProjects_effect [OF assms(1,2,3) rec]] assms(5) by simp
  moreover have "tidy (sview E s4) (key_of i) \<and> running_names (view_projects (sview E s4) (key_of i)) \<subseteq>
      running_names (view_projects (sview E s3) (key_of i))"
    using write_effect_starts [OF assms(4) updates_starts
        UpdateProjectStatusBatched_effect [OF assms(1,2,3) upd]] s3 by simp
  ultimately show "running_names (view_projects (sview E s3) (key_of i)) \<subseteq>
      running_names (view_projects (sview E s) (key_of i))"
    and "running_names (view_projects (sview E s4) (key_of i)) \<subseteq>
      running_names (view_projects (sview E s) (key_of i))" and "tidy (sview E s4) (key_of i)" by auto
qed

text \<open>
  C10: A run of a schedule, the synchronisation of its webhooks included, starts nothing: with any writers that start nothing around it, and whatever
  fails on its way, no project of its resource is running afterwards that was not before, as long
  as the discovered list names no repository twice.
\<close>
theorem run_starts_nothing:
  assumes "kube_laws I E" and "retry_law I E" and "law_http I E" and "interference I"
    and "never_starts I (key_of (fn_id f))" and "tidy (sview E (co_sys co)) (key_of (fn_id f))"
    and "law_object I E" and "run_schedule E f co = Some (Returns (), co')"
    and "\<forall>rj projects s1. GetRenovateJob E (sfJobName f) (sfJobNamespace f) (co_sys co) = Inr rj \<longrightarrow>
      Discover E rj (co_sys co) = Some (Returns (Inr projects), s1) \<longrightarrow> distinct projects"
  shows "running_names (view_projects (sview E (co_sys co')) (key_of (fn_id f))) \<subseteq>
    running_names (view_projects (sview E (co_sys co)) (key_of (fn_id f)))"
proof -
  let ?k = "key_of (fn_id f)"
  have calm: "tidy (sview E s) ?k \<and> running_names (view_projects (sview E s) ?k) \<subseteq>
      running_names (view_projects (sview E (co_sys co)) ?k)"
    if "I (sview E (co_sys co)) (sview E s)" for s
    using never_startsD [OF assms(5) that assms(6)] by blast
  from assms(8) show ?thesis
  proof (cases rule: run_schedule_cases)
    case unread
    then show ?thesis by simp
  next
    case (stopped rj r s1)
    note d = Discover_view [OF assms(4,1) stopped(2)]
    from stopped(3) have "I (sview E (co_sys co)) (sview E (co_sys co'))"
      using d interference_trans [OF assms(4) d skip_forks_view [OF assms(4,3)]] by auto
    from calm [OF this] show ?thesis by simp
  next
    case (listed rj projects s1 left s2 r s3 q s4)
    have before: "I (sview E (co_sys co)) (sview E s2)"
      using interference_trans [OF assms(4) Discover_view [OF assms(4,1) listed(2)]
          skip_forks_view [OF assms(4,3) listed(3)]] .
    have dl: "distinct left"
      using assms(9) listed(1,2) skip_forks_subseq [OF listed(3)] by (auto simp: subseq_conv_nths intro: distinct_nthsI)
    from calm [OF before]
    have "tidy (sview E s2) ?k" and s2: "running_names (view_projects (sview E s2) ?k) \<subseteq>
        running_names (view_projects (sview E (co_sys co)) ?k)" by auto
    note quiet = writes_start_nothing [OF assms(1,2,4,5) this(1) dl listed(4,5)]
    show ?thesis
    proof (cases r)
      case (Some e)
      with listed(6) quiet(1) s2 show ?thesis by auto
    next
      case None
      with listed(6) have "sync_webhooks E f (with_sys s4 co) = Some co'" by simp
      from sync_webhooks_view [OF assms(4,1,3,7) this]
      have "I (sview E s4) (sview E (co_sys co'))" by (simp add: with_sys_def)
      with never_startsD(2) [OF assms(5) this quiet(3)] quiet(2) s2 show ?thesis by auto
    qed
  qed
qed

section \<open>The result of a run\<close>

text \<open>With no other writer, a retried write of the status that reports an error wrote nothing.\<close>

definition errors_unwritten :: "'w env \<Rightarrow> ('w sys \<Rightarrow> go_error option \<times> 'w sys) \<Rightarrow> bool" where
  "errors_unwritten E f \<longleftrightarrow> (\<forall>s e s'. f s = (Some e, s') \<longrightarrow> sview E s' = sview E s)"

lemma retry_unwritten:
  assumes "retry_law (=) E" and "errors_unwritten E f" and "eRetryOnConflict E f s = (Some e, s')"
  shows "sview E s' = sview E s"
proof -
  have "sview E (snd x) = sview E s" if "retries (=) E f s x" "fst x \<noteq> None" for s x
    using that
  proof (induction rule: retries.induct)
    case (last_run s x)
    then show ?case using assms(2) by (cases x) (auto simp: errors_unwritten_def)
  next
    case (run_again s e s1 w x)
    from run_again.hyps(1) assms(2) have "sview E s1 = sview E s" by (auto simp: errors_unwritten_def)
    with run_again.IH run_again.prems run_again.hyps(3) show ?case by simp
  qed
  moreover have "retries (=) E f s (Some e, s')" using assms(1,3) by (metis retry_law_def)
  ultimately show ?thesis by fastforce
qed

lemma save_unwritten:
  assumes "kube_laws (=) E" and "save_status E rj s = (Some e, s')"
  shows "sview E s' = sview E s"
proof -
  obtain r s1 where w: "kube_write (eUpdateStatus E rj) (StatusUpdated rj) s = (r, s1)" by fastforce
  note call = kube_write_world [OF w]
  show ?thesis
  proof (cases r)
    case None
    from kube_laws_updated [OF assms(1) call [unfolded None]]
    have "sview E s1 (rjName rj, rjNamespace rj) \<noteq> None" by (metis fun_upd_same option.distinct(1))
    then obtain rj' where "reloadRenovateJob E rj s1 = Inr rj'"
      by (auto simp: view_def reloadRenovateJob_def loadRenovateJob_def split: sum.splits)
    with assms(2) w None show ?thesis by (simp add: save_status_def updateRenovateJobStatus_def)
  next
    case (Some e1)
    with assms(2) w have "s' = s1" by (simp add: save_status_def updateRenovateJobStatus_def)
    with kube_laws_refused [OF assms(1) call [unfolded Some]] show ?thesis by simp
  qed
qed

lemma ReconcileProjects_error:
  assumes "kube_laws (=) E" and "retry_law (=) E" and "ReconcileProjects E job projects s = (Some e, s')"
  shows "sview E s' = sview E s"
proof -
  have "errors_unwritten E (reconcile_closure E job projects)"
    using save_unwritten [OF assms(1)]
    by (fastforce simp: errors_unwritten_def reconcile_closure_def Let_def split: sum.splits)
  from retry_unwritten [OF assms(2) this assms(3) [unfolded ReconcileProjects_def]] show ?thesis .
qed

lemma UpdateProjectStatusBatched_error:
  assumes "kube_laws (=) E" and "retry_law (=) E"
    and "UpdateProjectStatusBatched E fn job u s = (Some e, s')"
  shows "sview E s' = sview E s"
proof -
  have "errors_unwritten E (update_batched_closure E fn job u)"
    using save_unwritten [OF assms(1)]
    by (auto simp: errors_unwritten_def update_batched_closure_def split: sum.splits)
  from retry_unwritten [OF assms(2) this assms(3) [unfolded UpdateProjectStatusBatched_def]]
  show ?thesis .
qed

lemma running_name_iff:
  "distinct (map psName ps) \<Longrightarrow> c \<in> set ps \<Longrightarrow>
   psName c \<in> running_names ps \<longleftrightarrow> psStatus c = JobStatusRunning"
proof (induction ps)
  case Nil
  then show ?case by simp
next
  case (Cons p ps)
  then have "psName p \<notin> running_names ps" using running_names_subset [of ps] by auto
  with Cons show ?case by (auto simp: image_iff)
qed

lemma reconciled_running:
  assumes "reconciles left st st1" and "distinct (map psName (rsProjects st))"
    and "p \<in> set (rsProjects st1)"
  shows "psStatus p = JobStatusRunning \<longleftrightarrow> psName p \<in> running_names (rsProjects st)"
proof -
  from assms(1,3) obtain now n where p: "p = (case crd_project_set (rsProjects st) n of
      Some c \<Rightarrow> c | None \<Rightarrow> scheduled_project now n)"
    by (auto simp: reconciles_def reconcile_projects_def)
  show ?thesis
  proof (cases "crd_project_set (rsProjects st) n")
    case None
    then have "n \<notin> psName ` set (rsProjects st)"
      using crd_project_set_distinct [OF assms(2)] by fastforce
    with p None running_names_subset [of "rsProjects st"] show ?thesis
      by (auto simp: scheduled_project_def)
  next
    case (Some c)
    with p crd_project_set_Some [OF Some] have pc: "p = c" "c \<in> set (rsProjects st)" by auto
    with running_name_iff [OF assms(2) pc(2)] show ?thesis by simp
  qed
qed

lemma marked:
  assumes "updates not_running (mk_update JobStatusScheduled 0) st st'"
  shows "map (\<lambda>p. (psName p, psStatus p)) (rsProjects st') =
    map (\<lambda>p. (psName p, if psStatus p = JobStatusRunning then JobStatusRunning else JobStatusScheduled))
      (rsProjects st)"
  using assms by (auto simp: updates_def update_projects_def not_running_def psStatus_update
      next_status_def)

text \<open>
  What a run reads before it writes: the discovered projects that are not forks, and the state
  after the requests for them. \<open>None\<close> stands for every failure on the way, after which the run
  stops without a write.
\<close>
definition run_lists :: "'w env \<Rightarrow> schedule_fn \<Rightarrow> 'w sys \<Rightarrow> (string list \<times> 'w sys) option" where
  "run_lists E f s =
     (case GetRenovateJob E (sfJobName f) (sfJobNamespace f) s of
        Inl err \<Rightarrow> None
      | Inr rj \<Rightarrow>
          (case Discover E rj s of
             Some (Returns (Inr projects), s) \<Rightarrow>
               (case skip_forks E rj projects s of
                  (Inr left, s) \<Rightarrow> Some (left, s)
                | (Inl err, s) \<Rightarrow> None)
           | _ \<Rightarrow> None))"

text \<open>
  The two writes at the end of a run, reconciling the list and marking what does not run, applied
  to a loaded resource: the list is the one that was passed, exactly the projects that were running
  still run, and the others are scheduled if the second write was accepted.
\<close>
definition marked_status ::
  "renovate_job_status \<Rightarrow> string list \<Rightarrow> bool \<Rightarrow> renovate_job_status \<Rightarrow> bool" where
  "marked_status st left ok st' \<longleftrightarrow>
     rsExecutionOptions st' = rsExecutionOptions st \<and> map psName (rsProjects st') = left \<and>
     (\<forall>p \<in> set (rsProjects st').
        (psStatus p = JobStatusRunning \<longleftrightarrow> psName p \<in> running_names (rsProjects st)) \<and>
        (ok \<longrightarrow> psStatus p \<in> {JobStatusRunning, JobStatusScheduled}))"

lemma marked_stored [simp]: "marked_status st left ok (stored_status st') = marked_status st left ok st'"
  by (auto simp: marked_status_def)

lemma reconciles_marked:
  assumes "reconciles left st st1" and "distinct (map psName (rsProjects st))"
  shows "marked_status st left False st1"
  using assms(1) reconciled_running [OF assms]
  by (auto simp: marked_status_def reconciles_def reconcile_names)

lemma updates_marked:
  assumes "marked_status st left False st1"
    and u: "updates not_running (mk_update JobStatusScheduled 0) (stored_status st1) st2"
  shows "marked_status st left ok st2"
proof -
  note m = marked [OF u]
  have "map psName (rsProjects st2) = left"
    using arg_cong [OF m, of "map fst"] assms(1) by (simp add: comp_def marked_status_def)
  moreover have "rsExecutionOptions st2 = rsExecutionOptions st"
    using u assms(1) by (auto simp: updates_def marked_status_def)
  moreover have "(psStatus p = JobStatusRunning \<longleftrightarrow> psName p \<in> running_names (rsProjects st)) \<and>
      psStatus p \<in> {JobStatusRunning, JobStatusScheduled}" if p: "p \<in> set (rsProjects st2)" for p
  proof -
    from p have "(psName p, psStatus p) \<in> set (map (\<lambda>p. (psName p, psStatus p)) (rsProjects st2))" by auto
    then obtain c where "c \<in> set (rsProjects st1)" "psName p = psName c"
      "psStatus p = (if psStatus c = JobStatusRunning then JobStatusRunning else JobStatusScheduled)"
      unfolding m by auto
    with assms(1) show ?thesis by (auto simp: marked_status_def)
  qed
  ultimately show ?thesis by (auto simp: marked_status_def)
qed

lemma reconciled_and_marked:
  assumes "kube_laws (=) E" and "retry_law (=) E"
    and v: "sview E s2 (key_of i) = Some (sp, st)"
    and "distinct (map psName (rsProjects st))"
    and rec: "ReconcileProjects E i left s2 = (None, s3)"
    and upd: "UpdateProjectStatusBatched E not_running i (mk_update JobStatusScheduled 0) s3 = (q, s4)"
  shows "\<exists>st'. sview E s4 = (sview E s2)(key_of i \<mapsto> (sp, st')) \<and> marked_status st left (q = None) st'"
proof -
  note eq = interference_eq
  from write_effect_alone [OF ReconcileProjects_effect [OF assms(1,2) eq rec]] v
  obtain st1 where st1: "reconciles left st st1"
    "sview E s3 = (sview E s2)(key_of i \<mapsto> (sp, stored_status st1))" by auto
  note m1 = reconciles_marked [OF st1(1) assms(4)]
  show ?thesis
  proof (cases q)
    case (Some e)
    with UpdateProjectStatusBatched_error [OF assms(1,2) upd [unfolded Some]] st1(2) m1
    show ?thesis by (intro exI [of _ "stored_status st1"]) simp
  next
    case None
    from write_effect_alone [OF UpdateProjectStatusBatched_effect [OF assms(1,2) eq upd [unfolded None]]]
    obtain st2 where "updates not_running (mk_update JobStatusScheduled 0) (stored_status st1) st2"
      "sview E s4 = (sview E s2)(key_of i \<mapsto> (sp, stored_status st2))" using st1(2) by auto
    with updates_marked [OF m1] show ?thesis by (intro exI [of _ "stored_status st2"]) simp
  qed
qed


section \<open>A run on the in-memory server\<close>

text \<open>A cluster on which every discovery job has succeeded, with the log of \<open>pod_env\<close>.\<close>

definition done_env :: "memory env" where
  "done_env = pod_env\<lparr>eListJobs := (\<lambda>ns m w.
     Inr [(newDiscoveryJob Map.empty example_job)\<lparr>jbFailed := 0, jbSucceeded := 1\<rparr>])\<rparr>"

lemma done_view: "view done_env = view memory_env"
  by (simp add: view_def done_env_def pod_env_def fun_eq_iff)

lemma done_laws: "kube_laws (=) done_env" "retry_law (=) done_env" "law_http (=) done_env"
  "law_object (=) done_env"
proof -
  have "law_get done_env" using memory_get_law by (simp add: law_get_def done_env_def pod_env_def)
  moreover have "law_updated (=) done_env" "law_refused (=) done_env" "law_other (=) done_env"
    using memory_updated_law memory_refused_law memory_other_law
    unfolding law_updated_def law_refused_def law_other_def done_view
    by (simp_all add: done_env_def pod_env_def)
  ultimately show "kube_laws (=) done_env" by (simp add: kube_laws_def)
  show "retry_law (=) done_env"
    by (simp add: retry_law_def done_env_def pod_env_def memory_env_def retries.last_run)
  show "law_http (=) done_env"
    by (simp add: law_http_def done_env_def pod_env_def memory_env_def)
  show "law_object (=) done_env"
    by (simp add: law_object_def done_env_def pod_env_def memory_env_def)
qed

lemma done_discovery:
  "\<exists>s'. Discover done_env example_job s = Some (Returns (Inr [''a'', ''b'']), s') \<and> syWorld s' = syWorld s
     \<lparr>meBatch := meBatch (syWorld s')\<rparr>"
proof -
  obtain g s1 where created: "CreateDiscoveryJob done_env example_job s = (Inr g, s1)"
    and w: "syWorld s1 = (syWorld s)\<lparr>meBatch := meBatch (syWorld s1)\<rparr>"
    by (simp add: CreateDiscoveryJob_def Let_def done_env_def pod_env_def memory_env_def
        CreateJobWithGeneration_def kube_write_def)
  let ?j = "(newDiscoveryJob Map.empty example_job)\<lparr>jbFailed := 0, jbSucceeded := 1\<rparr>"
  have found: "GetJobByLabel done_env sel s1 = Inr ?j" for sel
    by (simp add: GetJobByLabel_def GetJobsByLabel_def done_env_def)
  have "sort [''b'', ''a''] = [''a'', ''b'']" by (simp add: less_char_def less_eq_char_def)
  then have "getDiscoveredProjectsFromJobLogs done_env ?j s1 = Inr [''a'', ''b'']"
    by (simp add: getDiscoveredProjectsFromJobLogs_def getLatestSuccessfulPodLog_def done_env_def
        pod_env_def memory_env_def pod_log_parsed [unfolded pod_env_def])
  then have "poll done_env example_job g s1 = Inl (Returns (Inr [''a'', ''b'']), s1)"
    by (simp add: poll_def getDiscoveryJobStatusInternal_def Let_def found job_outcome_def
        discovery_result_def)
  from wait_ends [of 0, OF _ this] created w show ?thesis by (simp add: Discover_def)
qed

definition example_run :: schedule_fn where
  "example_run = \<lparr>sfName = ''job-ns'', sfJobName = ''job'', sfJobNamespace = ''ns''\<rparr>"

definition example_controller :: "(memory, unit) controller" where
  "example_controller = SetupWithManager (NewScheduler () example_sys)"

lemma example_controller_simps [simp]:
  "co_sys example_controller = example_sys" "coSyncers example_controller = Map.empty"
  "fn_id example_run = example_id"
  by (simp_all add: example_controller_def SetupWithManager_def NewScheduler_def example_run_def
      fn_id_def example_id_def)

lemma example_get: "GetRenovateJob done_env ''job'' ''ns'' example_sys = Inr example_job"
  by (simp add: GetRenovateJob_def loadRenovateJob_def done_env_def pod_env_def memory_env_def
      memory_get_def example_sys_def example_memory_def example_job_def)

lemma example_run_returns:
  "\<exists>co'. run_schedule done_env example_run example_controller = Some (Returns (), co')"
proof -
  obtain s1 where d: "Discover done_env example_job example_sys = Some (Returns (Inr [''a'', ''b'']), s1)"
    using done_discovery by blast
  have "skip_forks done_env example_job [''a'', ''b''] s1 = (Inr [''a'', ''b''], s1)"
    by (simp add: skip_forks_def example_job_def zero_spec_def)
  with d example_get show ?thesis
    by (simp add: run_schedule_def example_run_def sync_webhooks_def split: prod.split option.split)
qed

theorem run_starts_nothing_witness:
  "\<exists>co'. run_schedule done_env example_run example_controller = Some (Returns (), co') \<and>
     running_names (view_projects (sview done_env (co_sys co')) (key_of example_id)) \<subseteq> {''b''}"
proof -
  obtain co' where run: "run_schedule done_env example_run example_controller = Some (Returns (), co')"
    using example_run_returns by blast
  have "GetRenovateJob done_env (sfJobName example_run) (sfJobNamespace example_run)
      (co_sys example_controller) = Inr example_job"
    using example_get by (simp add: example_run_def)
  moreover obtain s1 where "Discover done_env example_job (co_sys example_controller) =
      Some (Returns (Inr [''a'', ''b'']), s1)" using done_discovery by blast
  ultimately have discovered: "\<forall>rj projects s1.
      GetRenovateJob done_env (sfJobName example_run) (sfJobNamespace example_run)
        (co_sys example_controller) = Inr rj \<longrightarrow>
      Discover done_env rj (co_sys example_controller) = Some (Returns (Inr projects), s1) \<longrightarrow>
      distinct projects" by auto
  have "running_names (view_projects (sview done_env example_sys) (key_of example_id)) = {''b''}"
    by (simp add: done_view view_projects_def example_view)
      (simp add: example_job_def example_project_def)
  with run_starts_nothing [OF done_laws(1-3) interference_eq eq_never_starts _ done_laws(4) run discovered]
    example_tidy run show ?thesis by (simp add: done_view)
qed

lemma example_lists:
  "\<exists>s1. run_lists done_env example_run example_sys = Some ([''a'', ''b''], s1) \<and>
     sview done_env s1 = sview done_env example_sys"
proof -
  obtain s1 where d: "Discover done_env example_job example_sys = Some (Returns (Inr [''a'', ''b'']), s1)"
    and w: "syWorld s1 = syWorld example_sys\<lparr>meBatch := meBatch (syWorld s1)\<rparr>"
    using done_discovery [of example_sys] by blast
  have "skip_forks done_env example_job [''a'', ''b''] s1 = (Inr [''a'', ''b''], s1)"
    by (simp add: skip_forks_def example_job_def zero_spec_def)
  with d example_get have "run_lists done_env example_run example_sys = Some ([''a'', ''b''], s1)"
    by (simp add: run_lists_def example_run_def)
  moreover have "sview done_env s1 = sview done_env example_sys"
    by (subst w) (simp add: done_view memory_view fun_eq_iff)
  ultimately show ?thesis by blast
qed

lemma example_reconciles:
  assumes "sview done_env s (''job'', ''ns'') = Some (rjSpec example_job, rjStatus example_job)"
  shows "fst (ReconcileProjects done_env example_id left s) = None"
proof -
  from assms obtain rj where "meJobs (syWorld s) (''job'', ''ns'') = Some rj"
    by (auto simp: done_view memory_view)
  then show ?thesis
    by (simp add: ReconcileProjects_def done_env_def pod_env_def memory_env_def reconcile_closure_def
        Let_def loadRenovateJob_def example_id_def memory_get_def save_status_def
        updateRenovateJobStatus_def kube_write_def memory_update_status_def reloadRenovateJob_def)
qed


end
