(* ===== verification/Client_Provider.thy ===== *)
theory Client_Provider
  imports Prelude
begin

text \<open>
  The assertions of \<open>src/src/assert/assertion.go\<close> and \<open>errors.go\<close>, and the provider of the
  Kubernetes clients, \<open>src/src/clientProvider/clientProvider.go\<close> and \<open>staticClientProvider.go\<close>.
  A failed assertion ends the process: it is the text written to the error output before
  \<open>os.Exit(1)\<close>, and \<open>None\<close> where the code goes on. The frames of at most five callers
  come from the runtime and are an argument. The constructors of the four clients belong to the client library.
\<close>

section \<open>Assertions\<close>

text \<open>What \<open>tryStringify\<close> tells apart: an error, a \<open>fmt.Stringer\<close>, or a value printed as it is.\<close>

datatype message = MessageError go_error | MessageStringer string | MessageOther string

fun tryStringify :: "message \<Rightarrow> string" where
  "tryStringify (MessageError err) = error_text err"
| "tryStringify (MessageStringer str) = str"
| "tryStringify (MessageOther str) = str"

record stack_frame =
  fmFunction :: string
  fmFile :: string
  fmLine :: nat

abbreviation nl :: string where
  "nl \<equiv> [CHR 0x0A]"

definition frame_place :: "stack_frame \<Rightarrow> string" where
  "frame_place f = ''    '' @ fmFile f @ '':'' @ show_nat (fmLine f)"

text \<open>The frames up to that of \<open>main.main\<close>; \<open>Next\<close> on an exhausted stack gives the zero frame.\<close>

fun print_frames :: "stack_frame list \<Rightarrow> string" where
  "print_frames [] = nl @ ''    :0'' @ nl"
| "print_frames (f # fs) =
     fmFunction f @ nl @ frame_place f @ nl @
     (if fs = [] \<or> fmFunction f = ''main.main'' then [] else print_frames fs)"

definition Assert :: "bool \<Rightarrow> message list \<Rightarrow> stack_frame list \<Rightarrow> string option" where
  "Assert condition messages frames =
     (if condition then None
      else Some (''== ASSERTION FAILURE =='' @ nl @
        (if messages = [] then []
         else ''Messages:'' @ nl @
              concat (map (\<lambda>m. ''  -> '' @ tryStringify m @ nl) messages)) @
        nl @ ''Location:'' @ nl @ print_frames frames))"

text \<open>The variant for tests logs line by line and stops before the frame of the test runner.\<close>

fun log_frames :: "stack_frame list \<Rightarrow> string list" where
  "log_frames [] = ['''', ''    :0'' @ nl]"
| "log_frames (f # fs) =
     (if fmFunction f = ''testing.tRunner'' then []
      else [fmFunction f, frame_place f @ nl] @ (if fs = [] then [] else log_frames fs))"

definition AssertT :: "bool \<Rightarrow> message list \<Rightarrow> stack_frame list \<Rightarrow> string list option" where
  "AssertT condition messages frames =
     (if condition then None
      else Some ([''== ASSERTION FAILURE ==''] @
        (if messages = [] then []
         else ''Messages:'' # map (\<lambda>m. ''  -> '' @ tryStringify m @ nl) messages) @
        ['''', ''Location:''] @ log_frames frames))"

definition NoError :: "go_error option \<Rightarrow> string \<Rightarrow> string option" where
  "NoError err message =
     (case err of None \<Rightarrow> None | Some e \<Rightarrow> Some (message @ nl @ error_text e @ nl))"

lemma assertion_passes [simp]:
  "Assert c ms fs = None \<longleftrightarrow> c" "AssertT c ms fs = None \<longleftrightarrow> c" "NoError err m = None \<longleftrightarrow> err = None"
  by (simp_all add: Assert_def AssertT_def NoError_def split: option.split)

section \<open>Clients\<close>

text \<open>The package's cache: at most one client of each kind, shared by all providers.\<close>

record ('k, 'd, 'a, 'i) client_cache =
  cachedKubernetesClient :: "'k option"
  cachedDynamicClient :: "'d option"
  cachedApiextensionsClient :: "'a option"
  cachedDiscoveryClient :: "'i option"

record ('cfg, 'k, 'd, 'a, 'i) client_libs =
  clientKubernetes :: "'cfg \<Rightarrow> go_error + 'k"
  clientDynamic :: "'cfg \<Rightarrow> go_error + 'd"
  clientApiextensions :: "'cfg \<Rightarrow> go_error + 'a"
  clientDiscovery :: "'cfg \<Rightarrow> go_error + 'i"
  configFromFlags :: "string \<Rightarrow> go_error + 'cfg"
  configInCluster :: "go_error + 'cfg"

record 'cfg client_provider =
  cpClientConfig :: 'cfg

text \<open>
  The pattern of the four getters: a cached client is the answer; otherwise one is made from the
  configuration of this provider, and kept when that succeeds. After an error the cache is still
  empty, and its nil is returned with the error.
\<close>

definition cached_client ::
    "('c \<Rightarrow> 'k option) \<Rightarrow> ('k \<Rightarrow> 'c \<Rightarrow> 'c) \<Rightarrow> (go_error + 'k) \<Rightarrow> 'c \<Rightarrow>
     ('k option \<times> go_error option) \<times> 'c" where
  "cached_client cached keep made c =
     (case cached c of
        Some client \<Rightarrow> ((Some client, None), c)
      | None \<Rightarrow>
          (case made of
             Inl err \<Rightarrow> ((cached c, Some err), c)
           | Inr client \<Rightarrow> (let c = keep client c in ((cached c, None), c))))"

definition K8sClientSet ::
    "('cfg, 'k, 'd, 'a, 'i) client_libs \<Rightarrow> 'cfg client_provider \<Rightarrow> ('k, 'd, 'a, 'i) client_cache \<Rightarrow>
     ('k option \<times> go_error option) \<times> ('k, 'd, 'a, 'i) client_cache" where
  "K8sClientSet CL provider =
     cached_client cachedKubernetesClient (\<lambda>x c. c\<lparr>cachedKubernetesClient := Some x\<rparr>)
       (clientKubernetes CL (cpClientConfig provider))"

definition DynamicClient ::
    "('cfg, 'k, 'd, 'a, 'i) client_libs \<Rightarrow> 'cfg client_provider \<Rightarrow> ('k, 'd, 'a, 'i) client_cache \<Rightarrow>
     ('d option \<times> go_error option) \<times> ('k, 'd, 'a, 'i) client_cache" where
  "DynamicClient CL provider =
     cached_client cachedDynamicClient (\<lambda>x c. c\<lparr>cachedDynamicClient := Some x\<rparr>)
       (clientDynamic CL (cpClientConfig provider))"

definition ApiExtensionsClient ::
    "('cfg, 'k, 'd, 'a, 'i) client_libs \<Rightarrow> 'cfg client_provider \<Rightarrow> ('k, 'd, 'a, 'i) client_cache \<Rightarrow>
     ('a option \<times> go_error option) \<times> ('k, 'd, 'a, 'i) client_cache" where
  "ApiExtensionsClient CL provider =
     cached_client cachedApiextensionsClient (\<lambda>x c. c\<lparr>cachedApiextensionsClient := Some x\<rparr>)
       (clientApiextensions CL (cpClientConfig provider))"

definition DiscoveryClient ::
    "('cfg, 'k, 'd, 'a, 'i) client_libs \<Rightarrow> 'cfg client_provider \<Rightarrow> ('k, 'd, 'a, 'i) client_cache \<Rightarrow>
     ('i option \<times> go_error option) \<times> ('k, 'd, 'a, 'i) client_cache" where
  "DiscoveryClient CL provider =
     cached_client cachedDiscoveryClient (\<lambda>x c. c\<lparr>cachedDiscoveryClient := Some x\<rparr>)
       (clientDiscovery CL (cpClientConfig provider))"

definition getKubernetesConfig :: "(string \<Rightarrow> string) \<Rightarrow> string" where
  "getKubernetesConfig getenv = getenv ''KUBECONFIG''"

definition createKubernetesConfig ::
    "('cfg, 'k, 'd, 'a, 'i) client_libs \<Rightarrow> (string \<Rightarrow> string) \<Rightarrow> go_error + 'cfg" where
  "createKubernetesConfig CL getenv =
     (let cfg = getKubernetesConfig getenv
      in if cfg \<noteq> [] then configFromFlags CL cfg else configInCluster CL)"

definition NewClientProvider ::
    "('cfg, 'k, 'd, 'a, 'i) client_libs \<Rightarrow> (string \<Rightarrow> string) \<Rightarrow> go_error + 'cfg client_provider" where
  "NewClientProvider CL getenv =
     (case createKubernetesConfig CL getenv of
        Inl err \<Rightarrow> Inl err
      | Inr kubeConfig \<Rightarrow> Inr \<lparr>cpClientConfig = kubeConfig\<rparr>)"

definition ClientConfig :: "'cfg client_provider \<Rightarrow> 'cfg" where
  "ClientConfig provider = cpClientConfig provider"

definition RunsInCluster :: "(string \<Rightarrow> string) \<Rightarrow> 'cfg client_provider \<Rightarrow> bool" where
  "RunsInCluster getenv provider \<longleftrightarrow> getKubernetesConfig getenv = []"

text \<open>The global provider: what the variable holds after the call, with the error.\<close>

definition InitializeStaticClientProvider ::
    "('cfg, 'k, 'd, 'a, 'i) client_libs \<Rightarrow> (string \<Rightarrow> string) \<Rightarrow> 'cfg client_provider option \<Rightarrow>
     go_error option \<times> 'cfg client_provider option" where
  "InitializeStaticClientProvider CL getenv static =
     (case NewClientProvider CL getenv of
        Inl err \<Rightarrow> (Some err, static)
      | Inr provider \<Rightarrow> (None, Some provider))"

text \<open>Before it is initialised the process ends, with the report of the assertion.\<close>

definition StaticClientProvider ::
    "stack_frame list \<Rightarrow> 'cfg client_provider option \<Rightarrow> string + 'cfg client_provider option" where
  "StaticClientProvider frames static =
     (case Assert (static \<noteq> None)
             [MessageOther ''StaticClientProvider must be initialized before usage''] frames of
        Some report \<Rightarrow> Inl report
      | None \<Rightarrow> Inr static)"

section \<open>A slot is filled once\<close>

text \<open>
  A slot of a cache: reading what was kept gives it back, and keeping a value in one slot leaves the
  others alone. \<open>other\<close> is the rest of the cache.
\<close>

locale client_slot =
  fixes cached :: "'c \<Rightarrow> 'k option"
    and keep :: "'k \<Rightarrow> 'c \<Rightarrow> 'c"
    and other :: "'c \<Rightarrow> 'o"
  assumes cached_keep: "cached (keep x c) = Some x"
    and other_keep: "other (keep x c) = other c"
begin

lemma kept: "cached c = Some x \<Longrightarrow> cached_client cached keep made c = ((Some x, None), c)"
  by (simp add: cached_client_def)

lemma made_client:
  "cached c = None \<Longrightarrow> cached_client cached keep (Inr x) c = ((Some x, None), keep x c)"
  by (simp add: cached_client_def cached_keep)

lemma refused: "cached c = None \<Longrightarrow> cached_client cached keep (Inl e) c = ((None, Some e), c)"
  by (simp add: cached_client_def)

lemma answer_cached:
  "cached_client cached keep made c = ((r, None), c') \<Longrightarrow>
   \<exists>x. r = Some x \<and> cached c' = Some x"
  by (cases "cached c"; cases made) (auto simp: cached_client_def Let_def cached_keep dest: sym)

lemma filled: "cached c \<noteq> None \<Longrightarrow> cached (snd (cached_client cached keep made c)) = cached c"
  by (auto simp: cached_client_def)

lemma other_same: "other (snd (cached_client cached keep made c)) = other c"
  by (auto simp: cached_client_def Let_def other_keep split: option.split sum.split)

end

interpretation kube_slot: client_slot cachedKubernetesClient "\<lambda>x c. c\<lparr>cachedKubernetesClient := Some x\<rparr>"
    "\<lambda>c. (cachedDynamicClient c, cachedApiextensionsClient c, cachedDiscoveryClient c)"
  by unfold_locales simp_all

interpretation dynamic_slot: client_slot cachedDynamicClient "\<lambda>x c. c\<lparr>cachedDynamicClient := Some x\<rparr>"
    "\<lambda>c. (cachedKubernetesClient c, cachedApiextensionsClient c, cachedDiscoveryClient c)"
  by unfold_locales simp_all

interpretation apiext_slot: client_slot cachedApiextensionsClient
    "\<lambda>x c. c\<lparr>cachedApiextensionsClient := Some x\<rparr>"
    "\<lambda>c. (cachedKubernetesClient c, cachedDynamicClient c, cachedDiscoveryClient c)"
  by unfold_locales simp_all

interpretation discovery_slot: client_slot cachedDiscoveryClient
    "\<lambda>x c. c\<lparr>cachedDiscoveryClient := Some x\<rparr>"
    "\<lambda>c. (cachedKubernetesClient c, cachedDynamicClient c, cachedApiextensionsClient c)"
  by unfold_locales simp_all

text \<open>A use of the cache by anyone: one of the four getters, of any provider.\<close>

datatype 'cfg client_use =
    UseKubernetes "'cfg client_provider" | UseDynamic "'cfg client_provider"
  | UseApiextensions "'cfg client_provider" | UseDiscovery "'cfg client_provider"

fun use_client ::
    "('cfg, 'k, 'd, 'a, 'i) client_libs \<Rightarrow> 'cfg client_use \<Rightarrow> ('k, 'd, 'a, 'i) client_cache \<Rightarrow>
     ('k, 'd, 'a, 'i) client_cache" where
  "use_client CL (UseKubernetes p) c = snd (K8sClientSet CL p c)"
| "use_client CL (UseDynamic p) c = snd (DynamicClient CL p c)"
| "use_client CL (UseApiextensions p) c = snd (ApiExtensionsClient CL p c)"
| "use_client CL (UseDiscovery p) c = snd (DiscoveryClient CL p c)"

lemma use_client_keeps:
  assumes "cachedKubernetesClient c = Some x"
  shows "cachedKubernetesClient (use_client CL u c) = Some x"
proof (cases u)
  case (UseKubernetes p)
  then show ?thesis using assms kube_slot.filled [of c] by (simp add: K8sClientSet_def)
next
  case (UseDynamic p)
  then show ?thesis using assms dynamic_slot.other_same [of "clientDynamic CL (cpClientConfig p)" c]
    by (simp add: DynamicClient_def)
next
  case (UseApiextensions p)
  then show ?thesis
    using assms apiext_slot.other_same [of "clientApiextensions CL (cpClientConfig p)" c]
    by (simp add: ApiExtensionsClient_def)
next
  case (UseDiscovery p)
  then show ?thesis using assms discovery_slot.other_same [of "clientDiscovery CL (cpClientConfig p)" c]
    by (simp add: DiscoveryClient_def)
qed

lemma uses_keep:
  "cachedKubernetesClient c = Some x \<Longrightarrow>
   cachedKubernetesClient (fold (use_client CL) us c) = Some x"
  by (induction us arbitrary: c) (simp_all add: use_client_keeps)

text \<open>
  The first client set that was made is the one every later caller gets, without an error and
  without a new one being made, whatever other clients were asked for in between, and also from a
  provider with another configuration.
\<close>
theorem first_client_wins:
  assumes "K8sClientSet CL p c = ((r, None), c1)"
  shows "r \<noteq> None \<and>
    K8sClientSet CL q (fold (use_client CL) us c1) = ((r, None), fold (use_client CL) us c1)"
proof -
  from assms obtain x where r: "r = Some x" and x: "cachedKubernetesClient c1 = Some x"
    using kube_slot.answer_cached [of "clientKubernetes CL (cpClientConfig p)" c r c1]
    by (auto simp: K8sClientSet_def)
  from kube_slot.kept [OF uses_keep [OF x, of CL us]] r show ?thesis
    by (simp add: K8sClientSet_def)
qed

text \<open>A library whose clients are numbers; making a client from configuration 0 fails.\<close>

definition number_client :: "nat \<Rightarrow> go_error + nat" where
  "number_client n = (if n = 0 then Inl (ErrMsg ''no host'') else Inr n)"

definition number_libs :: "(nat, nat, nat, nat, nat) client_libs" where
  "number_libs =
     \<lparr>clientKubernetes = number_client, clientDynamic = number_client,
      clientApiextensions = number_client, clientDiscovery = number_client,
      configFromFlags = (\<lambda>p. Inr (length p)), configInCluster = Inr 0\<rparr>"

definition empty_cache :: "(nat, nat, nat, nat) client_cache" where
  "empty_cache = \<lparr>cachedKubernetesClient = None, cachedDynamicClient = None,
     cachedApiextensionsClient = None, cachedDiscoveryClient = None\<rparr>"

theorem first_client_wins_witness:
  "K8sClientSet number_libs \<lparr>cpClientConfig = 7\<rparr>
     (use_client number_libs (UseDynamic \<lparr>cpClientConfig = 2\<rparr>)
       (snd (K8sClientSet number_libs \<lparr>cpClientConfig = 5\<rparr>
         (snd (K8sClientSet number_libs \<lparr>cpClientConfig = 0\<rparr> empty_cache))))) =
   ((Some 5, None), empty_cache\<lparr>cachedKubernetesClient := Some 5, cachedDynamicClient := Some 2\<rparr>)"
proof -
  have "snd (K8sClientSet number_libs \<lparr>cpClientConfig = 0\<rparr> empty_cache) = empty_cache"
    by (simp add: K8sClientSet_def number_libs_def number_client_def cached_client_def empty_cache_def)
  moreover have made: "K8sClientSet number_libs \<lparr>cpClientConfig = 5\<rparr> empty_cache =
      ((Some 5, None), empty_cache\<lparr>cachedKubernetesClient := Some 5\<rparr>)"
    by (simp add: K8sClientSet_def number_libs_def number_client_def cached_client_def empty_cache_def)
  moreover from first_client_wins [OF made, of "\<lparr>cpClientConfig = 7\<rparr>" "[UseDynamic \<lparr>cpClientConfig = 2\<rparr>]"]
  have "K8sClientSet number_libs \<lparr>cpClientConfig = 7\<rparr> (use_client number_libs
      (UseDynamic \<lparr>cpClientConfig = 2\<rparr>) (empty_cache\<lparr>cachedKubernetesClient := Some 5\<rparr>)) =
      ((Some 5, None), use_client number_libs (UseDynamic \<lparr>cpClientConfig = 2\<rparr>)
        (empty_cache\<lparr>cachedKubernetesClient := Some 5\<rparr>))"
    by simp
  ultimately show ?thesis
    by (simp add: DynamicClient_def number_libs_def number_client_def cached_client_def empty_cache_def)
qed

end
