(* ===== verification/Start_Up.thy ===== *)
theory Start_Up
  imports Client_Provider Controller Ui_Api Executor Webhook
begin

text \<open>
  The start of the process, \<open>src/src/cmd/main.go\<close>, with the constructors it calls: the settings are
  read, the login provider is chosen, the servers, the scheduler and the reconciler are made, and
  once this instance leads, the scheduler and the executor start. What the controller runtime and
  the operating system do is \<open>start_lib\<close>, an error or none per call. A failed assertion ends the
  process: the left value is the text it leaves. Flags and log lines are left out.
\<close>

section \<open>Settings of the parts\<close>

definition splitAndTrim :: "string \<Rightarrow> char \<Rightarrow> string list" where
  "splitAndTrim s sep =
     filter (\<lambda>trimmed. trimmed \<noteq> []) (map strings_TrimSpace (strings_Split sep s))"

record manager_options =
  moLeaderElection :: bool
  moLeaderElectionID :: string
  moLeaderElectionNamespace :: string
  moLeaderElectionReleaseOnCancel :: bool
  moDefaultNamespaces :: "string list"

definition manager_options_of :: "settings \<Rightarrow> manager_options" where
  "manager_options_of m =
     (let watchNamespace = GetValue m ''WATCH_NAMESPACE'';
          leaderElectionID = GetValue m ''LEADER_ELECTION_ID''
      in \<lparr>moLeaderElection = leaderElectionID \<noteq> [],
          moLeaderElectionID = leaderElectionID,
          moLeaderElectionNamespace = GetValue m ''POD_NAMESPACE'',
          moLeaderElectionReleaseOnCancel = True,
          moDefaultNamespaces = [watchNamespace]\<rparr>)"

definition oidc_settings :: "settings \<Rightarrow> oidc_config" where
  "oidc_settings m =
     \<lparr>ocIssuerURL = GetValue m ''OIDC_ISSUER_URL'',
      ocClientID = GetValue m ''OIDC_CLIENT_ID'',
      ocClientSecret = GetValue m ''OIDC_CLIENT_SECRET'',
      ocRedirectURL = GetValue m ''OIDC_REDIRECT_URL'',
      ocSessionSecret = GetValue m ''OIDC_SESSION_SECRET'',
      ocInsecureSkipVerify = (GetValue m ''OIDC_INSECURE_SKIP_VERIFY'' = ''true''),
      ocLogoutURL = GetValue m ''OIDC_LOGOUT_URL'',
      ocAllowedGroupPrefix = GetValue m ''OIDC_ALLOWED_GROUP_PREFIX'',
      ocAllowedGroupPattern = GetValue m ''OIDC_ALLOWED_GROUP_PATTERN'',
      ocAdditionalScopes = splitAndTrim (GetValue m ''OIDC_ADDITIONAL_SCOPES'') CHR '',''\<rparr>"

definition github_settings :: "settings \<Rightarrow> github_config" where
  "github_settings m =
     \<lparr>gcClientID = GetValue m ''GITHUB_CLIENT_ID'',
      gcClientSecret = GetValue m ''GITHUB_CLIENT_SECRET'',
      gcRedirectURL = GetValue m ''GITHUB_REDIRECT_URL'',
      gcSessionSecret = GetValue m ''GITHUB_SESSION_SECRET''\<rparr>"

definition default_groups :: "settings \<Rightarrow> string list" where
  "default_groups m =
     (let defaultGroupsStr = GetValue m ''DEFAULT_ALLOWED_GROUPS''
      in if defaultGroupsStr = [] then []
         else map (\<lambda>group_name. strings_ToLower (strings_TrimSpace group_name))
                (filter (\<lambda>group_name. group_name \<noteq> []) (splitAndTrim defaultGroupsStr CHR '','')))"

text \<open>\<open>assert.NoError\<close> in front of the rest of \<open>main\<close>.\<close>

definition no_error :: "string \<Rightarrow> go_error + 'a \<Rightarrow> ('a \<Rightarrow> string + 'b) \<Rightarrow> string + 'b" where
  "no_error message x rest =
     (case x of
        Inl err \<Rightarrow> Inl (message @ nl @ error_text err @ nl)
      | Inr v \<Rightarrow> rest v)"

lemma no_error_simps [simp]:
  "no_error msg (Inr v) f = f v"
  "no_error msg x f = Inr y \<longleftrightarrow> (\<exists>v. x = Inr v \<and> f v = Inr y)"
  by (simp_all add: no_error_def split: sum.split)

lemma case_sum_Inr:
  "(case x of Inl e \<Rightarrow> Inl e | Inr v \<Rightarrow> f v) = Inr y \<longleftrightarrow> (\<exists>v. x = Inr v \<and> f v = Inr y)"
  by (simp split: sum.split)

text \<open>The report is that of \<open>NoError\<close>.\<close>

lemma no_error_report: "no_error msg (Inl err) f = Inl (the (NoError (Some err) msg))"
  by (simp add: no_error_def NoError_def)

definition choose_provider ::
    "'w oauth_lib \<Rightarrow> aead \<Rightarrow> string option \<Rightarrow> settings \<Rightarrow> 'w \<Rightarrow> string + auth_provider option" where
  "choose_provider OL A random m w =
     (let oidcIssuer = GetValue m ''OIDC_ISSUER_URL'';
          oidcClientID = GetValue m ''OIDC_CLIENT_ID'';
          oidcClientSecret = GetValue m ''OIDC_CLIENT_SECRET'';
          githubClientID = GetValue m ''GITHUB_CLIENT_ID'';
          githubClientSecret = GetValue m ''GITHUB_CLIENT_SECRET''
      in if oidcIssuer \<noteq> [] \<and> oidcClientID \<noteq> [] \<and> oidcClientSecret \<noteq> [] then
           no_error ''failed to initialize OIDC provider'' (NewOIDCAuth OL A random (oidc_settings m) w)
             (\<lambda>a. Inr (Some (OIDC a)))
         else if githubClientID \<noteq> [] \<and> githubClientSecret \<noteq> [] then
           no_error ''failed to initialize GitHub OAuth provider''
             (NewGitHubOAuth A random (github_settings m)) (\<lambda>g. Inr (Some (GitHub g)))
         else Inr None)"

section \<open>The parts\<close>

text \<open>
  \<open>ui.NewServer\<close> and \<open>Run\<close>, and the same of the webhook server: the handler is made and the port
  is listened on, in the background.
\<close>

definition NewServer :: "string \<Rightarrow> auth_provider option \<Rightarrow> string list \<Rightarrow> ui_server" where
  "NewServer version auth defaultAllowedGroups =
     \<lparr>usAuth = auth, usDefaultAllowedGroups = defaultAllowedGroups, usVersion = version\<rparr>"

definition listen_address :: "string \<Rightarrow> string" where
  "listen_address port = '':'' @ port"

definition webhook_enabled :: "settings \<Rightarrow> bool" where
  "webhook_enabled m \<longleftrightarrow> GetValue m ''WEBHOOK_SERVER_ENABLED'' \<noteq> ''false''"

text \<open>
  The running process: the reconciler holds the scheduler and the state of the operator; the locks
  of the executor; the two servers with the address each listens on.
\<close>

record ('w, 'c) process =
  prOptions :: manager_options
  prController :: "('w, 'c) controller"
  prLocks :: "string \<rightharpoonup> bool"
  prUi :: ui_server
  prUiAddr :: string
  prWebhookAddr :: "string option"

record 'w start_lib =
  slNewManager :: "manager_options \<Rightarrow> 'w \<Rightarrow> go_error + unit"
  slAddToScheme :: "go_error + unit"
  slComplete :: "go_error + unit"

definition initial_sys :: "settings \<Rightarrow> 'w \<Rightarrow> 'w sys" where
  "initial_sys m w =
     \<lparr>syWorld = w, sySettings = m, syHealth = NewHealthCheck, syMetrics = [], syCleanups = [],
      syDiscoveries = [], syHttp = [], syCalls = []\<rparr>"

definition made_process ::
    "settings \<Rightarrow> auth_provider option \<Rightarrow> string \<Rightarrow> 'w \<Rightarrow> 'c \<Rightarrow> ('w, 'c) process" where
  "made_process m authProvider version w c =
     (let cronManager = NewScheduler c (initial_sys m w);
          uiServer = NewServer version authProvider (default_groups m)
      in \<lparr>prOptions = manager_options_of m,
          prController = SetupWithManager cronManager,
          prLocks = exSyncer (NewRenovateExecutor (initial_sys m w)),
          prUi = uiServer,
          prUiAddr = listen_address (GetValue m ''SERVER_PORT''),
          prWebhookAddr = (if webhook_enabled m
            then Some (listen_address (GetValue m ''WEBHOOK_SERVER_PORT'')) else None)\<rparr>)"

definition main_setup ::
    "'w start_lib \<Rightarrow> (go_error + unit) \<Rightarrow> 'w oauth_lib \<Rightarrow> aead \<Rightarrow> string option \<Rightarrow> (string \<Rightarrow> string) \<Rightarrow>
     string \<Rightarrow> 'w \<Rightarrow> 'c \<Rightarrow> string + ('w, 'c) process" where
  "main_setup K clients OL A random getenv version w c =
     no_error ''failed to initialize config module'' (InitializeConfigModule getenv main_config) (\<lambda>m.
     no_error ''failed to create new manager'' (slNewManager K (manager_options_of m) w) (\<lambda>_.
     no_error ''failed to register scheme'' (slAddToScheme K) (\<lambda>_.
     no_error ''failed to create static clientprovider'' clients (\<lambda>_.
     (case choose_provider OL A random m w of
        Inl report \<Rightarrow> Inl report
      | Inr authProvider \<Rightarrow>
          no_error ''failed to setup manager'' (slComplete K) (\<lambda>_.
            Inr (made_process m authProvider version w c)))))))"

lemma main_setup_Inr:
  "main_setup K clients OL A random getenv version w c = Inr p \<longleftrightarrow>
     (\<exists>m auth. InitializeConfigModule getenv main_config = Inr m \<and>
        slNewManager K (manager_options_of m) w = Inr () \<and> slAddToScheme K = Inr () \<and>
        clients = Inr () \<and> slComplete K = Inr () \<and> choose_provider OL A random m w = Inr auth \<and>
        p = made_process m auth version w c)"
  unfolding main_setup_def by (auto simp: case_sum_Inr)

text \<open>
  Once this instance leads: the scheduler starts, then the executor, of which \<open>n\<close> rounds are run
  here; its own state are its locks.
\<close>

definition on_elected ::
    "'w env \<Rightarrow> (schedule_fn, 'c) cron_lib \<Rightarrow> nat \<Rightarrow> ('w, 'c) process \<Rightarrow> ('w, 'c) process" where
  "on_elected E L n p =
     (let co = prController p;
          co = co\<lparr>coScheduler := Start_scheduler E L (coScheduler co)\<rparr>;
          x = Start E n \<lparr>exSyncer = prLocks p, exSys = co_sys co\<rparr>
      in p\<lparr>prController := with_sys (exSys x) co, prLocks := exSyncer x\<rparr>)"

end
