(* ===== verification/Start_Properties.thy ===== *)
theory Start_Properties
  imports Start_Up Controller_Properties Ui_Properties
begin

text \<open>
  What the environment of the process decides: whether it starts, what runs then, the limits every
  job is given, and what the default groups mean for a user of the UI.
\<close>

section \<open>The value of a setting\<close>

lemma main_value:
  assumes "InitializeConfigModule getenv main_config = Inr m" and "d \<in> set main_config"
  shows "GetValue m (ciKey d) = config_value getenv d"
  using init_settings_value [OF assms(1) [unfolded InitializeConfigModule_def] main_config_distinct assms(2)]
  by (simp add: GetValue_def)

lemma main_items:
  "optional_item ''WEBHOOK_SERVER_ENABLED'' ''false'' \<in> set main_config"
  "optional_item ''OIDC_ISSUER_URL'' [] \<in> set main_config"
  "optional_item ''OIDC_CLIENT_ID'' [] \<in> set main_config"
  "optional_item ''OIDC_CLIENT_SECRET'' [] \<in> set main_config"
  "optional_item ''GITHUB_CLIENT_ID'' [] \<in> set main_config"
  "optional_item ''GITHUB_CLIENT_SECRET'' [] \<in> set main_config"
  "optional_item ''LEADER_ELECTION_ID'' [] \<in> set main_config"
  "optional_item ''WATCH_NAMESPACE'' [] \<in> set main_config"
  "optional_item ''DEFAULT_ALLOWED_GROUPS'' [] \<in> set main_config"
  "optional_item ''GITHUB_SESSION_SECRET'' [] \<in> set main_config"
  "optional_item ''OIDC_SESSION_SECRET'' [] \<in> set main_config"
  unfolding main_config_def by (simp_all only: list.set insert_iff simp_thms)

lemma optional_value:
  assumes "InitializeConfigModule getenv main_config = Inr m" and "optional_item k d \<in> set main_config"
  shows "GetValue m k = (if getenv k \<noteq> [] then getenv k else d)"
  using main_value [OF assms] by (simp add: optional_item_def config_value_def)

lemmas main_values = main_items [THEN [2] optional_value]

section \<open>When the process starts\<close>

definition oidc_configured :: "(string \<Rightarrow> string) \<Rightarrow> bool" where
  "oidc_configured getenv \<longleftrightarrow>
     getenv ''OIDC_ISSUER_URL'' \<noteq> [] \<and> getenv ''OIDC_CLIENT_ID'' \<noteq> [] \<and>
     getenv ''OIDC_CLIENT_SECRET'' \<noteq> []"

definition github_configured :: "(string \<Rightarrow> string) \<Rightarrow> bool" where
  "github_configured getenv \<longleftrightarrow>
     getenv ''GITHUB_CLIENT_ID'' \<noteq> [] \<and> getenv ''GITHUB_CLIENT_SECRET'' \<noteq> []"

definition effective :: "(string \<Rightarrow> string) \<Rightarrow> string \<Rightarrow> string \<Rightarrow> string" where
  "effective getenv k d = (if getenv k \<noteq> [] then getenv k else d)"

definition admissible_environment :: "(string \<Rightarrow> string) \<Rightarrow> bool" where
  "admissible_environment getenv \<longleftrightarrow>
     ParseInt 64 (effective getenv ''SERVER_PORT'' ''8081'') \<noteq> None \<and>
     ParseInt 64 (effective getenv ''WEBHOOK_SERVER_PORT'' ''8082'') \<noteq> None \<and>
     ParseInt 64 (effective getenv ''JOB_TIMEOUT_SECONDS'' ''1800'') \<noteq> None \<and>
     ParseInt 64 (effective getenv ''JOB_BACKOFF_LIMIT'' ''1'') \<noteq> None \<and>
     (\<exists>i. ParseInt 64 (effective getenv ''JOB_TTL_SECONDS_AFTER_FINISHED'' ''-1'') = Some i \<and> -1 \<le> i)"

definition passes :: "(string \<Rightarrow> string) \<Rightarrow> config_item_description \<Rightarrow> bool" where
  "passes getenv d \<longleftrightarrow> (case ciValidate d of None \<Rightarrow> True | Some f \<Rightarrow> f (config_value getenv d) = None)"

lemma passes_simps [simp]:
  "passes getenv (optional_item k v)"
  "passes getenv (checked_item k v f) \<longleftrightarrow> f (effective getenv k v) = None"
  by (simp_all add: passes_def optional_item_def checked_item_def config_value_def effective_def)

lemma main_config_passes: "list_all (passes getenv) main_config \<longleftrightarrow> admissible_environment getenv"
  unfolding main_config_def list_all_Cons_Nil passes_simps
  by (simp add: admissible_environment_def needs_integer_None ttl_validate_None)

lemma settings_initialise:
  "(\<exists>m. InitializeConfigModule getenv main_config = Inr m) \<longleftrightarrow> admissible_environment getenv"
proof
  assume "\<exists>m. InitializeConfigModule getenv main_config = Inr m"
  then obtain m where m: "InitializeConfigModule getenv main_config = Inr m" by blast
  show "admissible_environment getenv"
    using init_settings_value [OF m [unfolded InitializeConfigModule_def] main_config_distinct]
    by (auto simp: list_all_iff passes_def simp flip: main_config_passes split: option.split)
next
  assume ok: "admissible_environment getenv"
  have "\<exists>m'. init_settings getenv Map.empty main_config = Inr m'"
  proof (rule init_settings_total)
    show "ciOptional d" if "d \<in> set main_config" for d
      using main_config_optional that by (simp add: list_all_iff)
    show "f (config_value getenv d) = None" if "d \<in> set main_config" and "ciValidate d = Some f" for d f
      using main_config_passes [of getenv] ok that by (auto simp: list_all_iff passes_def)
  qed
  then show "\<exists>m. InitializeConfigModule getenv main_config = Inr m"
    by (simp add: InitializeConfigModule_def)
qed

text \<open>
  C34: The process starts exactly if the five checked settings, or their defaults, are integers of 64
  bits, the time to live being at least -1, the runtime and the clients accept, and the provider
  that the environment configures can be set up; otherwise it ends with a report.
\<close>
theorem starts_iff:
  "(\<exists>p :: ('w, 'c) process. main_setup K clients OL A random getenv version w c = Inr p) \<longleftrightarrow>
     (\<exists>m. InitializeConfigModule getenv main_config = Inr m \<and> admissible_environment getenv \<and>
        slNewManager K (manager_options_of m) w = Inr () \<and> slAddToScheme K = Inr () \<and>
        clients = Inr () \<and> slComplete K = Inr () \<and>
        (if oidc_configured getenv then \<exists>a. NewOIDCAuth OL A random (oidc_settings m) w = Inr a
         else if github_configured getenv
         then \<not> (random = None \<and> getenv ''GITHUB_SESSION_SECRET'' = []) else True))"
proof -
  have "(\<exists>x. choose_provider OL A random m w = Inr x) \<longleftrightarrow>
      (if oidc_configured getenv then \<exists>a. NewOIDCAuth OL A random (oidc_settings m) w = Inr a
       else if github_configured getenv
       then \<not> (random = None \<and> getenv ''GITHUB_SESSION_SECRET'' = []) else True)"
    if m: "InitializeConfigModule getenv main_config = Inr m" for m
    by (auto simp: choose_provider_def Let_def main_values [OF m] oidc_configured_def
        github_configured_def NewGitHubOAuth_def newEncryptionKey_def github_settings_def
        split: option.splits sum.splits)
  moreover have "(\<exists>p :: ('w, 'c) process. main_setup K clients OL A random getenv version w c = Inr p) \<longleftrightarrow>
      (\<exists>m. InitializeConfigModule getenv main_config = Inr m \<and>
        slNewManager K (manager_options_of m) w = Inr () \<and> slAddToScheme K = Inr () \<and>
        clients = Inr () \<and> slComplete K = Inr () \<and>
        (\<exists>x. choose_provider OL A random m w = Inr x))"
    unfolding main_setup_Inr by blast
  ultimately show ?thesis using settings_initialise [of getenv] by blast
qed

text \<open>An environment without any variable, and a runtime that accepts everything.\<close>

definition accepting :: "'w start_lib" where
  "accepting = \<lparr>slNewManager = (\<lambda>_ _. Inr ()), slAddToScheme = Inr (), slComplete = Inr ()\<rparr>"

lemma empty_environment: "admissible_environment (\<lambda>_. [])"
proof -
  have "ParseInt 64 ''8081'' = Some 8081" "ParseInt 64 ''8082'' = Some 8082"
    "ParseInt 64 ''1800'' = Some 1800" "ParseInt 64 ''1'' = Some 1" "ParseInt 64 ''-1'' = Some (-1)"
    by code_simp+
  then show ?thesis by (simp add: admissible_environment_def effective_def)
qed

theorem starts_iff_witness:
  "\<exists>p :: (unit, nat) process. main_setup accepting (Inr ()) (undefined :: unit oauth_lib) plain_aead
     None (\<lambda>_. []) ''dev'' () 0 = Inr p"
proof -
  obtain m where "InitializeConfigModule (\<lambda>_. []) main_config = Inr m"
    using settings_initialise [of "\<lambda>_. []"] empty_environment by blast
  then show ?thesis
    unfolding starts_iff by (intro exI [of _ m])
      (simp add: empty_environment accepting_def oidc_configured_def github_configured_def)
qed

section \<open>What runs then\<close>

lemma TrimSpace_Nil: "strings_TrimSpace [] = []"
  by (simp add: strings_TrimSpace_def)

lemma ToLower_not_Nil: "strings_ToLower g \<noteq> [] \<longleftrightarrow> g \<noteq> []"
  by (simp add: strings_ToLower_def)

lemma default_groups_set:
  assumes "InitializeConfigModule getenv main_config = Inr m"
  shows "set (default_groups m) = (\<lambda>part. strings_ToLower (strings_TrimSpace part)) `
    {part \<in> set (strings_Split CHR '','' (getenv ''DEFAULT_ALLOWED_GROUPS'')). strings_TrimSpace part \<noteq> []}"
proof -
  have "set (splitAndTrim str sep) = strings_TrimSpace ` {part \<in> set (strings_Split sep str). strings_TrimSpace part \<noteq> []}"
    for str sep by (auto simp: splitAndTrim_def)
  moreover have "filter (\<lambda>g. g \<noteq> []) (splitAndTrim str sep) = splitAndTrim str sep" for str sep
    by (simp add: splitAndTrim_def)
  ultimately show ?thesis
    by (simp add: default_groups_def main_values [OF assms] image_image strings_TrimSpace_def [of "[]"])
qed

text \<open>
  What the environment makes of a started process: the login provider, the ports, whether the
  webhook server runs, leader election, and default groups in normal form. Nothing is scheduled or
  locked yet, the scheduler and the executor are not running, and the table of schedules is that of
  a fresh reconciler, before and after this instance is elected.
\<close>
theorem process_started:
  assumes "main_setup K clients OL A random getenv version w c = Inr p"
  shows "(case usAuth (prUi p) of
       None \<Rightarrow> \<not> oidc_configured getenv \<and> \<not> github_configured getenv
     | Some (OIDC a) \<Rightarrow> oidc_configured getenv
     | Some (GitHub g) \<Rightarrow> \<not> oidc_configured getenv \<and> github_configured getenv) \<and>
    (prWebhookAddr p = None \<longleftrightarrow> getenv ''WEBHOOK_SERVER_ENABLED'' \<in> {[], ''false''}) \<and>
    (moLeaderElection (prOptions p) \<longleftrightarrow> getenv ''LEADER_ELECTION_ID'' \<noteq> []) \<and>
    moDefaultNamespaces (prOptions p) = [getenv ''WATCH_NAMESPACE''] \<and>
    set (usDefaultAllowedGroups (prUi p)) = (\<lambda>part. strings_ToLower (strings_TrimSpace part)) `
      {part \<in> set (strings_Split CHR '','' (getenv ''DEFAULT_ALLOWED_GROUPS'')).
        strings_TrimSpace part \<noteq> []} \<and>
    scEntries (coScheduler (prController p)) = Map.empty \<and> coSyncers (prController p) = Map.empty \<and>
    prLocks p = Map.empty \<and> syHealth (co_sys (prController p)) = NewHealthCheck \<and>
    syCalls (co_sys (prController p)) = [] \<and>
    controller_reach E L U c (prController p) \<and>
    controller_reach E L U c (prController (on_elected E L n p))"
proof -
  from assms obtain m auth where m: "InitializeConfigModule getenv main_config = Inr m"
    and auth: "choose_provider OL A random m w = Inr auth" and p: "p = made_process m auth version w c"
    unfolding main_setup_Inr by blast
  note simps = made_process_def NewServer_def SetupWithManager_def NewScheduler_def initial_sys_def
  have "case auth of None \<Rightarrow> \<not> oidc_configured getenv \<and> \<not> github_configured getenv
     | Some (OIDC a) \<Rightarrow> oidc_configured getenv
     | Some (GitHub g) \<Rightarrow> \<not> oidc_configured getenv \<and> github_configured getenv"
    using auth by (auto simp: choose_provider_def Let_def main_values [OF m] oidc_configured_def
        github_configured_def split: if_splits)
  moreover have "prWebhookAddr p = None \<longleftrightarrow> getenv ''WEBHOOK_SERVER_ENABLED'' \<in> {[], ''false''}"
    by (auto simp: p simps webhook_enabled_def main_values [OF m])
  moreover have reach: "controller_reach E L U c (prController p)"
    using controller_reach.set_up [of E L U c "initial_sys m w"] by (simp add: p made_process_def Let_def)
  moreover have "controller_reach E L U c (prController (on_elected E L n p))"
    using controller_reach.others [OF controller_reach.started [OF reach]]
    by (simp add: on_elected_def Let_def)
  ultimately show ?thesis
    by (simp add: p simps manager_options_of_def Let_def main_values [OF m] default_groups_set [OF m])
qed

lemma empty_start:
  "\<exists>p :: (unit, table_cron) process. main_setup accepting (Inr ()) (undefined :: unit oauth_lib) plain_aead
     None (\<lambda>_. []) ''dev'' () (0, Map.empty) = Inr p"
proof -
  obtain m where m: "InitializeConfigModule (\<lambda>_. []) main_config = Inr m"
    using settings_initialise [of "\<lambda>_. []"] empty_environment by blast
  have "choose_provider (undefined :: unit oauth_lib) plain_aead None m () = Inr None"
    by (simp add: choose_provider_def Let_def main_values [OF m])
  then show ?thesis unfolding main_setup_Inr using m by (simp add: accepting_def)
qed

theorem process_started_witness:
  "\<exists>p :: (unit, table_cron) process. main_setup accepting (Inr ()) (undefined :: unit oauth_lib) plain_aead
     None (\<lambda>_. []) ''dev'' () (0, Map.empty) = Inr p \<and>
     usAuth (prUi p) = None \<and> prWebhookAddr p = None \<and> \<not> moLeaderElection (prOptions p) \<and>
     usDefaultAllowedGroups (prUi p) = []"
proof -
  obtain p :: "(unit, table_cron) process" where p: "main_setup accepting (Inr ())
      (undefined :: unit oauth_lib) plain_aead None (\<lambda>_. []) ''dev'' () (0, Map.empty) = Inr p"
    using empty_start by blast
  note start = process_started [OF p, of undefined cron_table no_urls 0]
  from start have "case usAuth (prUi p) of None \<Rightarrow> \<not> oidc_configured (\<lambda>_. []) \<and> \<not> github_configured (\<lambda>_. [])
     | Some (OIDC a) \<Rightarrow> oidc_configured (\<lambda>_. [])
     | Some (GitHub g) \<Rightarrow> \<not> oidc_configured (\<lambda>_. []) \<and> github_configured (\<lambda>_. [])" by (rule conjunct1)
  then have "usAuth (prUi p) = None"
    by (simp add: oidc_configured_def github_configured_def split: option.splits auth_provider.splits)
  with p start show ?thesis
    by (intro exI [of _ p]) (simp add: TrimSpace_Nil cong: conj_cong)
qed

section \<open>Default groups\<close>

text \<open>
  C14: From the environment to the screen: with a login provider, a user sees a resource that names
  no groups exactly if \<open>DEFAULT_ALLOWED_GROUPS\<close> lists none, or one of the first hundred groups that
  the provider claims is a valid name, satisfies the policy, and equals a listed one up to case and
  surrounding space.
\<close>
theorem default_groups_admit:
  assumes "main_setup K clients OL A random getenv version w c = Inr p" and "usAuth (prUi p) = Some a"
    and "GetRenovateJob E n ns s = Inr job" and "spAllowedGroups (rjSpec job) = []"
    and "uqSession r = Some x" and "sdGroups x = ValidateAndNormalizeGroups cfg claims"
  shows "authorizeAndGetJob E (prUi p) r ns n s = Some job \<longleftrightarrow>
    (let parts = set (strings_Split CHR '','' (getenv ''DEFAULT_ALLOWED_GROUPS''))
     in strings_TrimSpace ` parts \<subseteq> {[]} \<or>
        (\<exists>claim \<in> set (take 100 claims). \<exists>part \<in> parts.
           validateGroupName (strings_TrimSpace claim) = None \<and>
           strings_ToLower (strings_TrimSpace claim) = strings_ToLower (strings_TrimSpace part) \<and>
           group_allowed cfg (strings_ToLower (strings_TrimSpace part))))"
proof -
  from assms(1) obtain m auth where m: "InitializeConfigModule getenv main_config = Inr m"
    and p: "p = made_process m auth version w c"
    unfolding main_setup_Inr by blast
  have d: "usDefaultAllowedGroups (prUi p) = default_groups m"
    by (simp add: p made_process_def NewServer_def)
  have "default_groups m = [] \<longleftrightarrow> strings_TrimSpace ` set (strings_Split CHR '','' (getenv ''DEFAULT_ALLOWED_GROUPS'')) \<subseteq> {[]}"
    using default_groups_set [OF m] unfolding set_empty [symmetric] by auto
  moreover have "set (sdGroups x) \<inter> set (default_groups m) \<noteq> {} \<longleftrightarrow>
      (\<exists>claim \<in> set (take 100 claims). \<exists>part \<in> set (strings_Split CHR '','' (getenv ''DEFAULT_ALLOWED_GROUPS'')).
         validateGroupName (strings_TrimSpace claim) = None \<and>
         strings_ToLower (strings_TrimSpace claim) = strings_ToLower (strings_TrimSpace part) \<and>
         group_allowed cfg (strings_ToLower (strings_TrimSpace part)))" (is "?l \<longleftrightarrow> ?r")
  proof
    assume ?l
    then show ?r unfolding assms(6) validated_set default_groups_set [OF m]
      by (fastforce simp: maxGroupsPerUser_def)
  next
    assume ?r
    then obtain claim part where c: "claim \<in> set (take 100 claims)" "validateGroupName (strings_TrimSpace claim) = None"
      and part: "part \<in> set (strings_Split CHR '','' (getenv ''DEFAULT_ALLOWED_GROUPS''))"
      and eq: "strings_ToLower (strings_TrimSpace claim) = strings_ToLower (strings_TrimSpace part)"
      and ok: "group_allowed cfg (strings_ToLower (strings_TrimSpace part))" by blast
    let ?g = "strings_ToLower (strings_TrimSpace part)"
    have "?g \<noteq> []" using c(2) eq by (metis ToLower_not_Nil validateGroupName_None)
    then have "?g \<in> set (default_groups m)"
      using part unfolding default_groups_set [OF m] by (auto simp: ToLower_not_Nil)
    moreover have "?g \<in> set (sdGroups x)"
      unfolding assms(6) validated_set using c ok eq by (auto simp: maxGroupsPerUser_def)
    ultimately show ?l by blast
  qed
  ultimately show ?thesis
    using assms(2-5) by (simp add: authorize_iff may_see_def effective_groups_def normalizeGroups_def d Let_def)
qed

text \<open>A provider for the example: it announces nothing and refuses every exchange.\<close>

definition silent_lib :: "unit oauth_lib" where
  "silent_lib = \<lparr>olNewProvider = (\<lambda>_ _ _. Inr None), olCompile = (\<lambda>_. Inr (\<lambda>_. True)),
     olAuthCodeURL = (\<lambda>c _ _. c), olExchange = (\<lambda>_ _. Inl (ErrOther ''oauth'')),
     olVerify = (\<lambda>_ _. Inl (ErrOther ''token''))\<rparr>"

definition group_env :: "string \<Rightarrow> string" where
  "group_env k =
     (if k = ''DEFAULT_ALLOWED_GROUPS'' then ''ops, Team-A''
      else if k \<in> {''OIDC_ISSUER_URL'', ''OIDC_CLIENT_ID'', ''OIDC_CLIENT_SECRET'', ''OIDC_SESSION_SECRET''}
      then ''x'' else [])"

lemma group_start:
  "\<exists>p :: (unit, nat) process. \<exists>a. main_setup accepting (Inr ()) silent_lib plain_aead None group_env
     ''dev'' () 0 = Inr p \<and> usAuth (prUi p) = Some a"
proof -
  have "admissible_environment group_env"
    using empty_environment by (simp add: admissible_environment_def effective_def group_env_def)
  then obtain m where m: "InitializeConfigModule group_env main_config = Inr m"
    using settings_initialise by blast
  have "\<exists>a. NewOIDCAuth silent_lib plain_aead None (oidc_settings m) () = Inr a"
    by (auto simp: NewOIDCAuth_def silent_lib_def newEncryptionKey_def oidc_settings_def
        main_values [OF m] group_env_def Let_def)
  then obtain a where "choose_provider silent_lib plain_aead None m () = Inr (Some a)"
    by (auto simp: choose_provider_def main_values [OF m] group_env_def)
  then have "main_setup accepting (Inr ()) silent_lib plain_aead None group_env ''dev'' () (0 :: nat) =
      Inr (made_process m (Some a) ''dev'' () 0)"
    unfolding main_setup_Inr using m by (intro exI [of _ m] exI [of _ "Some a"]) (simp add: accepting_def)
  then show ?thesis by (intro exI [of _ "made_process m (Some a) ''dev'' () 0"] exI [of _ a])
      (simp add: made_process_def NewServer_def)
qed

theorem default_groups_admit_witness:
  "\<exists>p :: (unit, nat) process. main_setup accepting (Inr ()) silent_lib plain_aead None group_env ''dev'' () 0 = Inr p \<and>
     authorizeAndGetJob memory_env (prUi p) (example_ui_request\<lparr>uqSession := Some (outsider\<lparr>sdGroups :=
         ValidateAndNormalizeGroups example_policy [''other'', '' TEAM-a'']\<rparr>)\<rparr>)
       ''b'' ''a'' (job_sys [scheduled_job ''a'' ''b'' ''@daily'']) = Some (scheduled_job ''a'' ''b'' ''@daily'')"
proof -
  let ?rj = "scheduled_job ''a'' ''b'' ''@daily''"
  obtain p :: "(unit, nat) process" and a where p: "main_setup accepting (Inr ()) silent_lib plain_aead None
      group_env ''dev'' () 0 = Inr p" and a: "usAuth (prUi p) = Some a"
    using group_start by blast
  have get: "GetRenovateJob memory_env ''a'' ''b'' (job_sys [?rj]) = Inr ?rj"
    by (simp add: GetRenovateJob_def loadRenovateJob_def job_sys_def memory_env_def memory_get_def scheduled_job_def)
  have none: "spAllowedGroups (rjSpec ?rj) = []" by (simp add: scheduled_job_def zero_spec_def)
  have "strings_Split CHR '','' (group_env ''DEFAULT_ALLOWED_GROUPS'') = [''ops'', '' Team-A'']"
    by (simp add: group_env_def)
  moreover have "validateGroupName (strings_TrimSpace '' TEAM-a'') = None"
    "strings_ToLower (strings_TrimSpace '' TEAM-a'') = ''team-a''"
    "strings_ToLower (strings_TrimSpace '' Team-A'') = ''team-a''" "group_allowed example_policy ''team-a''"
    by code_simp+
  ultimately show ?thesis
    using default_groups_admit [OF p a get none, of _ _ example_policy "[''other'', '' TEAM-a'']"] p
    by (intro exI [of _ p]) (simp add: Let_def)
qed

section \<open>Limits of the jobs\<close>

lemma ParseInt_narrow:
  "ParseInt 64 s = Some i \<Longrightarrow> ParseInt 32 s = (if in_range 32 i then Some i else None)"
  by (auto simp: ParseInt_def Let_def split: prod.splits option.splits if_splits)

lemma sint_in_range:
  "in_range 32 i \<Longrightarrow> sint (word_of_int i :: 32 word) = i"
  "in_range 64 i \<Longrightarrow> sint (word_of_int i :: 64 word) = i"
  by (simp_all add: in_range_def sint_sbintrunc' signed_take_bit_int_eq_self)

text \<open>
  C35: The limits of every job of a started process: the deadline is the checked setting itself. The
  retry limit and the time to live are checked as integers of 64 bits but read as integers of 32: a
  retry limit that passes the check and is too large becomes 1800, and such a time to live is
  dropped.
\<close>
theorem job_limits:
  assumes "InitializeConfigModule getenv main_config = Inr m"
    and "job \<in> {newRenovateJob m rj project, newDiscoveryJob m rj}"
  shows "\<exists>t b l. ParseInt 64 (effective getenv ''JOB_TIMEOUT_SECONDS'' ''1800'') = Some t \<and>
      ParseInt 64 (effective getenv ''JOB_BACKOFF_LIMIT'' ''1'') = Some b \<and>
      ParseInt 64 (effective getenv ''JOB_TTL_SECONDS_AFTER_FINISHED'' ''-1'') = Some l \<and> -1 \<le> l \<and>
      map_option sint (jbActiveDeadlineSeconds job) = Some t \<and>
      map_option sint (jbBackoffLimit job) = Some (if b \<in> {-(2 ^ 31)..<2 ^ 31} then b else 1800) \<and>
      map_option sint (jbTTLSecondsAfterFinished job) =
        (if effective getenv ''JOB_TTL_SECONDS_AFTER_FINISHED'' ''-1'' = ''-1'' then None
         else if l < 2 ^ 31 then Some l else None)"
proof -
  have ok: "admissible_environment getenv" using assms(1) settings_initialise by blast
  note val = main_config_checked [THEN main_value [OF assms(1)]]
  have v: "GetValue m ''JOB_TIMEOUT_SECONDS'' = effective getenv ''JOB_TIMEOUT_SECONDS'' ''1800''"
    "GetValue m ''JOB_BACKOFF_LIMIT'' = effective getenv ''JOB_BACKOFF_LIMIT'' ''1''"
    "GetValue m ''JOB_TTL_SECONDS_AFTER_FINISHED'' = effective getenv ''JOB_TTL_SECONDS_AFTER_FINISHED'' ''-1''"
    using val(3-5) by (simp_all add: checked_item_def config_value_def effective_def)
  from ok obtain t b l where t: "ParseInt 64 (effective getenv ''JOB_TIMEOUT_SECONDS'' ''1800'') = Some t"
    and b: "ParseInt 64 (effective getenv ''JOB_BACKOFF_LIMIT'' ''1'') = Some b"
    and l: "ParseInt 64 (effective getenv ''JOB_TTL_SECONDS_AFTER_FINISHED'' ''-1'') = Some l" "-1 \<le> l"
    by (auto simp: admissible_environment_def)
  have deadline: "jbActiveDeadlineSeconds job = Some (word_of_int t)"
    and limit: "jbBackoffLimit job = Some (if in_range 32 b then word_of_int b else 1800)"
    and ttl: "jbTTLSecondsAfterFinished job =
      (if effective getenv ''JOB_TTL_SECONDS_AFTER_FINISHED'' ''-1'' = ''-1'' then None
       else if in_range 32 l then Some (word_of_int l) else None)"
    using assms(2) t b l ParseInt_narrow [OF b] ParseInt_narrow [OF l(1)]
    by (auto simp: newRenovateJob_def newDiscoveryJob_def batch_job_def Let_def getJobTimeoutSeconds_def
        getJobBackOffLimit_def getJobTTLSecondsAfterFinished_def v)
  have "map_option sint (jbActiveDeadlineSeconds job) = Some t"
    by (simp add: deadline sint_in_range(2) [OF ParseInt_in_range [OF t]])
  moreover have "map_option sint (jbBackoffLimit job) = Some (if b \<in> {-(2 ^ 31)..<2 ^ 31} then b else 1800)"
    using limit sint_in_range(1) [of b] by (simp add: in_range_def)
  moreover have "map_option sint (jbTTLSecondsAfterFinished job) =
      (if effective getenv ''JOB_TTL_SECONDS_AFTER_FINISHED'' ''-1'' = ''-1'' then None
       else if l < 2 ^ 31 then Some l else None)"
    using ttl l(2) sint_in_range(1) [of l] by (simp add: in_range_def)
  ultimately show ?thesis using t b l by blast
qed

theorem job_limits_witness:
  "\<exists>m. InitializeConfigModule (\<lambda>k. if k = ''JOB_BACKOFF_LIMIT'' then ''4294967296'' else []) main_config = Inr m \<and>
     map_option sint (jbBackoffLimit (newRenovateJob m example_job ''a'')) = Some 1800"
proof -
  let ?env = "\<lambda>k. if k = ''JOB_BACKOFF_LIMIT'' then ''4294967296'' else []"
  have b: "ParseInt 64 ''4294967296'' = Some 4294967296"
    by (simp add: ParseInt_def in_range_def is_digit_def)
  then have "admissible_environment ?env"
    using empty_environment by (simp add: admissible_environment_def effective_def)
  then obtain m where m: "InitializeConfigModule ?env main_config = Inr m"
    using settings_initialise by blast
  from job_limits [OF m, of "newRenovateJob m example_job ''a''" example_job "''a''"] b
  have "map_option sint (jbBackoffLimit (newRenovateJob m example_job ''a'')) = Some 1800"
    by (auto simp: effective_def)
  with m show ?thesis by blast
qed

end
