(* ===== verification/Executor_Progress.thy ===== *)
theory Executor_Progress
  imports Executor_Properties Manager_Properties
begin

text \<open>
  What the executor achieves when nothing fails: on a server without other clients, a visit that
  reports no error leaves no slot idle while a project is scheduled, and a resource whose runs end
  has every scheduled project started after as many visits as it has scheduled projects.
\<close>

section \<open>The statuses of a resource\<close>

definition statuses :: "job_view \<Rightarrow> string \<times> string \<Rightarrow> string \<rightharpoonup> renovate_project_status" where
  "statuses v k = map_of (map (\<lambda>p. (psName p, psStatus p)) (view_projects v k))"

definition in_status :: "renovate_project_status \<Rightarrow> job_view \<Rightarrow> string \<times> string \<Rightarrow> string set" where
  "in_status st v k = {n. statuses v k n = Some st}"

definition stored :: "renovate_job_spec \<Rightarrow> job_view \<Rightarrow> string \<times> string \<Rightarrow> bool" where
  "stored sp v k \<longleftrightarrow> (\<exists>st. v k = Some (sp, st)) \<and> tidy v k"

lemma map_of_names:
  assumes "distinct (map psName ps)" and "p \<in> set ps"
  shows "map_of (map (\<lambda>p. (psName p, psStatus p)) ps) (psName p) = Some (psStatus p)"
proof -
  have "distinct (map fst (map (\<lambda>p. (psName p, psStatus p)) ps))"
    using assms(1) by (simp add: comp_def)
  with assms(2) show ?thesis by (intro map_of_is_SomeI) auto
qed

lemma finite_in_status [simp]: "finite (in_status st v k)"
proof -
  have "in_status st v k \<subseteq> dom (statuses v k)" by (auto simp: in_status_def)
  then show ?thesis unfolding statuses_def by (rule finite_subset) (rule finite_dom_map_of)
qed

lemma in_status_tidy:
  assumes "tidy v k"
  shows "in_status st v k = psName ` {p \<in> set (view_projects v k). psStatus p = st}"
proof -
  have d: "distinct (map psName (view_projects v k))" using assms by (simp add: tidy_def)
  show ?thesis
    using map_of_names [OF d] by (auto simp: in_status_def statuses_def dest!: map_of_SomeD)
qed

lemma card_running:
  assumes "tidy v k"
  shows "card (in_status JobStatusRunning v k) = running (view_projects v k)"
proof -
  have "card (psName ` set ps) = length ps" if "distinct (map psName ps)" for ps
    using distinct_card [OF that] by simp
  moreover have "distinct (map psName (filter (\<lambda>p. psStatus p = JobStatusRunning) (view_projects v k)))"
    using assms by (simp add: tidy_def distinct_map_filter)
  ultimately show ?thesis
    unfolding in_status_tidy [OF assms] by (simp add: running_def flip: set_filter)
qed

section \<open>One update\<close>

definition moved :: "string \<Rightarrow> renovate_project_status \<Rightarrow> (string \<rightharpoonup> renovate_project_status) \<Rightarrow>
    string \<rightharpoonup> renovate_project_status" where
  "moved n want m = m(n \<mapsto> (case m n of None \<Rightarrow> want | Some st \<Rightarrow> next_status st want))"

abbreviation name_status :: "project_status list \<Rightarrow> string \<rightharpoonup> renovate_project_status" where
  "name_status ps \<equiv> map_of (map (\<lambda>p. (psName p, psStatus p)) ps)"

lemma name_status_other: "n \<notin> psName ` set ps \<Longrightarrow> name_status ps n = None"
  by (induction ps) auto

lemma name_status_present: "n \<in> psName ` set ps \<Longrightarrow> \<exists>st. name_status ps n = Some st"
  by (induction ps) auto

lemma moved_present:
  assumes "n \<in> psName ` set ps"
  shows "map_of (map (\<lambda>p. (psName p, if psName p = n then next_status (psStatus p) w else psStatus p)) ps) =
    moved n w (name_status ps)"
proof -
  have "map_of (map (\<lambda>p. (psName p, if psName p = n then next_status (psStatus p) w else psStatus p)) ps) x =
      (if x = n then map_option (\<lambda>st. next_status st w) (name_status ps x) else name_status ps x)" for x
    by (induction ps) auto
  with name_status_present [OF assms] show ?thesis by (auto simp: moved_def fun_eq_iff)
qed

lemma moved_absent:
  "n \<notin> psName ` set ps \<Longrightarrow>
   map_of (map (\<lambda>p. (psName p, psStatus p)) ps @ [(n, w)]) = moved n w (name_status ps)"
  using name_status_other [of n ps] by (auto simp: moved_def fun_eq_iff map_add_def split: option.split)

lemma update_statuses:
  assumes "kube_laws (=) E" and "retry_law (=) E" and "stored sp (sview E s) (key_of job)"
    and "UpdateProjectStatus E project job u s = (None, s')"
  shows "stored sp (sview E s') (key_of job)"
    and "statuses (sview E s') (key_of job) = moved project (suStatus u) (statuses (sview E s) (key_of job))"
proof -
  let ?k = "key_of job" and ?st = "\<lambda>p. (psName p, psStatus p)"
  obtain st where v: "sview E s ?k = Some (sp, st)" and d: "distinct (map psName (rsProjects st))"
    using assms(3) by (auto simp: stored_def tidy_def view_projects_def)
  from update_alone [OF assms(1,2) v d assms(4)] obtain st' where
    v': "sview E s' = (sview E s)(?k \<mapsto> (sp, st'))" and
    ps: "map ?st (rsProjects st') = (if project \<in> psName ` set (rsProjects st)
       then map (\<lambda>p. (psName p, if psName p = project then next_status (psStatus p) (suStatus u)
              else psStatus p)) (rsProjects st)
       else map ?st (rsProjects st) @ [(project, suStatus u)])" by blast
  have "map psName (rsProjects st') = map fst (map ?st (rsProjects st'))" by simp
  also have "\<dots> = (if project \<in> psName ` set (rsProjects st) then map psName (rsProjects st)
      else map psName (rsProjects st) @ [project])" unfolding ps by simp
  finally have "distinct (map psName (rsProjects st'))" using d by auto
  then show "stored sp (sview E s') ?k" by (simp add: stored_def tidy_def view_projects_def v')
  show "statuses (sview E s') ?k = moved project (suStatus u) (statuses (sview E s) ?k)"
    using moved_present moved_absent by (simp add: statuses_def view_projects_def v v' ps)
qed

section \<open>One visit\<close>

text \<open>
  What the two passes keep in step: the resource stays stored, and the counter of the loop is the
  number of running projects.
\<close>

definition in_step :: "'w env \<Rightarrow> renovate_job \<Rightarrow> int \<Rightarrow> 'w sys \<Rightarrow> bool" where
  "in_step E rj k s \<longleftrightarrow> stored (rjSpec rj) (sview E s) (rj_key rj) \<and>
     k = int (card (in_status JobStatusRunning (sview E s) (rj_key rj)))"

lemma moved_other: "n \<noteq> p \<Longrightarrow> moved p w m n = m n"
  by (simp add: moved_def)

lemma update_project_statuses:
  assumes "kube_laws (=) E" and "retry_law (=) E" and "in_step E rj k s"
    and "UpdateProjectStatus E p (job_id rj) u s = (None, s')"
  shows "stored (rjSpec rj) (sview E s') (rj_key rj)"
    and "statuses (sview E s') (rj_key rj) = moved p (suStatus u) (statuses (sview E s) (rj_key rj))"
  using update_statuses [OF assms(1,2) _ assms(4), of "rjSpec rj"] assms(3)
  by (simp_all add: in_step_def)

lemma update_finishes:
  assumes laws: "kube_laws (=) E" "retry_law (=) E" and "in_step E rj k s"
    and "p \<in> in_status JobStatusRunning (sview E s) (rj_key rj)"
    and "suStatus u \<in> {JobStatusCompleted, JobStatusFailed}"
    and "UpdateProjectStatus E p (job_id rj) u s = (None, s')"
  shows "in_step E rj (k - 1) s'"
    and "in_status JobStatusScheduled (sview E s') (rj_key rj) =
      in_status JobStatusScheduled (sview E s) (rj_key rj)"
    and "n \<noteq> p \<Longrightarrow> statuses (sview E s') (rj_key rj) n =
      statuses (sview E s) (rj_key rj) n"
proof -
  let ?k = "rj_key rj"
  note u = update_project_statuses [OF laws assms(3) assms(6)]
  have p: "statuses (sview E s') ?k = (statuses (sview E s) ?k)(p \<mapsto> suStatus u)"
    unfolding u(2) using assms(4,5) by (auto simp: moved_def in_status_def next_status_def)
  have "in_status JobStatusRunning (sview E s') ?k = in_status JobStatusRunning (sview E s) ?k - {p}"
    using assms(5) by (auto simp: in_status_def p)
  then have "int (card (in_status JobStatusRunning (sview E s') ?k)) = k - 1"
    using assms(3,4) by (simp add: in_step_def card_Diff_singleton card_gt_0_iff of_nat_diff Suc_leI)
      (metis One_nat_def Suc_leI card_gt_0_iff empty_iff finite_in_status of_nat_1 of_nat_diff)
  with u(1) show "in_step E rj (k - 1) s'" by (simp add: in_step_def)
  show "in_status JobStatusScheduled (sview E s') ?k = in_status JobStatusScheduled (sview E s) ?k"
    using assms(4,5) by (auto simp: in_status_def p)
  show "n \<noteq> p \<Longrightarrow> statuses (sview E s') ?k n = statuses (sview E s) ?k n" by (simp add: p)
qed

lemma update_starts:
  assumes laws: "kube_laws (=) E" "retry_law (=) E" and "in_step E rj k s"
    and "p \<in> in_status JobStatusScheduled (sview E s) (rj_key rj)"
    and "UpdateProjectStatus E p (job_id rj) (mk_update JobStatusRunning 0) s = (None, s')"
  shows "in_step E rj (k + 1) s'"
    and "in_status JobStatusScheduled (sview E s') (rj_key rj) =
      in_status JobStatusScheduled (sview E s) (rj_key rj) - {p}"
proof -
  let ?k = "rj_key rj"
  note u = update_project_statuses [OF laws assms(3) assms(5)]
  have p: "statuses (sview E s') ?k = (statuses (sview E s) ?k)(p \<mapsto> JobStatusRunning)"
    unfolding u(2) using assms(4) by (auto simp: moved_def in_status_def next_status_def)
  have "in_status JobStatusRunning (sview E s') ?k = insert p (in_status JobStatusRunning (sview E s) ?k)"
    by (auto simp: in_status_def p)
  moreover have "p \<notin> in_status JobStatusRunning (sview E s) ?k" using assms(4) by (simp add: in_status_def)
  ultimately show "in_step E rj (k + 1) s'" using u(1) assms(3) by (simp add: in_step_def)
  show "in_status JobStatusScheduled (sview E s') ?k = in_status JobStatusScheduled (sview E s) ?k - {p}"
    by (auto simp: in_status_def p)
qed

lemma in_step_view: "sview E s' = sview E s \<Longrightarrow> in_step E rj k s' = in_step E rj k s"
  by (simp add: in_step_def)

lemma finish_project_frees:
  assumes laws: "kube_laws (=) E" "retry_law (=) E" and "in_step E rj k s"
    and "p \<in> in_status JobStatusRunning (sview E s) (rj_key rj)"
    and "st \<in> {JobStatusCompleted, JobStatusFailed}"
    and "finish_project E rj p job st d s = (None, s')"
  shows "in_step E rj (k - 1) s'"
    and "in_status JobStatusScheduled (sview E s') (rj_key rj) =
      in_status JobStatusScheduled (sview E s) (rj_key rj)"
    and "n \<noteq> p \<Longrightarrow> statuses (sview E s') (rj_key rj) n =
      statuses (sview E s) (rj_key rj) n"
proof -
  let ?log = "finished_log E job s"
  let ?s = "s\<lparr>syMetrics := finish_metrics rj p st (lpHasIssues ?log) (syMetrics s)\<rparr>"
  let ?u = "(mk_update st 0)\<lparr>suDuration := Some d, suRenovateResultStatus := lpRenovateResultStatus ?log\<rparr>"
  obtain r1 s1 where u: "UpdateProjectStatus E p (job_id rj) ?u ?s = (r1, s1)" by fastforce
  have "r1 = None" and "s' = s1 \<or> (\<exists>j r. DeleteJob E j s1 = (r, s'))"
    using assms(6) u by (auto simp: finish_project_def Let_def split: option.splits if_splits)
  then have v: "sview E s' = sview E s1" by (auto dest: DeleteJob_view [OF laws(1)])
  have su: "suStatus ?u = st" by (simp add: mk_update_def)
  note f = update_finishes [OF laws, where u = ?u and s = ?s and rj = rj and k = k and p = p and s' = s1]
  have pre: "in_step E rj k ?s" "p \<in> in_status JobStatusRunning (sview E ?s) (rj_key rj)"
    "suStatus ?u \<in> {JobStatusCompleted, JobStatusFailed}"
    using assms(3-5) su by (simp_all add: in_step_def)
  have run: "UpdateProjectStatus E p (job_id rj) ?u ?s = (None, s1)" using u \<open>r1 = None\<close> by simp
  show "in_step E rj (k - 1) s'" using f(1) [OF pre run] in_step_view [OF v] by simp
  show "in_status JobStatusScheduled (sview E s') (rj_key rj) =
      in_status JobStatusScheduled (sview E s) (rj_key rj)"
    using f(2) [OF pre run] by (simp add: v)
  show "n \<noteq> p \<Longrightarrow> statuses (sview E s') (rj_key rj) n =
      statuses (sview E s) (rj_key rj) n"
    using f(3) [OF pre run] by (simp add: v)
qed

lemma process_running_in_step:
  assumes laws: "kube_laws (=) E" "retry_law (=) E"
    and "process_running E rj ps k s = (Inr k', s')" and "in_step E rj k s"
    and "distinct (map psName ps)"
    and "\<And>p. p \<in> set ps \<Longrightarrow> statuses (sview E s) (rj_key rj) (psName p) = Some (psStatus p)"
  shows "in_step E rj k' s' \<and>
    in_status JobStatusScheduled (sview E s') (rj_key rj) = in_status JobStatusScheduled (sview E s) (rj_key rj)"
  using assms(3-)
proof (induction ps arbitrary: k s)
  case Nil
  then show ?case by simp
next
  case (Cons p ps)
  have rest: "distinct (map psName ps)" using Cons.prems(3) by simp
  from Cons.prems(1) show ?case
  proof (cases rule: process_running_Cons)
    case pass
    show ?thesis by (rule Cons.IH [OF pass Cons.prems(2) rest]) (simp add: Cons.prems(4))
  next
    case (freed job st d s1)
    have p: "psName p \<in> in_status JobStatusRunning (sview E s) (rj_key rj)"
      using Cons.prems(4) [of p] freed(1) by (simp add: in_status_def)
    note f = finish_project_frees [OF laws Cons.prems(2) p freed(2,3)]
    have "statuses (sview E s1) (rj_key rj) (psName q) = Some (psStatus q)" if "q \<in> set ps" for q
    proof -
      have "psName q \<in> psName ` set ps" using that by simp
      then have "psName q \<noteq> psName p" using Cons.prems(3) by (metis distinct.simps(2) list.simps(9) set_map)
      with f(3) Cons.prems(4) that show ?thesis by simp
    qed
    from Cons.IH [OF freed(4) f(1) rest this] f(2) show ?thesis by simp
  qed simp_all
qed

lemma start_project_in_step:
  assumes laws: "kube_laws (=) E" "retry_law (=) E" and "start_project E rj p s = (None, s')"
    and "in_step E rj k s" and "p \<in> in_status JobStatusScheduled (sview E s) (rj_key rj)"
  shows "in_step E rj (k + 1) s'"
    and "in_status JobStatusScheduled (sview E s') (rj_key rj) =
      in_status JobStatusScheduled (sview E s) (rj_key rj) - {p}"
proof -
  from assms(3) obtain owner g s1 where c: "CreateJobWithGeneration E ((newRenovateJob (sySettings s) rj p)
      \<lparr>jbOwner := owner\<rparr>) (executor_selector rj p) s = (Inr g, s1)"
    and u: "UpdateProjectStatus E p (job_id rj) (mk_update JobStatusRunning 0) s1 = (None, s')"
    by (auto simp: start_project_def Let_def split: sum.splits prod.splits)
  have v: "sview E s1 = sview E s" using CreateJob_view [OF laws(1) c] by simp
  note started = update_starts [OF laws _ _ u, of k]
  have "in_step E rj k s1" using assms(4) in_step_view [OF v] by simp
  moreover have "p \<in> in_status JobStatusScheduled (sview E s1) (rj_key rj)" using assms(5) by (simp add: v)
  ultimately show "in_step E rj (k + 1) s'"
    and "in_status JobStatusScheduled (sview E s') (rj_key rj) =
      in_status JobStatusScheduled (sview E s) (rj_key rj) - {p}"
    using started by (simp_all add: v)
qed

text \<open>The second pass starts projects of its list until none is left, or no slot is free.\<close>

lemma start_scheduled_in_step:
  assumes laws: "kube_laws (=) E" "retry_law (=) E"
    and "start_scheduled E rj ps k s = (None, s')" and "in_step E rj k s" and "distinct (map psName ps)"
    and "set (scheduled_names ps) \<subseteq> in_status JobStatusScheduled (sview E s) (rj_key rj)"
  shows "\<exists>k' ns. in_step E rj k' s' \<and> started s' = started s @ ns \<and> set ns \<subseteq> set (scheduled_names ps) \<and>
    in_status JobStatusScheduled (sview E s') (rj_key rj) =
      in_status JobStatusScheduled (sview E s) (rj_key rj) - set ns \<and>
    (sint (spParallelism (rjSpec rj)) \<le> k' \<or> set ns = set (scheduled_names ps)) \<and>
    k' = k + int (length ns)"
  using assms(3-)
proof (induction ps arbitrary: k s)
  case Nil
  then show ?case by (intro exI [of _ k] exI [of _ "[]"]) simp
next
  case (Cons p ps)
  have rest: "distinct (map psName ps)" using Cons.prems(3) by simp
  show ?case
  proof (cases "psStatus p = JobStatusScheduled \<and> k < sint (spParallelism (rjSpec rj))")
    case True
    with Cons.prems(1) obtain s1 where p: "start_project E rj (psName p) s = (None, s1)"
      and step: "start_scheduled E rj ps (k + 1) s1 = (None, s')"
      by (auto split: prod.splits option.splits)
    have mem: "psName p \<in> in_status JobStatusScheduled (sview E s) (rj_key rj)"
      using Cons.prems(4) True by simp
    note s1 = start_project_in_step [OF laws p Cons.prems(2) mem]
    have add: "started s1 = started s @ [psName p]" using start_project_started [OF laws(2) p] by simp
    have "psName p \<notin> set (scheduled_names ps)" using Cons.prems(3) by (auto simp: scheduled_names_def)
    then have "set (scheduled_names ps) \<subseteq> in_status JobStatusScheduled (sview E s1) (rj_key rj)"
      using Cons.prems(4) True by (auto simp: s1(2))
    from Cons.IH [OF step s1(1) rest this] obtain k' ns where "in_step E rj k' s'"
      and "started s' = started s1 @ ns" and "set ns \<subseteq> set (scheduled_names ps)"
      and "in_status JobStatusScheduled (sview E s') (rj_key rj) =
        in_status JobStatusScheduled (sview E s1) (rj_key rj) - set ns"
      and "sint (spParallelism (rjSpec rj)) \<le> k' \<or> set ns = set (scheduled_names ps)"
      and "k' = k + 1 + int (length ns)" by blast
    with True show ?thesis by (intro exI [of _ k'] exI [of _ "psName p # ns"]) (auto simp: add s1(2))
  next
    case False
    with Cons.prems(1) have step: "start_scheduled E rj ps k s = (None, s')" by (simp split: if_splits)
    have "set (scheduled_names ps) \<subseteq> in_status JobStatusScheduled (sview E s) (rj_key rj)"
      using Cons.prems(4) by (auto split: if_splits)
    from Cons.IH [OF step Cons.prems(2) rest this] obtain k' ns where "in_step E rj k' s'"
      and "started s' = started s @ ns" and "set ns \<subseteq> set (scheduled_names ps)"
      and "in_status JobStatusScheduled (sview E s') (rj_key rj) =
        in_status JobStatusScheduled (sview E s) (rj_key rj) - set ns"
      and "sint (spParallelism (rjSpec rj)) \<le> k' \<or> set ns = set (scheduled_names ps)"
      and "k' = k + int (length ns)" by blast
    with False show ?thesis by (intro exI [of _ k'] exI [of _ ns]) auto
  qed
qed

lemma by_priority_perm: "distinct (map psName (by_priority ps)) = distinct (map psName ps)"
  "set (by_priority ps) = set ps"
  "set (scheduled_names (by_priority ps)) = set (scheduled_names ps)"
proof -
  show "distinct (map psName (by_priority ps)) = distinct (map psName ps)"
    by (simp add: by_priority_def distinct_map)
  show "set (by_priority ps) = set ps" by (simp add: by_priority_def)
  then show "set (scheduled_names (by_priority ps)) = set (scheduled_names ps)"
    by (simp add: scheduled_names_def)
qed

lemma sched_tidy:
  "tidy v k \<Longrightarrow> in_status JobStatusScheduled v k = set (scheduled_names (view_projects v k))"
  by (auto simp: in_status_tidy scheduled_names_def)

lemma reconcileProjects_in_step:
  assumes laws: "kube_laws (=) E" "retry_law (=) E"
    and v: "sview E s (rj_key rj) = Some (rjSpec rj, rjStatus rj)"
    and d: "distinct (map psName (projects_of rj))"
    and "reconcileProjects E rj s = (None, s')"
  shows "\<exists>k ns. in_step E rj k s' \<and> started s' = started s @ ns \<and>
    set ns \<subseteq> set (scheduled_names (projects_of rj)) \<and>
    in_status JobStatusScheduled (sview E s') (rj_key rj) = set (scheduled_names (projects_of rj)) - set ns \<and>
    (sint (spParallelism (rjSpec rj)) \<le> k \<or> set ns = set (scheduled_names (projects_of rj))) \<and>
    k = int (running (projects_of rj)) - int (finished_runs s' - finished_runs s) + int (length ns)"
proof -
  let ?ps = "projects_of rj"
  have ps: "view_projects (sview E s) (rj_key rj) = ?ps" by (simp add: view_projects_def v)
  have tidy: "tidy (sview E s) (rj_key rj)" using d by (simp add: tidy_def ps)
  have step0: "in_step E rj (int (running ?ps)) s"
    using tidy by (simp add: in_step_def stored_def v card_running ps)
  have all: "statuses (sview E s) (rj_key rj) (psName p) = Some (psStatus p)" if "p \<in> set ?ps" for p
    using map_of_names [OF d that] by (simp add: statuses_def ps)
  from assms(5) obtain k s1 where p1: "process_running E rj ?ps (int (running ?ps)) s = (Inr k, s1)"
    and p2: "start_scheduled E rj (by_priority ?ps) k s1 = (None, s')"
    by (auto simp: reconcileProjects_def split: prod.splits sum.splits)
  note one = process_running_in_step [OF laws p1 step0 d all]
  note runs = process_running_started [OF laws(2) p1]
  from one have sched1: "in_status JobStatusScheduled (sview E s1) (rj_key rj) = set (scheduled_names ?ps)"
    by (simp add: sched_tidy [OF tidy] ps)
  have d': "distinct (map psName (by_priority ?ps))" using d by (simp add: by_priority_perm)
  have "finished_runs s' = finished_runs s1" using start_scheduled_started [OF laws(2) p2] by blast
  then have k: "k = int (running ?ps) - int (finished_runs s' - finished_runs s)"
    using runs by auto
  from start_scheduled_in_step [OF laws p2 conjunct1 [OF one] d'] obtain k' ns where
    "in_step E rj k' s'" "started s' = started s1 @ ns" "set ns \<subseteq> set (scheduled_names ?ps)"
    "in_status JobStatusScheduled (sview E s') (rj_key rj) = set (scheduled_names ?ps) - set ns"
    "sint (spParallelism (rjSpec rj)) \<le> k' \<or> set ns = set (scheduled_names ?ps)"
    "k' = k + int (length ns)"
    by (auto simp: by_priority_perm sched1)
  moreover have "started s1 = started s" using runs by blast
  ultimately show ?thesis unfolding k by (intro exI [of _ k'] exI [of _ ns]) (simp add: k)
qed

section \<open>Visits\<close>

lemma visit_reconciles:
  assumes "kube_laws I E" and "exSyncer x (identifier_Fullname job) \<noteq> Some True"
    and "sview E (exSys x) (key_of job) = Some (sp, st)"
    and "executeRenovateJob E job x = (r, x')"
  obtains rj s s' where "rj_key rj = key_of job" and "rjSpec rj = sp" and "rjStatus rj = st"
    and "reconcileProjects E rj s = (r, s')"
    and "syWorld s = syWorld (exSys x)" and "syWorld (exSys x') = syWorld s'"
    and "started s = started (exSys x)" and "started (exSys x') = started s'"
    and "finished_runs s = finished_runs (exSys x)" and "finished_runs (exSys x') = finished_runs s'"
    and "exSyncer x' (identifier_Fullname job) = Some False"
proof -
  let ?n = "identifier_Fullname job"
  obtain x1 where sync: "syncOnJobExecution E ?n x = (True, x1)"
    using assms(2) by (simp add: syncOnJobExecution_def Let_def)
  then have w: "syWorld (exSys x1) = syWorld (exSys x)" "started (exSys x1) = started (exSys x)"
    "finished_runs (exSys x1) = finished_runs (exSys x)"
    using assms(2)
    by (auto simp: syncOnJobExecution_def Let_def set_executor_running_def started_def finished_runs_def)
  obtain rj where rj: "loadRenovateJob E (riName job) (riNamespace job) (exSys x1) = Inr rj"
    using assms(3) by (auto simp: view_def loadRenovateJob_def w split: sum.splits)
  obtain s' where rec: "reconcileProjects E rj (exSys x1) = (r, s')"
    and x': "x' = unlock_execution E ?n (x1\<lparr>exSys := s'\<rparr>)"
    using assms(4) sync rj
    by (cases "reconcileProjects E rj (exSys x1)")
      (auto simp: executeRenovateJob_def Let_def GetRenovateJob_def)
  have key: "rj_key rj = key_of job" using load_identity [OF assms(1) rj] by simp
  have "rjSpec rj = sp" "rjStatus rj = st" using load_view [OF rj] assms(3) w(1) by simp_all
  then show thesis
    by (rule that [OF key _ _ rec w(1) _ w(2) _ w(3)])
      (simp_all add: x' unlock_execution_def set_executor_running_def started_def finished_runs_def)
qed

lemma visit_progress:
  assumes laws: "kube_laws (=) E" "retry_law (=) E"
    and free: "exSyncer x (identifier_Fullname job) \<noteq> Some True"
    and v: "sview E (exSys x) (key_of job) = Some (sp, st)" and d: "distinct (map psName (rsProjects st))"
    and ex: "executeRenovateJob E job x = (None, x')"
  shows "\<exists>st' ns. sview E (exSys x') (key_of job) = Some (sp, st') \<and>
    distinct (map psName (rsProjects st')) \<and> exSyncer x' (identifier_Fullname job) = Some False \<and>
    started (exSys x') = started (exSys x) @ ns \<and> set ns \<subseteq> set (scheduled_names (rsProjects st)) \<and>
    set (scheduled_names (rsProjects st')) = set (scheduled_names (rsProjects st)) - set ns \<and>
    (sint (spParallelism sp) \<le> int (running (rsProjects st')) \<or>
      set ns = set (scheduled_names (rsProjects st))) \<and>
    int (running (rsProjects st')) = int (running (rsProjects st)) -
      int (finished_runs (exSys x') - finished_runs (exSys x)) + int (length ns)"
proof (rule visit_reconciles [OF laws(1) free v ex])
  fix rj s s'
  assume rj: "rj_key rj = key_of job" "rjSpec rj = sp" "rjStatus rj = st"
    and rec: "reconcileProjects E rj s = (None, s')"
    and w: "syWorld s = syWorld (exSys x)" "syWorld (exSys x') = syWorld s'"
      "started s = started (exSys x)" "started (exSys x') = started s'"
      "finished_runs s = finished_runs (exSys x)" "finished_runs (exSys x') = finished_runs s'"
    and lock: "exSyncer x' (identifier_Fullname job) = Some False"
  have "sview E s (rj_key rj) = Some (rjSpec rj, rjStatus rj)" using v by (simp add: rj w)
  from reconcileProjects_in_step [OF laws this _ rec] d obtain k ns where
    step: "in_step E rj k s'" and ns: "started s' = started s @ ns" "set ns \<subseteq> set (scheduled_names (rsProjects st))"
      "in_status JobStatusScheduled (sview E s') (rj_key rj) = set (scheduled_names (rsProjects st)) - set ns"
      "sint (spParallelism sp) \<le> k \<or> set ns = set (scheduled_names (rsProjects st))"
      "k = int (running (rsProjects st)) - int (finished_runs s' - finished_runs s) + int (length ns)"
    by (auto simp: rj)
  from step obtain st' where v': "sview E s' (key_of job) = Some (sp, st')"
    and tidy: "tidy (sview E s') (key_of job)"
    by (auto simp: in_step_def stored_def rj)
  have ps: "view_projects (sview E s') (key_of job) = rsProjects st'" by (simp add: view_projects_def v')
  have "k = int (running (rsProjects st'))"
    using step card_running [OF tidy] by (simp add: in_step_def rj ps)
  moreover have "distinct (map psName (rsProjects st'))" using tidy by (simp add: tidy_def ps)
  moreover have "set (scheduled_names (rsProjects st')) = set (scheduled_names (rsProjects st)) - set ns"
    using ns(3) sched_tidy [OF tidy] by (simp add: rj ps)
  ultimately show ?thesis
    using ns lock v' by (intro exI [of _ st'] exI [of _ ns]) (simp add: w)
qed

section \<open>Progress\<close>

text \<open>
  C5: The executor leaves no slot idle: without other clients, a visit that reports no error ends with
  no scheduled project left, or with as many projects running as the parallelism allows; and the
  projects that are no longer scheduled are exactly the ones it submitted jobs for.
\<close>
theorem no_idle_slot:
  assumes "kube_laws (=) E" and "retry_law (=) E"
    and "exSyncer x (identifier_Fullname job) \<noteq> Some True"
    and "sview E (exSys x) (key_of job) = Some (sp, st)" and "distinct (map psName (rsProjects st))"
    and "executeRenovateJob E job x = (None, x')"
  shows "\<exists>st' ns. sview E (exSys x') (key_of job) = Some (sp, st') \<and>
    (scheduled_names (rsProjects st') = [] \<or> sint (spParallelism sp) \<le> int (running (rsProjects st'))) \<and>
    started (exSys x') = started (exSys x) @ ns \<and>
    set ns = set (scheduled_names (rsProjects st)) - set (scheduled_names (rsProjects st'))"
proof -
  from visit_progress [OF assms] obtain st' ns where
    "sview E (exSys x') (key_of job) = Some (sp, st')" "started (exSys x') = started (exSys x) @ ns"
    and sub: "set ns \<subseteq> set (scheduled_names (rsProjects st))"
    and left: "set (scheduled_names (rsProjects st')) = set (scheduled_names (rsProjects st)) - set ns"
    and full: "sint (spParallelism sp) \<le> int (running (rsProjects st')) \<or>
      set ns = set (scheduled_names (rsProjects st))" by blast
  moreover have "set ns = set (scheduled_names (rsProjects st)) - set (scheduled_names (rsProjects st'))"
    using sub left by blast
  moreover have "scheduled_names (rsProjects st') = [] \<or> sint (spParallelism sp) \<le> int (running (rsProjects st'))"
    using full left by (metis Diff_cancel set_empty)
  ultimately show ?thesis by blast
qed

text \<open>The server in memory accepts every start, so a visit with nothing running reports no error.\<close>

lemma memory_starts:
  assumes "meJobs (syWorld s) (rj_key rj) = Some old"
  shows "\<exists>s'. start_project memory_env rj p s = (None, s') \<and> (\<exists>rj'. meJobs (syWorld s') (rj_key rj) = Some rj')"
proof -
  let ?job = "(newRenovateJob (sySettings s) rj p)\<lparr>jbOwner := JStr (rjName rj)\<rparr>"
  obtain s1 g where c: "CreateJobWithGeneration memory_env ?job (executor_selector rj p) s = (Inr g, s1)"
    and s1: "meJobs (syWorld s1) (rj_key rj) = Some old"
    using assms by (simp add: CreateJobWithGeneration_def Let_def kube_write_def memory_env_def)
  have "\<exists>s'. UpdateProjectStatus memory_env p (job_id rj) (mk_update JobStatusRunning 0) s1 = (None, s') \<and>
      (\<exists>rj'. meJobs (syWorld s') (rj_key rj) = Some rj')"
    using s1 by (simp add: UpdateProjectStatus_def memory_env_def update_status_closure_def loadRenovateJob_def
        memory_get_def save_status_def updateRenovateJobStatus_def kube_write_def memory_update_status_def
        reloadRenovateJob_def)
  moreover have "eSetControllerReference memory_env rj j = Inr (JStr (rjName rj))" for j
    by (simp add: memory_env_def)
  ultimately show ?thesis using c by (auto simp: start_project_def Let_def)
qed

lemma memory_starts_all:
  "meJobs (syWorld s) (rj_key rj) = Some old \<Longrightarrow> fst (start_scheduled memory_env rj ps k s) = None"
proof (induction ps arbitrary: k s old)
  case (Cons p ps)
  from memory_starts [OF Cons.prems, of "psName p"] obtain s1 rj1 where
    "start_project memory_env rj (psName p) s = (None, s1)" "meJobs (syWorld s1) (rj_key rj) = Some rj1" by blast
  with Cons.IH [of s1] Cons.IH [OF Cons.prems] show ?case by simp
qed simp

definition queued_job :: renovate_job where
  "queued_job = example_job\<lparr>rjSpec := zero_spec\<lparr>spParallelism := 1\<rparr>,
     rjStatus := \<lparr>rsProjects = [example_project ''a'' JobStatusScheduled 0], rsExecutionOptions = None\<rparr>\<rparr>"

definition queued_executor :: "memory executor" where
  "queued_executor = \<lparr>exSyncer = Map.empty,
     exSys = example_sys\<lparr>syWorld := example_memory\<lparr>meJobs := [(''job'', ''ns'') \<mapsto> queued_job]\<rparr>\<rparr>\<rparr>"

lemma queued_view: "sview memory_env (exSys queued_executor) (key_of example_id) =
    Some (rjSpec queued_job, rjStatus queued_job)"
  by (simp add: memory_view queued_executor_def example_id_def)

lemma queued_simps:
  "exSyncer queued_executor n \<noteq> Some True" "started (exSys queued_executor) = []"
  "distinct (map psName (rsProjects (rjStatus queued_job)))"
  "scheduled_names (rsProjects (rjStatus queued_job)) = [''a'']"
  "running (rsProjects (rjStatus queued_job)) = 0" "spParallelism (rjSpec queued_job) = 1"
  by (simp_all add: queued_executor_def queued_job_def example_project_def example_sys_def started_def)

lemma queued_visit: "\<exists>x. executeRenovateJob memory_env example_id queued_executor = (None, x)"
proof -
  obtain r x where ex: "executeRenovateJob memory_env example_id queued_executor = (r, x)" by fastforce
  show ?thesis
  proof (rule visit_reconciles [OF memory_laws queued_simps(1) queued_view ex])
    fix rj s s'
    assume rj: "rj_key rj = key_of example_id" "rjStatus rj = rjStatus queued_job"
      and rec: "reconcileProjects memory_env rj s = (r, s')"
      and w: "syWorld s = syWorld (exSys queued_executor)"
    have "meJobs (syWorld s) (rj_key rj) = Some queued_job"
      by (simp add: rj w queued_executor_def example_id_def)
    note all = memory_starts_all [OF this]
    have "reconcileProjects memory_env rj s =
        start_scheduled memory_env rj (by_priority (projects_of rj)) 0 s"
      by (simp add: reconcileProjects_def rj(2) queued_job_def example_project_def del: start_scheduled.simps)
    with all [of "by_priority (projects_of rj)" 0] rec have "r = None" by simp
    with ex show ?thesis by simp
  qed
qed

theorem no_idle_slot_witness:
  "\<exists>st' ns. sview memory_env (exSys (snd (executeRenovateJob memory_env example_id queued_executor)))
      (''job'', ''ns'') = Some (rjSpec queued_job, st') \<and>
    (scheduled_names (rsProjects st') = [] \<or> 1 \<le> running (rsProjects st')) \<and>
    started (exSys (snd (executeRenovateJob memory_env example_id queued_executor))) = ns \<and>
    set ns = {''a''} - set (scheduled_names (rsProjects st'))"
proof -
  from queued_visit obtain x where x: "executeRenovateJob memory_env example_id queued_executor = (None, x)"
    by blast
  have id: "key_of example_id = (''job'', ''ns'')" by (simp add: example_id_def)
  from no_idle_slot [OF memory_laws memory_retry queued_simps(1) queued_view queued_simps(3) x]
  show ?thesis unfolding x snd_conv id queued_simps by simp
qed

text \<open>
  A sequence of visits without an error, in each of which a slot is or becomes free: the runs that
  the visit finds finished leave fewer running than the parallelism.
\<close>

definition slot_free :: "'w env \<Rightarrow> renovate_job_identifier \<Rightarrow> 'w executor \<Rightarrow> 'w executor \<Rightarrow> bool" where
  "slot_free E job x x' \<longleftrightarrow> (case sview E (exSys x) (key_of job) of
     None \<Rightarrow> False
   | Some (sp, st) \<Rightarrow> int (running (rsProjects st)) -
       int (finished_runs (exSys x') - finished_runs (exSys x)) < sint (spParallelism sp))"

inductive visits :: "'w env \<Rightarrow> renovate_job_identifier \<Rightarrow> nat \<Rightarrow> 'w executor \<Rightarrow> 'w executor \<Rightarrow> bool"
  for E job where
  no_visit: "visits E job 0 x x"
| one_more: "executeRenovateJob E job x = (None, x1) \<Longrightarrow> slot_free E job x x1 \<Longrightarrow>
     visits E job n x1 x' \<Longrightarrow> visits E job (Suc n) x x'"

inductive_cases visits_SucE: "visits E job (Suc n) x x'"

lemma visits_start:
  assumes laws: "kube_laws (=) E" "retry_law (=) E" and "visits E job n x x'"
    and "exSyncer x (identifier_Fullname job) \<noteq> Some True"
    and "sview E (exSys x) (key_of job) = Some (sp, st)" and "distinct (map psName (rsProjects st))"
    and "card (set (scheduled_names (rsProjects st))) \<le> n"
  shows "\<exists>ns. started (exSys x') = started (exSys x) @ ns \<and> set ns = set (scheduled_names (rsProjects st)) \<and>
    (\<exists>st'. sview E (exSys x') (key_of job) = Some (sp, st') \<and> scheduled_names (rsProjects st') = [])"
  using assms(3-)
proof (induction arbitrary: st rule: visits.induct)
  case (no_visit x)
  then show ?case by (intro exI [of _ "[]"]) simp
next
  case (one_more x x1 n x')
  from visit_progress [OF laws one_more.prems(1-3) one_more.hyps(1)] obtain st1 ns where
    v1: "sview E (exSys x1) (key_of job) = Some (sp, st1)" and d1: "distinct (map psName (rsProjects st1))"
    and free1: "exSyncer x1 (identifier_Fullname job) = Some False"
    and ns: "started (exSys x1) = started (exSys x) @ ns" "set ns \<subseteq> set (scheduled_names (rsProjects st))"
    and left: "set (scheduled_names (rsProjects st1)) = set (scheduled_names (rsProjects st)) - set ns"
    and full: "sint (spParallelism sp) \<le> int (running (rsProjects st1)) \<or>
      set ns = set (scheduled_names (rsProjects st))"
    and count: "int (running (rsProjects st1)) = int (running (rsProjects st)) -
      int (finished_runs (exSys x1) - finished_runs (exSys x)) + int (length ns)" by blast
  have slot: "int (running (rsProjects st)) -
      int (finished_runs (exSys x1) - finished_runs (exSys x)) < sint (spParallelism sp)"
    using one_more.hyps(2) one_more.prems(2) by (simp add: slot_free_def)
  have "card (set (scheduled_names (rsProjects st1))) \<le> n"
  proof (cases "set ns = set (scheduled_names (rsProjects st))")
    case True
    then show ?thesis using left by simp
  next
    case False
    with full count slot have "0 < int (length ns)" by linarith
    then obtain a where "a \<in> set ns" by (cases ns) auto
    then have "set (scheduled_names (rsProjects st1)) \<subset> set (scheduled_names (rsProjects st))"
      using left ns(2) by auto
    from psubset_card_mono [OF finite_set this] one_more.prems(4) show ?thesis by linarith
  qed
  with one_more.IH [OF _ v1 d1] free1 obtain ms where
    "started (exSys x') = started (exSys x1) @ ms" "set ms = set (scheduled_names (rsProjects st1))"
    "\<exists>st'. sview E (exSys x') (key_of job) = Some (sp, st') \<and> scheduled_names (rsProjects st') = []"
    by auto
  then show ?case using ns left by (intro exI [of _ "ns @ ms"]) auto
qed

text \<open>
  C4: Every scheduled project is started: without other clients, after as many visits without an
  error as the resource has scheduled projects, with a slot free in each, a job has been submitted
  for every one of them, for no other project, and none is left scheduled.
\<close>
theorem scheduled_projects_start:
  assumes "kube_laws (=) E" and "retry_law (=) E"
    and "exSyncer x (identifier_Fullname job) \<noteq> Some True"
    and "sview E (exSys x) (key_of job) = Some (sp, st)" and "distinct (map psName (rsProjects st))"
    and "visits E job (length (scheduled_names (rsProjects st))) x x'"
  shows "\<exists>ns. started (exSys x') = started (exSys x) @ ns \<and> set ns = set (scheduled_names (rsProjects st)) \<and>
    (\<exists>st'. sview E (exSys x') (key_of job) = Some (sp, st') \<and> scheduled_names (rsProjects st') = [])"
  by (rule visits_start [OF assms(1,2,6,3-5)]) (rule card_length)

theorem scheduled_projects_start_witness:
  "set (started (exSys (snd (executeRenovateJob memory_env example_id queued_executor)))) = {''a''}"
proof -
  from queued_visit obtain x where x: "executeRenovateJob memory_env example_id queued_executor = (None, x)"
    by blast
  have "slot_free memory_env example_id queued_executor x"
    unfolding slot_free_def queued_view by (simp add: queued_simps)
  with x have "visits memory_env example_id (length (scheduled_names (rsProjects (rjStatus queued_job))))
      queued_executor x"
    by (simp add: queued_simps visits.intros)
  from scheduled_projects_start [OF memory_laws memory_retry queued_simps(1) queued_view queued_simps(3) this]
  have "set (started (exSys x)) = {''a''}" by (auto simp: queued_simps)
  then show ?thesis by (simp add: x)
qed

end
