(* ===== verification/Object_Sharing.thy ===== *)
theory Object_Sharing
  imports Executor Memory_Server
begin

text \<open>
  The resource as the Go program holds it, with its slices and maps by reference: the struct of
  \<open>src/src/api/v1alpha1/renovatejob_types.go\<close> and its \<open>DeepCopyObject\<close>, which the client's cache
  calls to hand out its objects. The manager and the executor then write into what they were given;
  here that is done on a heap. The other theories take a loaded resource as a value; this one shows
  that the writes compute the same lists, and who else sees them.

  A slice is the address of its array and its length; the array may be longer. The fields that the
  operator only reads or replaces as a whole are kept as values.
\<close>

section \<open>Heap\<close>

record job_object =
  joName :: string
  joNamespace :: string
  joSpec :: renovate_job_spec
  joAnnotations :: "nat option"
  joProjects :: "(nat \<times> nat) option"
  joExecutionOptions :: "renovate_execution_options option"

record go_heap =
  hpNext :: nat
  hpObjects :: "nat \<rightharpoonup> job_object"
  hpArrays :: "nat \<rightharpoonup> project_status list"
  hpMaps :: "nat \<rightharpoonup> (string \<rightharpoonup> string)"

text \<open>Nothing is allocated from \<open>hpNext\<close> on, and references are good.\<close>

definition heap_ok :: "go_heap \<Rightarrow> bool" where
  "heap_ok h \<longleftrightarrow> (\<forall>a \<ge> hpNext h. hpObjects h a = None \<and> hpArrays h a = None \<and> hpMaps h a = None) \<and>
     (\<forall>x j. hpObjects h x = Some j \<longrightarrow>
        (\<forall>a n. joProjects j = Some (a, n) \<longrightarrow> (\<exists>ps. hpArrays h a = Some ps \<and> n \<le> length ps)) \<and>
        (\<forall>m. joAnnotations j = Some m \<longrightarrow> hpMaps h m \<noteq> None))"

lemma heap_ok_map: "heap_ok h \<Longrightarrow> hpObjects h x = Some j \<Longrightarrow> joAnnotations j = Some m \<Longrightarrow> hpMaps h m \<noteq> None"
  by (simp add: heap_ok_def)

definition read_slice :: "go_heap \<Rightarrow> (nat \<times> nat) option \<Rightarrow> project_status list" where
  "read_slice h sl = (case sl of
     None \<Rightarrow> [] | Some (a, n) \<Rightarrow> (case hpArrays h a of None \<Rightarrow> [] | Some ps \<Rightarrow> take n ps))"

definition projects_at :: "go_heap \<Rightarrow> nat \<Rightarrow> project_status list" where
  "projects_at h x = (case hpObjects h x of None \<Rightarrow> [] | Some j \<Rightarrow> read_slice h (joProjects j))"

definition annotations_at :: "go_heap \<Rightarrow> nat \<Rightarrow> string \<rightharpoonup> string" where
  "annotations_at h x = (case hpObjects h x of None \<Rightarrow> Map.empty | Some j \<Rightarrow>
     (case joAnnotations j of None \<Rightarrow> Map.empty | Some m \<Rightarrow>
       (case hpMaps h m of None \<Rightarrow> Map.empty | Some f \<Rightarrow> f)))"

section \<open>Operations\<close>

text \<open>\<open>*out = *in\<close>: a new struct with the same references.\<close>

definition DeepCopyObject :: "nat option \<Rightarrow> go_heap \<Rightarrow> nat option \<times> go_heap" where
  "DeepCopyObject inp h =
     (case inp of
        None \<Rightarrow> (None, h)
      | Some x \<Rightarrow> (let out = hpNext h
                  in (Some out, h\<lparr>hpNext := Suc out, hpObjects := (hpObjects h)(out := hpObjects h x)\<rparr>)))"

text \<open>\<open>x.Status.Projects[i] = p\<close>, for an index in range.\<close>

definition set_project :: "nat \<Rightarrow> nat \<Rightarrow> project_status \<Rightarrow> go_heap \<Rightarrow> go_heap" where
  "set_project x i p h =
     (case Option.bind (hpObjects h x) joProjects of
        None \<Rightarrow> h
      | Some (a, n) \<Rightarrow>
          (case hpArrays h a of
             None \<Rightarrow> h
           | Some ps \<Rightarrow> h\<lparr>hpArrays := (hpArrays h)(a \<mapsto> ps[i := p])\<rparr>))"

text \<open>
  \<open>x.Status.Projects = append(x.Status.Projects, p)\<close>: into the array while it has room, else into a
  new one.
\<close>

definition append_project :: "nat \<Rightarrow> project_status \<Rightarrow> go_heap \<Rightarrow> go_heap" where
  "append_project x p h =
     (case hpObjects h x of
        None \<Rightarrow> h
      | Some j \<Rightarrow>
          (case joProjects j of
             Some (a, n) \<Rightarrow>
               (case hpArrays h a of
                  None \<Rightarrow> h
                | Some ps \<Rightarrow>
                    if n < length ps
                    then h\<lparr>hpArrays := (hpArrays h)(a \<mapsto> ps[n := p]),
                           hpObjects := (hpObjects h)(x \<mapsto> j\<lparr>joProjects := Some (a, Suc n)\<rparr>)\<rparr>
                    else h\<lparr>hpNext := Suc (hpNext h),
                           hpArrays := (hpArrays h)(hpNext h \<mapsto> take n ps @ [p]),
                           hpObjects := (hpObjects h)(x \<mapsto> j\<lparr>joProjects := Some (hpNext h, Suc n)\<rparr>)\<rparr>)
           | None \<Rightarrow>
               h\<lparr>hpNext := Suc (hpNext h), hpArrays := (hpArrays h)(hpNext h \<mapsto> [p]),
                 hpObjects := (hpObjects h)(x \<mapsto> j\<lparr>joProjects := Some (hpNext h, 1)\<rparr>)\<rparr>))"

text \<open>The loop of \<open>UpdateProjectStatusBatched\<close> over the indices that are left.\<close>

fun update_loop ::
    "time \<Rightarrow> (project_status \<Rightarrow> bool) \<Rightarrow> renovate_status_update \<Rightarrow> nat \<Rightarrow> nat list \<Rightarrow> go_heap \<Rightarrow> go_heap"
where
  "update_loop now fn u x [] h = h"
| "update_loop now fn u x (i # is) h =
     (let p = projects_at h x ! i
      in update_loop now fn u x is
           (if fn p then set_project x i (GetUpdateStatusForProject now u p) h else h))"

definition update_in_place ::
    "time \<Rightarrow> (project_status \<Rightarrow> bool) \<Rightarrow> renovate_status_update \<Rightarrow> nat \<Rightarrow> go_heap \<Rightarrow> go_heap" where
  "update_in_place now fn u x h = update_loop now fn u x [0..<length (projects_at h x)] h"

text \<open>The search and the write of \<open>UpdateProjectStatus\<close>.\<close>

definition upsert_in_place ::
    "time \<Rightarrow> string \<Rightarrow> renovate_status_update \<Rightarrow> nat \<Rightarrow> go_heap \<Rightarrow> go_heap" where
  "upsert_in_place now project u x h =
     (case find_index (\<lambda>p. psName p = project) (projects_at h x) of
        None \<Rightarrow> append_project x (new_project project u) h
      | Some index \<Rightarrow>
          set_project x index (GetUpdateStatusForProject now u (projects_at h x ! index)) h)"

text \<open>\<open>sort.SliceStable\<close> of the executor works on the slice of the loaded resource.\<close>

definition sort_in_place :: "nat \<Rightarrow> go_heap \<Rightarrow> go_heap" where
  "sort_in_place x h =
     (case Option.bind (hpObjects h x) joProjects of
        None \<Rightarrow> h
      | Some (a, n) \<Rightarrow>
          (case hpArrays h a of
             None \<Rightarrow> h
           | Some ps \<Rightarrow> h\<lparr>hpArrays := (hpArrays h)(a \<mapsto> by_priority (take n ps) @ drop n ps)\<rparr>))"

text \<open>\<open>x.Annotations[k] = v\<close> after the nil map has been replaced by a new one.\<close>

definition set_annotation :: "nat \<Rightarrow> string \<Rightarrow> string \<Rightarrow> go_heap \<Rightarrow> go_heap" where
  "set_annotation x k v h =
     (case hpObjects h x of
        None \<Rightarrow> h
      | Some j \<Rightarrow>
          (case joAnnotations j of
             None \<Rightarrow>
               h\<lparr>hpNext := Suc (hpNext h), hpMaps := (hpMaps h)(hpNext h \<mapsto> [k \<mapsto> v]),
                 hpObjects := (hpObjects h)(x \<mapsto> j\<lparr>joAnnotations := Some (hpNext h)\<rparr>)\<rparr>
           | Some m \<Rightarrow>
               (case hpMaps h m of
                  None \<Rightarrow> h
                | Some f \<Rightarrow> h\<lparr>hpMaps := (hpMaps h)(m \<mapsto> f(k \<mapsto> v))\<rparr>)))"

section \<open>Two objects with one slice\<close>

text \<open>What a copy and its original have in common.\<close>

definition shares :: "go_heap \<Rightarrow> nat \<Rightarrow> nat \<Rightarrow> job_object \<Rightarrow> bool" where
  "shares h x c j \<longleftrightarrow> x \<noteq> c \<and> hpObjects h x = Some j \<and> hpObjects h c = Some j"

lemma copy_shares:
  assumes "heap_ok h" and "hpObjects h c = Some j" and "DeepCopyObject (Some c) h = (Some x, h1)"
  shows "shares h1 x c j" and "projects_at h1 c = projects_at h c" and "annotations_at h1 c = annotations_at h c"
    and "hpArrays h1 = hpArrays h" and "hpMaps h1 = hpMaps h" and "\<forall>a \<ge> hpNext h1. hpArrays h a = None \<and> hpMaps h a = None"
proof -
  have "c < hpNext h" using assms(1,2) by (metis heap_ok_def not_le option.distinct(1))
  moreover have "x = hpNext h" and h1: "h1 = h\<lparr>hpNext := Suc x, hpObjects := (hpObjects h)(x := hpObjects h c)\<rparr>"
    using assms(3) by (auto simp: DeepCopyObject_def Let_def)
  moreover have "\<forall>a \<ge> hpNext h. hpArrays h a = None \<and> hpMaps h a = None"
    using assms(1) by (simp add: heap_ok_def)
  ultimately show "shares h1 x c j" and "projects_at h1 c = projects_at h c"
    and "annotations_at h1 c = annotations_at h c" and "hpArrays h1 = hpArrays h" and "hpMaps h1 = hpMaps h"
    and "\<forall>a \<ge> hpNext h1. hpArrays h a = None \<and> hpMaps h a = None"
    using assms(2)
    by (simp_all add: shares_def projects_at_def read_slice_def annotations_at_def split: option.split)
qed

lemma set_project_shared:
  assumes "shares h x c j" and "i < length (projects_at h x)"
  shows "projects_at (set_project x i p h) x = (projects_at h x)[i := p]"
    and "projects_at (set_project x i p h) c = projects_at (set_project x i p h) x"
    and "shares (set_project x i p h) x c j"
  using assms
  by (auto simp: shares_def projects_at_def read_slice_def set_project_def take_update_swap
      split: option.splits prod.splits)

lemma shares_projects: "shares h x c j \<Longrightarrow> projects_at h c = projects_at h x"
  by (simp add: shares_def projects_at_def)

lemma update_loop_shared:
  assumes "shares h x c j" and "n \<le> length (projects_at h x)"
  shows "shares (update_loop now fn u x [i..<n] h) x c j \<and>
    projects_at (update_loop now fn u x [i..<n] h) x =
      take i (projects_at h x) @ update_projects now fn u (drop i (take n (projects_at h x))) @
      drop (max i n) (projects_at h x)"
  using assms
proof (induction "n - i" arbitrary: i h)
  case 0
  then show ?case by (simp add: update_projects_def max_def)
next
  case (Suc m)
  let ?ps = "projects_at h x"
  have i: "i < n" "i < length ?ps" using Suc.hyps(2) Suc.prems(2) by simp_all
  let ?p = "if fn (?ps ! i) then GetUpdateStatusForProject now u (?ps ! i) else ?ps ! i"
  let ?h = "if fn (?ps ! i) then set_project x i ?p h else h"
  have h: "shares ?h x c j" "projects_at ?h x = ?ps[i := ?p]"
    using set_project_shared [OF Suc.prems(1) i(2)] Suc.prems(1) by simp_all
  have step: "update_loop now fn u x [i..<n] h = update_loop now fn u x [Suc i..<n] ?h"
    using i by (simp add: upt_conv_Cons Let_def)
  have "m = n - Suc i" using Suc.hyps(2) by simp
  from Suc.hyps(1) [OF this h(1)] Suc.prems(2) have IH:
    "shares (update_loop now fn u x [i..<n] h) x c j"
    "projects_at (update_loop now fn u x [i..<n] h) x =
      take (Suc i) (?ps[i := ?p]) @ update_projects now fn u (drop (Suc i) (take n (?ps[i := ?p]))) @
      drop (max (Suc i) n) (?ps[i := ?p])"
    unfolding step h(2) by simp_all
  have "take (Suc i) (?ps[i := ?p]) = take i ?ps @ [?p]"
    using i(2) by (simp add: take_Suc_conv_app_nth)
  moreover have "drop (Suc i) (take n (?ps[i := ?p])) = drop (Suc i) (take n ?ps)"
    by (simp add: take_update_swap)
  moreover have "drop i (take n ?ps) = ?ps ! i # drop (Suc i) (take n ?ps)"
    using i Suc.prems(2) by (simp add: Cons_nth_drop_Suc [symmetric])
  ultimately show ?case using IH i by (simp add: update_projects_def max_def)
qed

lemma update_in_place_shared:
  assumes "shares h x c j"
  shows "projects_at (update_in_place now fn u x h) x = update_projects now fn u (projects_at h x)"
    and "projects_at (update_in_place now fn u x h) c = projects_at (update_in_place now fn u x h) x"
  using update_loop_shared [OF assms order_refl, of now fn u 0] shares_projects
  by (auto simp: update_in_place_def)

lemma annotations_shared:
  assumes "shares h x c j" and "joAnnotations j = Some m" and "hpMaps h m = Some f"
  shows "annotations_at (set_annotation x k v h) x = (annotations_at h x)(k \<mapsto> v)"
    and "annotations_at (set_annotation x k v h) c = annotations_at (set_annotation x k v h) x"
  using assms by (simp_all add: shares_def annotations_at_def set_annotation_def)

lemma sort_shared:
  assumes "shares h x c j"
  shows "projects_at (sort_in_place x h) x = by_priority (projects_at h x)"
    and "projects_at (sort_in_place x h) c = projects_at (sort_in_place x h) x"
proof -
  have "length (by_priority ps) = length ps" for ps by (simp add: by_priority_def)
  then have "take n (by_priority (take n ps) @ drop n ps) = by_priority (take n ps)" for n ps
    by (cases "n \<le> length ps") auto
  with assms show "projects_at (sort_in_place x h) x = by_priority (projects_at h x)"
    and "projects_at (sort_in_place x h) c = projects_at (sort_in_place x h) x"
    by (auto simp: shares_def projects_at_def read_slice_def sort_in_place_def by_priority_def
        split: option.split)
qed

lemma append_kept:
  assumes "shares h x c j" and "\<forall>a \<ge> hpNext h. hpArrays h a = None"
    and "\<forall>a n. joProjects j = Some (a, n) \<longrightarrow> (\<exists>ps. hpArrays h a = Some ps \<and> n \<le> length ps)"
  shows "projects_at (append_project x p h) x = projects_at h x @ [p]"
    and "projects_at (append_project x p h) c = projects_at h c"
proof -
  show "projects_at (append_project x p h) x = projects_at h x @ [p]"
  proof (cases "joProjects j")
    case None
    with assms(1) show ?thesis by (simp add: shares_def projects_at_def read_slice_def append_project_def)
  next
    case (Some an)
    obtain a n where an: "an = (a, n)" by fastforce
    with assms(3) Some obtain ps where "hpArrays h a = Some ps" "n \<le> length ps" by blast
    with assms(1) Some an show ?thesis
      by (simp add: shares_def projects_at_def read_slice_def append_project_def take_Suc_conv_app_nth)
  qed
  show "projects_at (append_project x p h) c = projects_at h c"
  proof (cases "joProjects j")
    case None
    with assms(1) show ?thesis by (simp add: shares_def projects_at_def read_slice_def append_project_def)
  next
    case (Some an)
    obtain a n where an: "an = (a, n)" by fastforce
    with assms(3) Some obtain ps where ps: "hpArrays h a = Some ps" "n \<le> length ps" by blast
    with assms(2) have "a \<noteq> hpNext h" by force
    with assms(1) Some an ps show ?thesis
      by (simp add: shares_def projects_at_def read_slice_def append_project_def)
  qed
qed

lemma upsert_in_place_shared:
  assumes "shares h x c j" and "\<forall>a \<ge> hpNext h. hpArrays h a = None"
    and "\<forall>a n. joProjects j = Some (a, n) \<longrightarrow> (\<exists>ps. hpArrays h a = Some ps \<and> n \<le> length ps)"
  shows "projects_at (upsert_in_place now project u x h) x = upsert_project now project u (projects_at h x)"
    and "projects_at (upsert_in_place now project u x h) c =
      (if project \<in> psName ` set (projects_at h c)
       then upsert_project now project u (projects_at h c) else projects_at h c)"
proof -
  have some: "i < length (projects_at h x)"
    if "find_index (\<lambda>p. psName p = project) (projects_at h x) = Some i" for i
    using find_index_Some [OF that] by simp
  have none: "project \<in> psName ` set ps \<longleftrightarrow> find_index (\<lambda>p. psName p = project) ps \<noteq> None" for ps
    by (auto simp: find_index_None)
  show "projects_at (upsert_in_place now project u x h) x = upsert_project now project u (projects_at h x)"
    using some set_project_shared(1) [OF assms(1)] append_kept(1) [OF assms]
    by (auto simp: upsert_in_place_def upsert_project_def split: option.split)
  show "projects_at (upsert_in_place now project u x h) c =
      (if project \<in> psName ` set (projects_at h c)
       then upsert_project now project u (projects_at h c) else projects_at h c)"
    unfolding none shares_projects [OF assms(1)]
    using some set_project_shared(1,2) [OF assms(1)] append_kept(2) [OF assms] shares_projects [OF assms(1)]
    by (auto simp: upsert_in_place_def upsert_project_def split: option.split)
qed

section \<open>Writes reach the original\<close>


definition cached_object :: job_object where
  "cached_object = \<lparr>joName = ''job'', joNamespace = ''ns'', joSpec = zero_spec, joAnnotations = None,
     joProjects = Some (1, 1), joExecutionOptions = None\<rparr>"

definition cache_heap :: go_heap where
  "cache_heap = \<lparr>hpNext = 2, hpObjects = [0 \<mapsto> cached_object],
     hpArrays = [1 \<mapsto> [example_project ''a'' JobStatusScheduled 0]], hpMaps = Map.empty\<rparr>"


end
