(* ===== verification/Operator.thy ===== *)
theory Operator
  imports Start_Properties Run_Properties Webhook_Properties
begin

text \<open>
  The operator as a whole: the process of \<open>cmd/main.go\<close> after its start, whose parts act on one
  state. A step is a visit of the executor, a run of a scheduled task, a request of the reconciler, a
  request to the webhook or the UI server, or the goroutine of a discovery; they follow each other in any order.
  While one of them talks to the API server, the others, and the users, may act as the relation \<open>I\<close>
  of the laws allows; what every part but the executor does is itself \<open>quiet\<close>.
\<close>

section \<open>Quiet changes\<close>

definition slots :: "job_view \<Rightarrow> string \<times> string \<Rightarrow> int" where
  "slots v k = (case v k of None \<Rightarrow> 0 | Some (sp, st) \<Rightarrow> max 0 (sint (spParallelism sp)))"

definition quiet_at :: "string \<times> string \<Rightarrow> job_view \<Rightarrow> job_view \<Rightarrow> bool" where
  "quiet_at k v v' \<longleftrightarrow> slots v k \<le> slots v' k \<and>
     (tidy v k \<longrightarrow> tidy v' k \<and> running_names (view_projects v' k) \<subseteq> running_names (view_projects v k))"

definition quiet :: "job_view \<Rightarrow> job_view \<Rightarrow> bool" where
  "quiet v v' \<longleftrightarrow> (\<forall>k. quiet_at k v v')"

lemma quiet_at_refl [simp]: "quiet_at k v v"
  by (simp add: quiet_at_def)

lemma quiet_at_trans: "quiet_at k u v \<Longrightarrow> quiet_at k v w \<Longrightarrow> quiet_at k u w"
  unfolding quiet_at_def by (meson order_trans subset_trans)

lemma quiet_refl [simp]: "quiet v v"
  by (simp add: quiet_def)

lemma quiet_trans: "quiet u v \<Longrightarrow> quiet v w \<Longrightarrow> quiet u w"
  unfolding quiet_def using quiet_at_trans by blast

lemma quietD: "quiet v v' \<Longrightarrow> quiet_at k v v'"
  by (simp only: quiet_def)

lemma quiet_never_starts: "(\<And>v v'. I v v' \<Longrightarrow> quiet v v') \<Longrightarrow> never_starts I k"
  unfolding never_starts_def quiet_def quiet_at_def by blast

text \<open>A status that is written to a resource leaves the others and the limits alone.\<close>

lemma slots_write: "u k = Some (sp, st) \<Longrightarrow> slots (u(k \<mapsto> (sp, st'))) k' = slots u k'"
  by (simp add: slots_def)

lemma write_effect_elsewhere:
  assumes "\<And>v v'. I v v' \<Longrightarrow> quiet v v'" and "write_effect I k F v r v'" and "k' \<noteq> k"
  shows "quiet_at k' v v'"
  using assms(2) unfolding write_effect_def
proof (elim disjE exE conjE)
  assume "I v v'"
  from assms(1) [OF this] show ?thesis by (rule quietD)
next
  fix u sp st st'
  assume "I v u" "I (u(k \<mapsto> (sp, stored_status st'))) v'"
  note ends = assms(1) [OF this(1)] assms(1) [OF this(2)]
  have "quiet_at k' u (u(k \<mapsto> (sp, stored_status st')))"
    using assms(3) by (simp add: quiet_at_def slots_def tidy_def view_projects_def)
  with ends show ?thesis unfolding quiet_def using quiet_at_trans by blast
qed

lemma write_effect_slots:
  assumes "\<And>v v'. I v v' \<Longrightarrow> quiet v v'" and "write_effect I k F v r v'"
  shows "slots v k' \<le> slots v' k'"
  using assms(2) unfolding write_effect_def
proof (elim disjE exE conjE)
  assume "I v v'"
  from quietD [OF assms(1) [OF this], of k'] show ?thesis by (simp add: quiet_at_def)
next
  fix u sp st st'
  assume u: "I v u" "u k = Some (sp, st)" "I (u(k \<mapsto> (sp, stored_status st'))) v'"
  have "slots v k' \<le> slots u k'" and "slots (u(k \<mapsto> (sp, stored_status st'))) k' \<le> slots v' k'"
    using quietD [OF assms(1) [OF u(1)], of k'] quietD [OF assms(1) [OF u(3)], of k']
    by (simp_all add: quiet_at_def)
  then show ?thesis using slots_write [of u k sp st "stored_status st'" k', OF u(2)] by linarith
qed

lemma write_effect_quiet:
  assumes "\<And>v v'. I v v' \<Longrightarrow> quiet v v'" and "starts_at_most {} F" and "write_effect I k F v r v'"
  shows "quiet v v'"
  unfolding quiet_def
proof
  fix k'
  show "quiet_at k' v v'"
  proof (cases "k' = k")
    case True
    with write_effect_slots [OF assms(1,3), of k]
      write_effect_starts [OF quiet_never_starts [OF assms(1)] assms(2,3)]
    show ?thesis by (simp add: quiet_at_def)
  next
    case False
    from write_effect_elsewhere [OF assms(1,3) False] show ?thesis .
  qed
qed

section \<open>The surroundings of the operator\<close>

text \<open>
  \<open>surroundings I E\<close>: the laws of the API server and of other services, with other clients that are
  quiet, and lists of repositories that name none twice.
\<close>

definition lists_once :: "'w env \<Rightarrow> bool" where
  "lists_once E \<longleftrightarrow> (\<forall>job s projects.
     getDiscoveredProjectsFromJobLogs E job s = Inr projects \<longrightarrow> distinct projects)"

definition surroundings :: "(job_view \<Rightarrow> job_view \<Rightarrow> bool) \<Rightarrow> 'w env \<Rightarrow> bool" where
  "surroundings I E \<longleftrightarrow> kube_laws I E \<and> retry_law I E \<and> law_http I E \<and> law_object I E \<and>
     interference I \<and> (\<forall>v v'. I v v' \<longrightarrow> quiet v v') \<and> lists_once E"

lemma surroundingsD:
  assumes "surroundings I E"
  shows "kube_laws I E" and "retry_law I E" and "law_http I E" and "law_object I E"
    and "interference I" and "I v v' \<Longrightarrow> quiet v v'" and "lists_once E"
  using assms by (simp_all add: surroundings_def)

lemma updated_quiet:
  assumes "surroundings I E" and "suStatus u \<noteq> JobStatusRunning"
  shows "UpdateProjectStatus E project job u s = (r, s') \<Longrightarrow> quiet (sview E s) (sview E s')"
    and "UpdateProjectStatusBatched E fn job u s = (r, s') \<Longrightarrow> quiet (sview E s) (sview E s')"
  using write_effect_quiet [OF surroundingsD(6) [OF assms(1)] _ UpdateProjectStatus_effect
      [OF surroundingsD(1,2,5) [OF assms(1)]]] upserts_starts [of u project] assms(2)
    write_effect_quiet [OF surroundingsD(6) [OF assms(1)] updates_starts [OF assms(2)]
      UpdateProjectStatusBatched_effect [OF surroundingsD(1,2,5) [OF assms(1)]]]
  by simp_all

lemma reconciled_quiet:
  assumes "surroundings I E" and "distinct projects" and "ReconcileProjects E job projects s = (r, s')"
  shows "quiet (sview E s) (sview E s')"
  by (rule write_effect_quiet [OF surroundingsD(6) [OF assms(1)] reconciles_starts [OF assms(2)]
      ReconcileProjects_effect [OF surroundingsD(1,2,5) [OF assms(1)] assms(3)]])

lemma options_quiet:
  assumes "surroundings I E" and "UpdateExecutionOptions E job options s = (r, s')"
  shows "quiet (sview E s) (sview E s')"
  by (rule write_effect_quiet [OF surroundingsD(6) [OF assms(1)] options_starts
      UpdateExecutionOptions_effect [OF surroundingsD(1,2,5) [OF assms(1)] assms(2)]])

section \<open>A visit of the executor\<close>

text \<open>
  What a visit does to the resource it visits is the matter of \<open>parallelism_respected\<close>; at all others
  it is quiet, and it changes no limit.
\<close>

definition visits_only :: "string \<times> string \<Rightarrow> job_view \<Rightarrow> job_view \<Rightarrow> bool" where
  "visits_only k v v' \<longleftrightarrow> slots v k \<le> slots v' k \<and> (\<forall>k'. k' \<noteq> k \<longrightarrow> quiet_at k' v v')"

lemma visits_only_refl [simp]: "visits_only k v v"
  by (simp add: visits_only_def)

lemma visits_only_trans: "visits_only k u v \<Longrightarrow> visits_only k v w \<Longrightarrow> visits_only k u w"
  unfolding visits_only_def by (meson order_trans quiet_at_trans)

lemma quiet_visits_only: "quiet v v' \<Longrightarrow> visits_only k v v'"
  using quietD [of v v'] by (simp add: visits_only_def) (simp add: quiet_at_def)

lemma update_visits:
  assumes "surroundings I E" and "UpdateProjectStatus E p (job_id rj) u s = (r, s')"
  shows "visits_only (rj_key rj) (sview E s) (sview E s')"
proof -
  note effect = UpdateProjectStatus_effect [OF surroundingsD(1,2,5) [OF assms(1)] assms(2)]
  from write_effect_slots [OF surroundingsD(6) [OF assms(1)] effect]
    write_effect_elsewhere [OF surroundingsD(6) [OF assms(1)] effect]
  show ?thesis by (simp add: visits_only_def)
qed

lemma finish_visits:
  assumes "surroundings I E" and "finish_project E rj p job st d s = (r, s')"
  shows "visits_only (rj_key rj) (sview E s) (sview E s')"
proof -
  let ?log = "finished_log E job s"
  let ?s = "s\<lparr>syMetrics := finish_metrics rj p st (lpHasIssues ?log) (syMetrics s)\<rparr>"
  obtain r1 s1 where u: "UpdateProjectStatus E p (job_id rj) ((mk_update st 0)\<lparr>suDuration := Some d,
      suRenovateResultStatus := lpRenovateResultStatus ?log\<rparr>) ?s = (r1, s1)" by fastforce
  have "s' = s1 \<or> (\<exists>j. DeleteJob E j s1 = (r, s'))"
    using assms(2) u by (auto simp: finish_project_def Let_def split: option.splits if_splits)
  then have "visits_only (rj_key rj) (sview E s1) (sview E s')"
    using DeleteJob_view [OF surroundingsD(1) [OF assms(1)]] surroundingsD(6) [OF assms(1)]
      quiet_visits_only by auto
  with update_visits [OF assms(1) u] visits_only_trans show ?thesis by auto
qed

lemma process_running_visits:
  assumes "surroundings I E"
  shows "process_running E rj ps k s = (r, s') \<Longrightarrow> visits_only (rj_key rj) (sview E s) (sview E s')"
proof (induction ps arbitrary: k s)
  case Nil
  then show ?case by simp
next
  case (Cons p ps)
  from Cons.prems show ?case
  proof (cases rule: process_running_Cons)
    case pass
    then show ?thesis by (rule Cons.IH)
  next
    case (stop e)
    then show ?thesis by simp
  next
    case (failed job st d e)
    from finish_visits [OF assms failed(3)] show ?thesis .
  next
    case (freed job st d s1)
    from visits_only_trans [OF finish_visits [OF assms freed(3)] Cons.IH [OF freed(4)]] show ?thesis .
  qed
qed

lemma start_project_visits:
  assumes "surroundings I E" and "start_project E rj p s = (r, s')"
  shows "visits_only (rj_key rj) (sview E s) (sview E s')"
proof (cases "eSetControllerReference E rj (newRenovateJob (sySettings s) rj p)")
  case (Inl e)
  with assms(2) show ?thesis by (simp add: start_project_def)
next
  case (Inr owner)
  obtain rc s1 where c: "CreateJobWithGeneration E ((newRenovateJob (sySettings s) rj p)\<lparr>jbOwner := owner\<rparr>)
      (executor_selector rj p) s = (rc, s1)" by fastforce
  have created: "visits_only (rj_key rj) (sview E s) (sview E s1)"
    by (rule quiet_visits_only [OF surroundingsD(6) [OF assms(1)
        CreateJob_view [OF surroundingsD(1) [OF assms(1)] c]]])
  have "s' = s1 \<or> UpdateProjectStatus E p (job_id rj) (mk_update JobStatusRunning 0) s1 = (r, s')"
    using assms(2) Inr c by (auto simp: start_project_def split: sum.splits)
  with created update_visits [OF assms(1)] visits_only_trans show ?thesis by blast
qed

lemma start_scheduled_visits:
  assumes "surroundings I E"
  shows "start_scheduled E rj ps k s = (r, s') \<Longrightarrow> visits_only (rj_key rj) (sview E s) (sview E s')"
proof (induction ps arbitrary: k s)
  case Nil
  then show ?case by simp
next
  case (Cons p ps)
  show ?case
  proof (cases "psStatus p = JobStatusScheduled \<and> k < sint (spParallelism (rjSpec rj))")
    case True
    obtain r1 s1 where start: "start_project E rj (psName p) s = (r1, s1)" by fastforce
    note first = start_project_visits [OF assms start]
    show ?thesis
    proof (cases r1)
      case None
      with Cons.prems True start have "start_scheduled E rj ps (k + 1) s1 = (r, s')" by simp
      from visits_only_trans [OF first Cons.IH [OF this]] show ?thesis .
    next
      case (Some e)
      with Cons.prems True start first show ?thesis by simp
    qed
  next
    case False
    with Cons.prems have "start_scheduled E rj ps k s = (r, s')" by (auto split: if_splits)
    then show ?thesis by (rule Cons.IH)
  qed
qed

lemma reconcileProjects_visits:
  assumes "surroundings I E" and "reconcileProjects E rj s = (r, s')"
  shows "visits_only (rj_key rj) (sview E s) (sview E s')"
proof -
  obtain k s1 where p: "process_running E rj (projects_of rj) (int (running (projects_of rj))) s = (k, s1)"
    by fastforce
  note first = process_running_visits [OF assms(1) p]
  show ?thesis
  proof (cases k)
    case (Inl e)
    with assms(2) p first show ?thesis by (simp add: reconcileProjects_def)
  next
    case (Inr n)
    with assms(2) p have "start_scheduled E rj (by_priority (projects_of rj)) n s1 = (r, s')"
      by (simp add: reconcileProjects_def)
    from visits_only_trans [OF first start_scheduled_visits [OF assms(1) this]] show ?thesis .
  qed
qed

lemma visit_visits:
  assumes "surroundings I E" and "executeRenovateJob E job x = (r, x')"
  shows "visits_only (key_of job) (sview E (exSys x)) (sview E (exSys x'))"
proof -
  obtain b x1 where sync: "syncOnJobExecution E (identifier_Fullname job) x = (b, x1)" by fastforce
  have w1: "syWorld (exSys x1) = syWorld (exSys x)"
    using sync by (auto simp: syncOnJobExecution_def Let_def set_executor_running_def)
  show ?thesis
  proof (cases "b \<and> (\<exists>rj. GetRenovateJob E (riName job) (riNamespace job) (exSys x1) = Inr rj)")
    case False
    with assms(2) sync have "syWorld (exSys x') = syWorld (exSys x1)"
      by (auto simp: executeRenovateJob_def Let_def unlock_execution_def set_executor_running_def
          split: bool.splits sum.splits)
    with w1 show ?thesis by simp
  next
    case True
    then obtain rj where rj: "GetRenovateJob E (riName job) (riNamespace job) (exSys x1) = Inr rj" and b by blast
    obtain s where s: "reconcileProjects E rj (exSys x1) = (r, s)"
      and "syWorld (exSys x') = syWorld s"
      using assms(2) sync rj \<open>b\<close>
      by (auto simp: executeRenovateJob_def Let_def unlock_execution_def set_executor_running_def
          split: prod.splits)
    moreover have "rj_key rj = key_of job"
      using load_identity [OF surroundingsD(1) [OF assms(1)] rj [unfolded GetRenovateJob_def]] by simp
    ultimately show ?thesis using reconcileProjects_visits [OF assms(1) s] w1 by simp
  qed
qed

section \<open>Runs, requests and handlers\<close>

lemma wait_once:
  assumes "lists_once E" and "WaitForDiscoveryJob E job g s = Some (Returns (Inr projects), s')"
  shows "distinct projects"
proof -
  from wait_returns [OF assms(2)] obtain s1 where "poll E job g s1 = Inl (Returns (Inr projects), s')" by blast
  then obtain s2 where "discovery_result E job s2 = Inr projects"
    by (auto simp: poll_def split: prod.splits go_run.splits sum.splits if_splits)
  with assms(1) show ?thesis by (auto simp: discovery_result_def lists_once_def split: sum.splits)
qed

lemma Discover_once:
  assumes "lists_once E" and "Discover E job s = Some (Returns (Inr projects), s')"
  shows "distinct projects"
  using assms(2) wait_once [OF assms(1)] by (auto simp: Discover_def split: prod.splits sum.splits)

lemma lists_quiet:
  assumes "surroundings I E" and "distinct projects" and "skip_forks E job projects s = (Inr left, s1)"
    and "ReconcileProjects E i left s1 = (r, s')"
  shows "quiet (sview E s) (sview E s')"
proof -
  note laws = surroundingsD [OF assms(1)]
  have "distinct left"
    using assms(2) skip_forks_subseq [OF assms(3)] by (auto simp: subseq_conv_nths intro: distinct_nthsI)
  from quiet_trans [OF laws(6) [OF skip_forks_view [OF laws(5,3) assms(3)]]
      reconciled_quiet [OF assms(1) this assms(4)]] show ?thesis .
qed

lemma run_schedule_quiet:
  assumes "surroundings I E" and "run_schedule E f co = Some (Returns (), co')"
  shows "quiet (sview E (co_sys co)) (sview E (co_sys co'))"
proof -
  note laws = surroundingsD [OF assms(1)]
  from assms(2) show ?thesis
  proof (cases rule: run_schedule_cases)
    case unread
    then show ?thesis by simp
  next
    case (stopped rj r s1)
    from stopped(3) have "quiet (sview E s1) (sview E (co_sys co'))"
      using laws(6) [OF skip_forks_view [OF laws(5,3)]] by auto
    with quiet_trans [OF laws(6) [OF Discover_view [OF laws(5,1) stopped(2)]]] show ?thesis .
  next
    case (listed rj projects s1 left s2 r s3 q s4)
    note lists = quiet_trans [OF laws(6) [OF Discover_view [OF laws(5,1) listed(2)]]
      lists_quiet [OF assms(1) Discover_once [OF laws(7) listed(2)] listed(3,4)]]
    show ?thesis
    proof (cases r)
      case (Some e)
      with listed(6) lists show ?thesis by simp
    next
      case None
      with listed(6) have "sync_webhooks E f (with_sys s4 co) = Some co'" by simp
      from laws(6) [OF sync_webhooks_view [OF laws(5,1,3,4) this]]
      have "quiet (sview E s4) (sview E (co_sys co'))" by (simp add: with_sys_def)
      moreover have "quiet (sview E s3) (sview E s4)"
        by (rule updated_quiet(2) [OF assms(1) _ listed(5)]) (simp add: mk_update_def)
      ultimately show ?thesis using lists quiet_trans by blast
    qed
  qed
qed

lemma schedule_health_world [simp]:
  "syWorld (schedule_health E L key e b s) = syWorld s" "syWorld (set_scheduler_health E h s) = syWorld s"
  by (simp_all add: schedule_health_def set_scheduler_health_def)

lemma cron_task_quiet:
  assumes "surroundings I E" and "run_cron_task E L t co = Some (Returns (), co')"
  shows "quiet (sview E (co_sys co)) (sview E (co_sys co'))"
proof -
  let ?co = "on_sys (schedule_health E L (ctKey t) (ctSchedule t) True) co"
  from assms(2) obtain co1 where run: "run_schedule E (ctFn t) ?co = Some (Returns (), co1)"
    and "co' = on_sys (schedule_health E L (ctKey t) (ctSchedule t) False) co1"
    unfolding run_cron_task_def execute_schedule_def by (auto simp: apsnd_def map_prod_def split: prod.splits)
  with run_schedule_quiet [OF assms(1) run] show ?thesis by simp
qed

text \<open>A request of the reconciler only reads.\<close>

lemma AddSchedule_world [simp]: "syWorld (scSys (snd (AddSchedule E L e n f sc))) = syWorld (scSys sc)"
  by (simp add: AddSchedule_def split: prod.split sum.split)

lemma RemoveSchedule_world [simp]: "syWorld (scSys (RemoveSchedule E L n sc)) = syWorld (scSys sc)"
  by (simp add: RemoveSchedule_def Let_def split: option.split)

lemma Reconcile_world:
  assumes "Reconcile E L U name namespace co = (r, co')"
  shows "syWorld (co_sys co') = syWorld (co_sys co)"
  using assms
proof (cases rule: Reconcile_cases)
  case (found rj e sc)
  have "syWorld (scSys (snd (AddScheduleReplaceExisting E L e n f sc))) = syWorld (scSys sc)" for e n f sc
    by (simp add: AddScheduleReplaceExisting_def split: option.split)
  from this [of "spSchedule (rjSpec rj)" "Fullname rj" "schedule_fn_of rj" "coScheduler co"] found
  show ?thesis by simp
qed simp_all

lemma webhook_quiet:
  assumes "surroundings I E" and "webhook_server E mux r s = (x, s')"
  shows "quiet (sview E s) (sview E s')"
proof -
  have "quiet (sview E s) (sview E (snd (UpdateProjectStatus E p (query_id r) (mk_update JobStatusScheduled 1) s)))"
    for p by (rule updated_quiet(1) [OF assms(1) _ prod.collapse [symmetric]]) (simp add: mk_update_def)
  moreover have "schedules_only E r s s'"
  proof (cases "s' = s")
    case False
    from authMiddleware_admits [OF assms(2) [unfolded webhook_server_def] False]
    have "webhook_routes E mux r s = (x, s')" by blast
    with webhook_routes_only [of E r s mux] show ?thesis by simp
  qed simp
  ultimately show ?thesis by (auto simp: schedules_only_def)
qed

lemma status_quiet:
  assumes "surroundings I E" and "GetDiscoveryJobStatus E job g s = (r, s')"
  shows "quiet (sview E s) (sview E s')"
  using surroundingsD(6) [OF assms(1) status_view [OF surroundingsD(5,1) [OF assms(1)]]] assms(2)
  by (simp add: GetDiscoveryJobStatus_def)

lemma job_infos_quiet:
  assumes "surroundings I E"
  shows "quiet (sview E s) (sview E (snd (job_infos E L jobs s)))"
proof (induction jobs arbitrary: s)
  case Nil
  show ?case by simp
next
  case (Cons job jobs)
  obtain x s1 where x: "GetDiscoveryJobStatus E job [] s = (x, s1)" by fastforce
  obtain i where i: "job_info E L job s = (i, s1)"
    using x by (cases x; cases "GetPlatformAndEndpoint (spProvider (rjSpec job))")
      (simp_all add: job_info_def Let_def)
  note first = status_quiet [OF assms x]
  show ?case
  proof (cases i)
    case (Panics m)
    with i first show ?thesis by simp
  next
    case (Returns info)
    have "snd (job_infos E L (job # jobs) s) = snd (job_infos E L jobs s1)"
      using i Returns by (simp split: prod.split go_run.split)
    with quiet_trans [OF first Cons.IH] show ?thesis by simp
  qed
qed

lemma http_quiet:
  assumes "surroundings I E"
  shows "http_do E c s = (r, s') \<Longrightarrow> quiet (sview E s) (sview E s')"
  by (rule surroundingsD(6) [OF assms http_do_view [OF surroundingsD(3) [OF assms]]])

lemma github_user_quiet:
  assumes "surroundings I E" and "fetchGitHubUser E token s = (r, s')"
  shows "quiet (sview E s) (sview E s')"
proof -
  obtain x s1 where x: "http_do E (github_request ''https://api.github.com/user'' token) s = (x, s1)"
    by fastforce
  obtain y s2 where y: "http_do E (github_request ''https://api.github.com/user/emails'' token) s1 = (y, s2)"
    by fastforce
  have email: "snd (fetchPrimaryEmail E token s1) = s2"
    using y by (cases y) (simp_all add: fetchPrimaryEmail_def)
  have "s' = s1 \<or> s' = s2"
    using assms(2) x email
    by (cases "fetchPrimaryEmail E token s1")
      (auto simp: fetchGitHubUser_def Let_def split: sum.splits option.splits if_splits prod.splits)
  with http_quiet [OF assms(1) x] quiet_trans [OF http_quiet [OF assms(1) x] http_quiet [OF assms(1) y]]
  show ?thesis by auto
qed

lemma login_quiet:
  assumes "surroundings I E"
  shows "quiet (sview E s) (sview E (snd (HandleCallback E OL a random r s)))"
    and "quiet (sview E s) (sview E (snd (HandleLogout E a r s)))"
proof -
  have "quiet (sview E s) (sview E (snd (github_HandleCallback E OL g random r s)))" for g
    using github_user_quiet [OF assms]
    by (auto simp: github_HandleCallback_def split: option.split sum.split prod.split)
  then show "quiet (sview E s) (sview E (snd (HandleCallback E OL a random r s)))"
    by (cases a) simp_all
  have "quiet (sview E s) (sview E (snd (github_HandleLogout E g r s)))" for g
    using http_quiet [OF assms prod.collapse [symmetric]]
    by (auto simp: github_HandleLogout_def Let_def revokeGitHubToken_def split: sum.split)
  then show "quiet (sview E s) (sview E (snd (HandleLogout E a r s)))"
    by (cases a) simp_all
qed

lemma discovery_start_quiet:
  assumes "surroundings I E"
  shows "quiet (sview E s) (sview E (snd (runDiscoveryForProject E srv r s)))"
proof -
  have created: "quiet (sview E s) (sview E s2)"
    if "GetDiscoveryJobStatus E job [] s = (x, s1)" "CreateDiscoveryJob E job s1 = (y, s2)" for job x s1 y s2
    by (rule quiet_trans [OF status_quiet [OF assms that(1)] surroundingsD(6) [OF assms
      CreateDiscoveryJob_view [OF surroundingsD(5,1) [OF assms] that(2)]]])
  show ?thesis
    using status_quiet [OF assms] created
    by (auto simp: runDiscoveryForProject_def split: sum.split option.split prod.split go_run.split)
qed

lemma discovery_status_quiet:
  assumes "surroundings I E"
  shows "quiet (sview E s) (sview E (snd (discoveryStatusForProject E srv r s)))"
  using status_quiet [OF assms]
  by (auto simp: discoveryStatusForProject_def Let_def split: option.split prod.split go_run.split sum.split)

lemma triggers_quiet:
  assumes "surroundings I E"
  shows "quiet (sview E s) (sview E (snd (runRenovateForProject E srv r s)))"
    and "quiet (sview E s) (sview E (snd (runRenovateForAllProjects E r s)))"
    and "quiet (sview E s) (sview E (snd (updateExecutionOptions E r s)))"
proof -
  have "suStatus (mk_update JobStatusScheduled 2) \<noteq> JobStatusRunning" by (simp add: mk_update_def)
  note updated = updated_quiet [OF assms this]
  show "quiet (sview E s) (sview E (snd (runRenovateForProject E srv r s)))"
    using updated(1) by (auto simp: runRenovateForProject_def split: sum.split prod.split option.split)
  show "quiet (sview E s) (sview E (snd (runRenovateForAllProjects E r s)))"
    using updated(2) by (auto simp: runRenovateForAllProjects_def split: sum.split prod.split option.split)
  show "quiet (sview E s) (sview E (snd (updateExecutionOptions E r s)))"
    using options_quiet [OF assms]
    by (auto simp: updateExecutionOptions_def split: sum.split prod.split option.split)
qed

lemma jobs_quiet:
  assumes "surroundings I E"
  shows "quiet (sview E s) (sview E (snd (getRenovateJobs E L srv r s)))"
  using job_infos_quiet [OF assms, of s L]
  by (auto simp: getRenovateJobs_def split: sum.split prod.split go_run.split) (metis snd_conv)+

lemma serve_route_quiet:
  assumes "surroundings I E"
  shows "quiet (sview E s) (sview E (snd (serve_route E OL L srv random x r s)))"
  using login_quiet [OF assms, of s] jobs_quiet [OF assms, of s] triggers_quiet [OF assms, of s]
    discovery_start_quiet [OF assms, of s] discovery_status_quiet [OF assms, of s]
  by (cases x) (simp_all add: serve_route_def with_provider_def split: option.split)

lemma ui_quiet:
  assumes "surroundings I E" and "ui_server_handler E OL L srv mux random r s = (x, s')"
  shows "quiet (sview E s) (sview E s')"
proof -
  have "s' = s \<or> (\<exists>c r'. s' = snd (serve_route E OL L srv random c r' s))"
  proof (cases "usAuth srv")
    case None
    with assms(2) show ?thesis by (auto simp: ui_server_handler_def) (metis snd_conv)
  next
    case (Some a)
    let ?h = "serve_route E OL L srv random (route_of mux r)"
    let ?router = "\<lambda>r s. serve_route E OL L srv random (route_of mux r) r s"
    have x: "auth_middleware E (base_of a) ?router r s = (x, s')"
      using assms(2) Some by (simp add: ui_server_handler_def)
    show ?thesis
    proof (cases "isPublicPath (uqPath r)")
      case True
      with x have "?h r s = (x, s')" by (simp add: middleware_public)
      then show ?thesis by (metis snd_conv)
    next
      case False
      show ?thesis
      proof (cases "getSession E (base_of a) r s")
        case (Inl e)
        with middleware_refused [OF False Inl] x show ?thesis by simp
      next
        case (Inr session)
        obtain y t where y: "?router (r\<lparr>uqSession := Some session\<rparr>) s = (y, t)" by fastforce
        from middleware_admitted [where h = ?router, OF False Inr y] x have "s' = t" by auto
        moreover have "?h (r\<lparr>uqSession := Some session\<rparr>) s = (y, t)" using y by (simp add: route_of_def)
        ultimately show ?thesis by (metis snd_conv)
      qed
    qed
  qed
  with serve_route_quiet [OF assms(1), of s] show ?thesis by auto
qed

section \<open>Steps of the operator\<close>

abbreviation pr_sys :: "('w, 'c) process \<Rightarrow> 'w sys" where
  "pr_sys p \<equiv> co_sys (prController p)"

definition put_sys :: "'w sys \<Rightarrow> ('w, 'c) process \<Rightarrow> ('w, 'c) process" where
  "put_sys s p = p\<lparr>prController := with_sys s (prController p)\<rparr>"

text \<open>The executor acts on the shared state, with its locks.\<close>

definition executor_of :: "('w, 'c) process \<Rightarrow> 'w executor" where
  "executor_of p = \<lparr>exSyncer = prLocks p, exSys = pr_sys p\<rparr>"

definition put_executor :: "'w executor \<Rightarrow> ('w, 'c) process \<Rightarrow> ('w, 'c) process" where
  "put_executor x p = put_sys (exSys x) (p\<lparr>prLocks := exSyncer x\<rparr>)"

lemma pr_sys_put [simp]: "pr_sys (put_sys s p) = s" "pr_sys (put_executor x p) = exSys x"
  by (simp_all add: put_sys_def put_executor_def)

text \<open>
  \<open>others\<close> is what happens between the steps: a user may delete a resource, create one without
  projects, raise its limit, and change anything that does not start a project.
\<close>

inductive operator_step ::
    "'w env \<Rightarrow> 'w oauth_lib \<Rightarrow> (schedule_fn, 'c) cron_lib \<Rightarrow> url_parser \<Rightarrow>
     ('w, 'c) process \<Rightarrow> ('w, 'c) process \<Rightarrow> bool"
  for E OL L U where
  elected: "operator_step E OL L U p (on_elected E L n p)"
| visited: "executeRenovateJob E job (executor_of p) = (r, x) \<Longrightarrow>
    operator_step E OL L U p (put_executor x p)"
| reconciled: "Reconcile E L U name namespace (prController p) = (d, co) \<Longrightarrow>
    operator_step E OL L U p (p\<lparr>prController := co\<rparr>)"
| fired: "run_cron_task E L t (prController p) = Some (Returns (), co) \<Longrightarrow>
    operator_step E OL L U p (p\<lparr>prController := co\<rparr>)"
| hooked: "webhook_server E router q (pr_sys p) = (a, s) \<Longrightarrow> operator_step E OL L U p (put_sys s p)"
| requested: "ui_server_handler E OL L (prUi p) mux random u (pr_sys p) = (b, s) \<Longrightarrow>
    operator_step E OL L U p (put_sys s p)"
| discovered: "task \<in> set (syDiscoveries (pr_sys p)) \<Longrightarrow>
    discovery_task E task (pr_sys p) = Some (Returns (), s) \<Longrightarrow> operator_step E OL L U p (put_sys s p)"
| others: "(\<And>k. view E w k = None \<or> quiet_at k (sview E (pr_sys p)) (view E w)) \<Longrightarrow>
    operator_step E OL L U p (put_sys ((pr_sys p)\<lparr>syWorld := w\<rparr>) p)"

section \<open>The limit holds\<close>

text \<open>Every resource has projects of different names, and no more of them running than it allows.\<close>

definition limited :: "job_view \<Rightarrow> bool" where
  "limited v \<longleftrightarrow> (\<forall>k sp st. v k = Some (sp, st) \<longrightarrow> distinct (map psName (rsProjects st)) \<and>
     int (running (rsProjects st)) \<le> max 0 (sint (spParallelism sp)))"

definition limited_at :: "string \<times> string \<Rightarrow> job_view \<Rightarrow> bool" where
  "limited_at k v \<longleftrightarrow> tidy v k \<and> int (card (running_names (view_projects v k))) \<le> slots v k"

lemma limited_iff: "limited v \<longleftrightarrow> (\<forall>k. limited_at k v)"
proof -
  have "limited_at k v \<longleftrightarrow> (\<forall>sp st. v k = Some (sp, st) \<longrightarrow> distinct (map psName (rsProjects st)) \<and>
      int (running (rsProjects st)) \<le> max 0 (sint (spParallelism sp)))" for k
    by (cases "v k") (auto simp: limited_at_def tidy_def view_projects_def slots_def card_running_names)
  then show ?thesis by (simp only: limited_def)
qed

lemma quiet_at_limited: "quiet_at k v v' \<Longrightarrow> limited_at k v \<Longrightarrow> limited_at k v'"
  unfolding quiet_at_def limited_at_def
  by (meson card_mono finite_running_names of_nat_mono order_trans)

lemma quiet_limited: "quiet v v' \<Longrightarrow> limited v \<Longrightarrow> limited v'"
  unfolding limited_iff using quietD quiet_at_limited by blast

lemma visit_missing:
  assumes "sview E (exSys x) (key_of job) = None" and "executeRenovateJob E job x = (r, x')"
  shows "syWorld (exSys x') = syWorld (exSys x)"
proof -
  obtain b x1 where sync: "syncOnJobExecution E (identifier_Fullname job) x = (b, x1)" by fastforce
  then have w1: "syWorld (exSys x1) = syWorld (exSys x)"
    by (auto simp: syncOnJobExecution_def Let_def set_executor_running_def)
  with assms(1) obtain e where "GetRenovateJob E (riName job) (riNamespace job) (exSys x1) = Inl e"
    by (auto simp: view_def GetRenovateJob_def loadRenovateJob_def split: sum.splits)
  with assms(2) sync w1 show ?thesis
    by (auto simp: executeRenovateJob_def Let_def unlock_execution_def set_executor_running_def
        split: bool.splits)
qed

lemma visit_limited:
  assumes "surroundings I E" and "limited (sview E (exSys x))" and "executeRenovateJob E job x = (r, x')"
  shows "limited (sview E (exSys x'))"
  unfolding limited_iff
proof
  fix k
  note only = visit_visits [OF assms(1,3)]
  note laws = surroundingsD [OF assms(1)]
  from assms(2) have before: "limited_at k' (sview E (exSys x))" for k' by (simp only: limited_iff)
  show "limited_at k (sview E (exSys x'))"
  proof (cases "k = key_of job")
    case False
    with only before [of k] show ?thesis unfolding visits_only_def using quiet_at_limited by blast
  next
    case True
    have more: "slots (sview E (exSys x)) k \<le> slots (sview E (exSys x')) k"
      using only True by (simp add: visits_only_def)
    show ?thesis
    proof (cases "sview E (exSys x) k")
      case None
      with visit_missing [OF _ assms(3)] True have "syWorld (exSys x') = syWorld (exSys x)" by simp
      with before [of k] show ?thesis by simp
    next
      case (Some y)
      obtain sp st where v: "sview E (exSys x) (key_of job) = Some (sp, st)" using Some True by (cases y) auto
      from before [of "key_of job"] v have t: "tidy (sview E (exSys x)) (key_of job)"
        and d: "distinct (map psName (rsProjects st))"
        and n: "int (card (running_names (rsProjects st))) \<le> max 0 (sint (spParallelism sp))"
        by (simp_all add: limited_at_def slots_def tidy_def view_projects_def)
      have ok: "store_ok (I, E) job"
        using laws(1,2,5) quiet_never_starts [OF laws(6)] by (simp add: store_ok_def)
      note visit = executeRenovateJob_covered [OF ok v t assms(3)]
      have "max 0 (sint (spParallelism sp)) \<le> slots (sview E (exSys x')) k"
        using more v True by (simp add: slots_def)
      with visit(2) n [unfolded card_running_names [OF d]]
      have "int (card (running_names (view_projects (sview E (exSys x')) k))) \<le> slots (sview E (exSys x')) k"
        unfolding True by linarith
      with visit(1) True show ?thesis by (simp add: limited_at_def)
    qed
  qed
qed

lemma rounds_limited:
  assumes "surroundings I E" and "limited (sview E (exSys x))"
  shows "limited (sview E (exSys (executor_rounds E n x)))"
proof -
  have folded: "limited (sview E (exSys (fold (\<lambda>job x. snd (executeRenovateJob E job x)) jobs x)))"
    if "limited (sview E (exSys x))" for jobs x
    using that visit_limited [OF assms(1) _ prod.collapse [symmetric]] by (induction jobs arbitrary: x) auto
  have one: "limited (sview E (exSys (execute E x)))" if "limited (sview E (exSys x))" for x
    using folded [OF that] that by (simp add: execute_def split: sum.split)
  have slept: "quiet (view E w) (view E (eSleep E d w))" for d w
    by (rule surroundingsD(6) [OF assms(1) kube_laws_sleep [OF surroundingsD(1) [OF assms(1)]]])
  show ?thesis
    using assms(2)
  proof (induction n arbitrary: x)
    case 0
    then show ?case by simp
  next
    case (Suc n)
    have "limited (sview E ((exSys (execute E x))\<lparr>syWorld := eSleep E (10 * second)
        (syWorld (exSys (execute E x)))\<rparr>))"
      using quiet_limited [OF slept one [OF Suc.prems]] by simp
    with Suc.IH show ?case by (simp add: Let_def)
  qed
qed

lemma discovery_task_quiet:
  assumes "surroundings I E" and "discovery_task E task s = Some (Returns (), s')"
  shows "quiet (sview E s) (sview E s')"
proof -
  note laws = surroundingsD [OF assms(1)]
  obtain n ns job g where task: "task = (n, ns, job, g)" by (cases task)
  with assms(2) obtain x s1 where wait: "WaitForDiscoveryJob E job g s = Some (x, s1)"
    by (auto simp: discovery_task_def split: option.splits)
  note waited = laws(6) [OF Wait_view [OF laws(5,1) wait]]
  show ?thesis
  proof (cases "\<exists>projects. x = Returns (Inr projects)")
    case False
    with assms(2) task wait have "s' = s1"
      by (auto simp: discovery_task_def split: go_run.splits sum.splits)
    with waited show ?thesis by simp
  next
    case True
    then obtain projects where x: "x = Returns (Inr projects)" by blast
    obtain y s2 where forks: "skip_forks E job projects s1 = (y, s2)" by fastforce
    show ?thesis
    proof (cases y)
      case (Inl err)
      with assms(2) task wait x forks have "s' = s2" by (simp add: discovery_task_def)
      with quiet_trans [OF waited laws(6) [OF skip_forks_view [OF laws(5,3) forks]]] show ?thesis by simp
    next
      case (Inr left)
      obtain r s3 where rec: "ReconcileProjects E \<lparr>riName = n, riNamespace = ns\<rparr> left s2 = (r, s3)"
        by fastforce
      with assms(2) task wait x forks Inr have "s' = s3" by (simp add: discovery_task_def)
      with quiet_trans [OF waited lists_quiet [OF assms(1) wait_once [OF laws(7) wait [unfolded x]]
          forks [unfolded Inr] rec]] show ?thesis by simp
    qed
  qed
qed

lemma step_limited:
  assumes "surroundings I E" and "operator_step E OL L U p p'" and "limited (sview E (pr_sys p))"
  shows "limited (sview E (pr_sys p'))"
  using assms(2)
proof cases
  case (elected n)
  have "limited (sview E (exSys (Start E n \<lparr>exSyncer = prLocks p,
      exSys = co_sys ((prController p)\<lparr>coScheduler := Start_scheduler E L (coScheduler (prController p))\<rparr>)\<rparr>)))"
    unfolding Start_def using assms(3) by (intro rounds_limited [OF assms(1)]) (simp add: Start_scheduler_def)
  with elected show ?thesis by (simp add: on_elected_def Let_def)
next
  case (visited job r x)
  with visit_limited [OF assms(1) _ visited(2)] assms(3) show ?thesis by (simp add: executor_of_def)
next
  case (reconciled name namespace d co)
  with Reconcile_world [OF reconciled(2)] assms(3) show ?thesis by simp
next
  case (fired t co)
  with quiet_limited [OF cron_task_quiet [OF assms(1) fired(2)] assms(3)] show ?thesis by simp
next
  case (hooked router q a s)
  with quiet_limited [OF webhook_quiet [OF assms(1) hooked(2)] assms(3)] show ?thesis by simp
next
  case (requested mux random u b s)
  with quiet_limited [OF ui_quiet [OF assms(1) requested(2)] assms(3)] show ?thesis by simp
next
  case (discovered task s)
  with quiet_limited [OF discovery_task_quiet [OF assms(1) discovered(3)] assms(3)] show ?thesis by simp
next
  case (others w)
  have "limited_at k (view E w)" for k
  proof (cases "view E w k = None")
    case True
    then show ?thesis by (simp add: limited_at_def tidy_def view_projects_def slots_def)
  next
    case False
    with others(2) [of k] have "quiet_at k (sview E (pr_sys p)) (view E w)" by blast
    moreover have "limited_at k (sview E (pr_sys p))" using assms(3) by (simp only: limited_iff)
    ultimately show ?thesis by (rule quiet_at_limited)
  qed
  with others show ?thesis by (simp add: limited_iff)
qed

lemma setup_sys:
  "main_setup K clients OL A random getenv version w c = Inr p \<Longrightarrow> syWorld (pr_sys p) = w"
  by (auto simp: main_setup_Inr made_process_def initial_sys_def NewScheduler_def SetupWithManager_def Let_def)


lemma memory_surroundings: "surroundings (=) memory_env"
proof -
  have "getDiscoveredProjectsFromJobLogs memory_env job s \<noteq> Inr projects" for job s projects
    by (simp add: getDiscoveredProjectsFromJobLogs_def getLatestSuccessfulPodLog_def memory_env_def
        split: sum.split)
  then show ?thesis
    using memory_laws memory_retry interference_eq
    by (simp add: surroundings_def lists_once_def law_http_def law_object_def) (simp add: memory_env_def)
qed

lemma example_limited: "limited (view memory_env example_memory)"
  by (simp add: limited_def memory_view example_memory_def example_job_def example_project_def)


end
