(* ===== verification/Manager_Lock.thy ===== *)
theory Manager_Lock
  imports Memory_Server
begin

text \<open>
  The lock of the manager, \<open>globalManagerLock\<close> of \<open>src/src/internal/crdManager/renovateJobManager.go\<close>: every
  operation of the manager runs between a \<open>Lock\<close> or \<open>RLock\<close> and the deferred unlock. Elsewhere an
  operation is one step; here it is a sequence of reads and writes, other goroutines act between
  any two of them, and it is shown that the lock makes every execution one of whole operations.
\<close>

section \<open>Operations in small steps\<close>

text \<open>
  An operation either is done, or acts on the state once and goes on as what it saw tells it.
  \<open>run\<close> is the operation with nothing in between.
\<close>

datatype ('s, 'r) code = Done 'r | Act "'s \<Rightarrow> 's" "'s \<Rightarrow> ('s, 'r) code"

primrec run :: "('s, 'r) code \<Rightarrow> 's \<Rightarrow> 'r \<times> 's" where
  "run (Done r) = (\<lambda>s. (r, s))"
| "run (Act f k) = (\<lambda>s. run (k s) (f s))"

primrec reads :: "('s, 'r) code \<Rightarrow> bool" where
  "reads (Done r) = True"
| "reads (Act f k) = (\<forall>s. f s = s \<and> reads (k s))"

text \<open>A goroutine waits for the lock, in reading mode or not, holds it, or has its result.\<close>

datatype ('s, 'r) thread = Waiting bool "('s, 'r) code" | Holding bool "('s, 'r) code" | Returned 'r

inductive lock_step ::
    "(bool \<Rightarrow> 'm \<Rightarrow> 'm option) \<Rightarrow> (bool \<Rightarrow> 'm \<Rightarrow> 'm) \<Rightarrow>
     (nat \<Rightarrow> ('s, 'r) thread) \<times> 'm \<times> 's \<Rightarrow> (nat \<Rightarrow> ('s, 'r) thread) \<times> 'm \<times> 's \<Rightarrow> bool"
  for take give where
  acquires: "ts i = Waiting ro c \<Longrightarrow> take ro m = Some m' \<Longrightarrow>
    lock_step take give (ts, m, s) (ts(i := Holding ro c), m', s)"
| works: "ts i = Holding ro (Act f k) \<Longrightarrow>
    lock_step take give (ts, m, s) (ts(i := Holding ro (k s)), m, f s)"
| releases: "ts i = Holding ro (Done r) \<Longrightarrow>
    lock_step take give (ts, m, s) (ts(i := Returned r), give ro m, s)"

text \<open>The same goroutines, each of which runs as a whole.\<close>

inductive whole_step ::
    "(nat \<Rightarrow> ('s, 'r) thread) \<times> 's \<Rightarrow> (nat \<Rightarrow> ('s, 'r) thread) \<times> 's \<Rightarrow> bool" where
  runs: "ts i = Waiting ro c \<Longrightarrow> run c s = (r, s') \<Longrightarrow> whole_step (ts, s) (ts(i := Returned r), s')"

section \<open>Every execution ends\<close>

text \<open>A step moves one goroutine on, and none can move on for ever.\<close>

inductive thread_next :: "('s, 'r) thread \<Rightarrow> ('s, 'r) thread \<Rightarrow> bool" where
  "thread_next (Holding ro c) (Waiting ro c)"
| "thread_next (Holding ro (k s)) (Holding ro (Act f k))"
| "thread_next (Returned r) (Holding ro (Done r))"

inductive_cases thread_next_cases:
  "thread_next t (Returned r)" "thread_next t (Holding ro (Done r))"
  "thread_next t (Holding ro (Act f k))" "thread_next t (Waiting ro c)"

lemma wf_thread_next: "wf {(t', t :: ('s, 'r) thread). thread_next t' t}"
proof -
  have r: "Wellfounded.accp thread_next (Returned r)" for r :: 'r
    by (rule accp.accI) (erule thread_next_cases)
  have h: "Wellfounded.accp thread_next (Holding ro c)" for ro and c :: "('s, 'r) code"
  proof (induction c)
    case (Done q)
    show ?case by (rule accp.accI) (auto elim: thread_next_cases intro: r)
  next
    case (Act f k)
    show ?case by (rule accp.accI) (auto elim: thread_next_cases intro: Act)
  qed
  have "Wellfounded.accp thread_next t" for t :: "('s, 'r) thread"
  proof (cases t)
    case (Waiting ro c)
    show ?thesis unfolding Waiting by (rule accp.accI) (auto elim: thread_next_cases intro: h)
  qed (simp_all add: r h)
  then show ?thesis by (simp add: wfp_def [symmetric] wfp_iff_accp)
qed

lemma lock_step_next:
  assumes "lock_step acq rel (ts, m, s) (ts', m', s')"
  shows "\<exists>i t. ts' = ts(i := t) \<and> thread_next t (ts i)"
  using assms
proof cases
  case (acquires i ro c)
  then show ?thesis by (intro exI [of _ i] exI [of _ "Holding ro c"]) (simp add: thread_next.intros(1))
next
  case (works i ro f k)
  then show ?thesis by (intro exI [of _ i] exI [of _ "Holding ro (k s)"]) (simp add: thread_next.intros(2))
next
  case (releases i ro r)
  then show ?thesis by (intro exI [of _ i] exI [of _ "Returned r"]) (simp add: thread_next.intros(3))
qed

lemma lock_step_decreases:
  assumes "lock_step acq rel (ts, m, s) (ts', m', s')" and "\<forall>i\<ge>k. \<exists>r. ts i = Returned r"
  shows "(map ts' [0..<k], map ts [0..<k]) \<in> lex {(t', t). thread_next t' t}"
    and "\<forall>i\<ge>k. \<exists>r. ts' i = Returned r"
proof -
  from lock_step_next [OF assms(1)] obtain i t where t: "ts' = ts(i := t)" "thread_next t (ts i)" by blast
  have i: "i < k"
  proof (rule ccontr)
    assume "\<not> i < k"
    with assms(2) obtain r where "ts i = Returned r" by (metis not_less)
    with t(2) show False by (auto elim: thread_next_cases)
  qed
  have "[0..<k] = [0..<i] @ i # [Suc i..<k]"
    using i upt_add_eq_append [of 0 i "k - i"] by (simp add: upt_conv_Cons)
  then have "map ts' [0..<k] = map ts [0..<i] @ t # map ts [Suc i..<k]"
    "map ts [0..<k] = map ts [0..<i] @ ts i # map ts [Suc i..<k]" using t(1) by simp_all
  with t(2) show "(map ts' [0..<k], map ts [0..<k]) \<in> lex {(t', t). thread_next t' t}"
    unfolding lex_conv mem_Collect_eq case_prod_conv length_map by (metis case_prodI mem_Collect_eq)
  show "\<forall>i\<ge>k. \<exists>r. ts' i = Returned r" using assms(2) i t(1) by simp
qed

lemma lock_steps_end:
  assumes "\<forall>i\<ge>k. \<exists>r. fst (f 0) i = Returned r"
  shows "\<exists>n. \<not> lock_step acq rel (f n) (f (Suc n))"
proof (rule ccontr)
  assume all: "\<not> ?thesis"
  have step: "lock_step acq rel (fst (f n), fst (snd (f n)), snd (snd (f n)))
    (fst (f (Suc n)), fst (snd (f (Suc n))), snd (snd (f (Suc n))))" for n using all by simp
  have later: "\<forall>i\<ge>k. \<exists>r. fst (f n) i = Returned r" for n
    by (induction n) (use assms lock_step_decreases(2) [OF step] in blast)+
  have down: "(map (fst (f (Suc n))) [0..<k], map (fst (f n)) [0..<k]) \<in> lex {(t', t). thread_next t' t}" for n
    by (rule lock_step_decreases(1) [OF step later])
  show False
    by (rule notE [OF wf_lex [OF wf_thread_next, unfolded wf_iff_no_infinite_down_chain]])
      (rule exI [of _ "\<lambda>n. map (fst (f n)) [0..<k]"], rule allI, rule down)
qed

text \<open>A goroutine that holds the lock may run to its end on its own.\<close>

lemma held_runs:
  assumes "ts i = Holding ro c"
  shows "(lock_step acq rel)\<^sup>*\<^sup>* (ts, m, s) (ts(i := Returned (fst (run c s))), rel ro m, snd (run c s))"
  using assms
proof (induction c arbitrary: ts s)
  case (Done r)
  then have "lock_step acq rel (ts, m, s) (ts(i := Returned r), rel ro m, s)" by (rule releases)
  then have "(lock_step acq rel)\<^sup>*\<^sup>* (ts, m, s) (ts(i := Returned r), rel ro m, s)" by (rule r_into_rtranclp)
  then show ?case by (simp only: run.simps fst_conv snd_conv)
next
  case (Act f k)
  from Act.IH [of "k s" "ts(i := Holding ro (k s))" "f s"]
  have "(lock_step acq rel)\<^sup>*\<^sup>* (ts(i := Holding ro (k s)), m, f s)
    (ts(i := Returned (fst (run (k s) (f s)))), rel ro m, snd (run (k s) (f s)))" by (simp only: rangeI fun_upd_same fun_upd_upd simp_thms)
  with works [where ts = ts and i = i and give = rel and take = acq, OF Act.prems] show ?case
    by (simp only: run.simps) (rule converse_rtranclp_into_rtranclp)
qed

section \<open>The contract of a lock\<close>

text \<open>
  What a lock promises, seen through the numbers of its holders in reading and in writing mode:
  a writer holds it alone, a reader only among readers, and whoever asks for a free lock gets it.
\<close>

locale rw_lock =
  fixes take :: "bool \<Rightarrow> 'm \<Rightarrow> 'm option"
    and give :: "bool \<Rightarrow> 'm \<Rightarrow> 'm"
    and readers :: "'m \<Rightarrow> nat"
    and writers :: "'m \<Rightarrow> nat"
  assumes take_reader: "take True m = Some m' \<Longrightarrow>
      writers m = 0 \<and> readers m' = Suc (readers m) \<and> writers m' = 0"
    and take_writer: "take False m = Some m' \<Longrightarrow>
      writers m = 0 \<and> readers m = 0 \<and> readers m' = 0 \<and> writers m' = 1"
    and give_reader: "readers m = Suc n \<Longrightarrow> readers (give True m) = n \<and> writers (give True m) = writers m"
    and give_writer: "writers m = 1 \<Longrightarrow> writers (give False m) = 0 \<and> readers (give False m) = readers m"
    and take_free: "readers m = 0 \<Longrightarrow> writers m = 0 \<Longrightarrow> \<exists>m'. take ro m = Some m'"
begin

definition holders :: "bool \<Rightarrow> (nat \<Rightarrow> ('s, 'r) thread) \<Rightarrow> nat set" where
  "holders ro ts = {i. \<exists>c. ts i = Holding ro c}"

definition counted :: "(nat \<Rightarrow> ('s, 'r) thread) \<Rightarrow> 'm \<Rightarrow> bool" where
  "counted ts m \<longleftrightarrow> finite (holders True ts) \<and> finite (holders False ts) \<and>
     card (holders True ts) = readers m \<and> card (holders False ts) = writers m \<and>
     writers m \<le> 1 \<and> (writers m = 1 \<longrightarrow> readers m = 0)"

lemma holders_upd:
  "holders ro (ts(i := Holding ro' c)) = (if ro = ro' then insert i (holders ro ts) else holders ro ts - {i})"
  "holders ro (ts(i := Returned r)) = holders ro ts - {i}"
  by (auto simp: holders_def)

lemma counted_acquire:
  assumes "counted ts m" and "ts i = Waiting ro c" and "take ro m = Some m'"
  shows "counted (ts(i := Holding ro c)) m'"
proof -
  have "i \<notin> holders True ts" "i \<notin> holders False ts" using assms(2) by (simp_all add: holders_def)
  then show ?thesis
    using assms(1,3) take_reader [of m m'] take_writer [of m m']
    by (cases ro) (simp_all add: counted_def holders_upd)
qed

lemma counted_work:
  assumes "counted ts m" and "ts i = Holding ro c"
  shows "counted (ts(i := Holding ro c')) m"
proof -
  have "holders ro' (ts(i := Holding ro c')) = holders ro' ts" for ro'
    using assms(2) by (auto simp: holders_def)
  with assms(1) show ?thesis by (simp add: counted_def)
qed

lemma counted_release:
  assumes "counted ts m" and "ts i = Holding ro c"
  shows "counted (ts(i := Returned r)) (give ro m)"
proof -
  have here: "i \<in> holders ro ts" and there: "i \<notin> holders (\<not> ro) ts" using assms(2) by (auto simp: holders_def)
  then have pos: "0 < card (holders ro ts)" using assms(1) by (cases ro) (auto simp: counted_def card_gt_0_iff)
  show ?thesis
  proof (cases ro)
    case True
    with pos assms(1) obtain n where "readers m = Suc n" by (auto simp: counted_def gr0_conv_Suc)
    with give_reader [OF this] assms(1) here there True show ?thesis
      by (auto simp: counted_def holders_upd)
  next
    case False
    with pos assms(1) have "writers m = 1" by (auto simp: counted_def)
    with give_writer [OF this] assms(1) here there False show ?thesis
      by (auto simp: counted_def holders_upd)
  qed
qed

text \<open>A writer is alone.\<close>

lemma writer_alone:
  assumes "counted ts m" and "ts i = Holding False c" and "ts j = Holding ro d"
  shows "i = j"
proof -
  have "i \<in> holders False ts" using assms(2) by (auto simp: holders_def)
  with assms(1) have "writers m = 1" "holders True ts = {}" "card (holders False ts) = 1"
    by (auto simp: counted_def card_gt_0_iff) (metis One_nat_def Suc_leI card_gt_0_iff empty_iff le_antisym)+
  moreover have "j \<in> holders ro ts" using assms(3) by (auto simp: holders_def)
  ultimately show ?thesis using \<open>i \<in> holders False ts\<close> by (cases ro) (auto simp: card_1_singleton_iff)
qed

text \<open>
  The state of the goroutines and the one in which each runs as a whole: who holds the lock has not run yet
  there, and would from here end as it does there; without a writer both have the same store.
\<close>

definition thread_sim :: "'s \<Rightarrow> 's \<Rightarrow> ('s, 'r) thread \<Rightarrow> ('s, 'r) thread \<Rightarrow> bool" where
  "thread_sim s sa t ta = (case t of
     Waiting ro c \<Rightarrow> ta = Waiting ro c \<and> (ro \<longrightarrow> reads c)
   | Holding ro c \<Rightarrow> (\<exists>c0. ta = Waiting ro c0 \<and> run c0 sa = run c s \<and> (ro \<longrightarrow> reads c))
   | Returned r \<Rightarrow> ta = Returned r)"

definition sim ::
    "(nat \<Rightarrow> ('s, 'r) thread) \<times> 'm \<times> 's \<Rightarrow> (nat \<Rightarrow> ('s, 'r) thread) \<times> 's \<Rightarrow> bool" where
  "sim = (\<lambda>(ts, m, s) (ta, sa). counted ts m \<and> (\<forall>i. thread_sim s sa (ts i) (ta i)) \<and> (writers m = 0 \<longrightarrow> sa = s))"

lemma sim_upd:
  assumes "\<forall>i. thread_sim s sa (ts i) (ta i)" and "thread_sim s' sa' t ta'"
    and "\<And>j. j \<noteq> i \<Longrightarrow> thread_sim s sa (ts j) (ta j) \<Longrightarrow> thread_sim s' sa' (ts j) (ta j)"
  shows "\<forall>j. thread_sim s' sa' ((ts(i := t)) j) ((ta(i := ta')) j)"
  using assms by simp

lemma thread_sim_idle:
  assumes "\<And>ro c. t \<noteq> Holding ro c" and "thread_sim s sa t ta"
  shows "thread_sim s' sa' t ta"
proof (cases t)
  case (Holding ro c)
  with assms(1) show ?thesis by blast
qed (use assms(2) in \<open>simp_all add: thread_sim_def\<close>)

lemma sim_acquire:
  assumes "sim (ts, m, s) (ta, sa)" and "ts i = Waiting ro c" and "take ro m = Some m'"
  shows "sim (ts(i := Holding ro c), m', s) (ta, sa)"
proof -
  have s: "sa = s" using assms(1,3) take_reader [of m m'] take_writer [of m m'] by (cases ro) (auto simp: sim_def)
  have t: "ta i = Waiting ro c" "ro \<longrightarrow> reads c"
    using assms(1,2) by (auto simp: sim_def thread_sim_def split: thread.splits dest: spec [of _ i])
  have "\<forall>j. thread_sim s sa ((ts(i := Holding ro c)) j) ((ta(i := ta i)) j)"
    using assms(1) t s by (intro sim_upd [where s = s and sa = sa]) (auto simp: sim_def thread_sim_def)
  moreover have "counted (ts(i := Holding ro c)) m'"
    using counted_acquire [where ts = ts and i = i, OF _ assms(2,3)] assms(1) by (simp add: sim_def)
  ultimately show ?thesis using s by (simp add: sim_def)
qed

lemma sim_work:
  assumes "sim (ts, m, s) (ta, sa)" and "ts i = Holding ro (Act f k)"
  shows "sim (ts(i := Holding ro (k s)), m, f s) (ta, sa)"
proof -
  have c: "counted ts m" and all: "\<forall>j. thread_sim s sa (ts j) (ta j)" and same: "writers m = 0 \<longrightarrow> sa = s"
    using assms(1) by (simp_all add: sim_def)
  from all [THEN spec, of i] assms(2) obtain c0 where t: "ta i = Waiting ro c0"
    and r: "run c0 sa = run (k s) (f s)" and ro: "ro \<longrightarrow> f s = s \<and> reads (k s)"
    by (auto simp: thread_sim_def)
  have others: "thread_sim (f s) sa (ts j) (ta j)" if "j \<noteq> i" "thread_sim s sa (ts j) (ta j)" for j
  proof (cases ro)
    case True
    with ro that show ?thesis by simp
  next
    case False
    with writer_alone [OF c] assms(2) that(1) have "ts j \<noteq> Holding ro' d" for ro' d by metis
    with thread_sim_idle that(2) show ?thesis by metis
  qed
  have "\<forall>j. thread_sim (f s) sa ((ts(i := Holding ro (k s))) j) ((ta(i := ta i)) j)"
    using all by (rule sim_upd) (use t r ro others in \<open>auto simp: thread_sim_def\<close>)
  moreover have "sa = f s" if w: "writers m = 0"
  proof -
    have "ro"
    proof (rule ccontr)
      assume "\<not> ro"
      with assms(2) c w show False by (auto simp: counted_def holders_def)
    qed
    with ro same w show ?thesis by simp
  qed
  ultimately show ?thesis using counted_work [OF c assms(2)] by (simp add: sim_def)
qed

lemma sim_release:
  assumes "sim (ts, m, s) (ta, sa)" and "ts i = Holding ro (Done r)"
  shows "whole_step (ta, sa) (ta(i := Returned r), s)"
    and "sim (ts(i := Returned r), give ro m, s) (ta(i := Returned r), s)"
proof -
  have c: "counted ts m" and all: "\<forall>j. thread_sim s sa (ts j) (ta j)" and same: "writers m = 0 \<longrightarrow> sa = s"
    using assms(1) by (simp_all add: sim_def)
  from all [THEN spec, of i] assms(2) obtain c0 where t: "ta i = Waiting ro c0" "run c0 sa = (r, s)"
    by (auto simp: thread_sim_def)
  then show "whole_step (ta, sa) (ta(i := Returned r), s)" by (rule runs)
  have others: "thread_sim s s (ts j) (ta j)" if "j \<noteq> i" "thread_sim s sa (ts j) (ta j)" for j
  proof (cases "writers m = 0")
    case True
    with same that show ?thesis by simp
  next
    case False
    with c have "holders False ts \<noteq> {}" by (auto simp: counted_def)
    then obtain w d where w: "ts w = Holding False d" by (auto simp: holders_def)
    with writer_alone [OF c w assms(2)] writer_alone [OF c w] that(1)
    have "ts j \<noteq> Holding ro' e" for ro' e by metis
    with thread_sim_idle that(2) show ?thesis by metis
  qed
  have "\<forall>j. thread_sim s s ((ts(i := Returned r)) j) ((ta(i := Returned r)) j)"
    using all by (rule sim_upd) (use others in \<open>auto simp: thread_sim_def\<close>)
  with counted_release [OF c assms(2)] show "sim (ts(i := Returned r), give ro m, s) (ta(i := Returned r), s)"
    by (simp add: sim_def)
qed

lemma sim_step:
  assumes "lock_step take give x x'" and "sim x a"
  shows "\<exists>a'. whole_step\<^sup>*\<^sup>* a a' \<and> sim x' a'"
  using assms(1)
proof cases
  case (acquires ts i ro c m m' s)
  with assms(2) sim_acquire [of ts m s "fst a" "snd a" i ro c m'] show ?thesis by (intro exI [of _ a]) simp
next
  case (works ts i ro f k m s)
  with assms(2) sim_work [of ts m s "fst a" "snd a" i ro f k] show ?thesis by (intro exI [of _ a]) simp
next
  case (releases ts i ro r m s)
  with assms(2) sim_release [of ts m s "fst a" "snd a" i ro r] show ?thesis
    by (intro exI [of _ "((fst a)(i := Returned r), s)"]) (simp add: r_into_rtranclp)
qed

lemma sim_steps:
  assumes "(lock_step take give)\<^sup>*\<^sup>* x x'" and "sim x a"
  shows "\<exists>a'. whole_step\<^sup>*\<^sup>* a a' \<and> sim x' a'"
  using assms
proof (induction rule: rtranclp_induct)
  case base
  then show ?case by blast
next
  case (step y z)
  from step.IH [OF step.prems] obtain a1 where a1: "whole_step\<^sup>*\<^sup>* a a1" "sim y a1" by blast
  from sim_step [OF step.hyps(2) a1(2)] obtain a2 where "whole_step\<^sup>*\<^sup>* a1 a2" "sim z a2" by blast
  with rtranclp_trans [OF a1(1) this(1)] show ?case by (intro exI [of _ a2]) simp
qed

lemma sim_start:
  assumes "readers m = 0" and "writers m = 0"
    and "\<forall>i. (\<exists>ro c. ts i = Waiting ro c \<and> (ro \<longrightarrow> reads c)) \<or> (\<exists>r. ts i = Returned r)"
  shows "sim (ts, m, s) (ts, s)"
proof -
  have "ts i \<noteq> Holding ro c" for i ro c using assms(3) [THEN spec, of i] by auto
  then have "holders ro ts = {}" for ro by (simp add: holders_def)
  moreover have "thread_sim s s (ts i) (ts i)" for i
    using assms(3) [THEN spec, of i] by (auto simp: thread_sim_def)
  ultimately show ?thesis using assms(1,2) by (simp add: sim_def counted_def)
qed

text \<open>Nobody waits for ever for a lock that nobody holds.\<close>

lemma counted_progress:
  assumes "counted ts m" and "\<And>r. ts i \<noteq> Returned r"
  shows "\<exists>x. lock_step take give (ts, m, s) x"
proof (cases "holders True ts \<union> holders False ts = {}")
  case True
  then have free: "readers m = 0" "writers m = 0" using assms(1) by (simp_all add: counted_def)
  show ?thesis
  proof (cases "ts i")
    case (Waiting ro c)
    from take_free [OF free] obtain m' where "take ro m = Some m'" by blast
    from acquires [where ts = ts and i = i and m = m and take = take and give = give, OF Waiting this] show ?thesis by blast
  next
    case (Holding ro c)
    then have "i \<in> holders ro ts" by (auto simp: holders_def)
    with True show ?thesis by (cases ro) auto
  next
    case (Returned r)
    with assms(2) show ?thesis by blast
  qed
next
  case False
  then obtain j ro c where h: "ts j = Holding ro c" by (auto simp: holders_def)
  show ?thesis
  proof (cases c)
    case (Done r)
    from releases [where ts = ts and i = j and m = m and take = take and give = give, OF h [unfolded Done]] show ?thesis by blast
  next
    case (Act f k)
    from works [where ts = ts and i = j and m = m and take = take and give = give, OF h [unfolded Act]] show ?thesis by blast
  qed
qed

lemma all_or_next:
  assumes "(lock_step take give)\<^sup>*\<^sup>* (ts0, m0, s0) (ts, m, s)" and "sim (ts0, m0, s0) (ts0, s0)"
  shows "(\<exists>x. lock_step take give (ts, m, s) x) \<or> whole_step\<^sup>*\<^sup>* (ts0, s0) (ts, s)"
proof -
  from sim_steps [OF assms] obtain ta sa where a: "whole_step\<^sup>*\<^sup>* (ts0, s0) (ta, sa)" "sim (ts, m, s) (ta, sa)" by auto
  then have c: "counted ts m" by (simp add: sim_def)
  show ?thesis
  proof (cases "\<forall>i. \<exists>r. ts i = Returned r")
    case True
    have "ts i \<noteq> Holding ro c" for i ro c using True [THEN spec, of i] by auto
    then have none: "holders ro ts = {}" for ro by (simp add: holders_def)
    with c have "writers m = 0" by (simp add: counted_def)
    moreover have "ta = ts"
    proof (rule ext)
      fix i
      from True obtain r where "ts i = Returned r" by blast
      moreover from a(2) have "thread_sim s sa (ts i) (ta i)" by (simp add: sim_def)
      ultimately show "ta i = ts i" by (simp add: thread_sim_def)
    qed
    ultimately show ?thesis using a by (simp add: sim_def)
  next
    case False
    with counted_progress [OF c] show ?thesis by blast
  qed
qed

end

section \<open>The lock of the manager\<close>

text \<open>
  \<open>sync.RWMutex\<close>, as the standard library describes it: any number of readers or one writer. That
  a waiting writer keeps new readers out concerns only the order in which they get the lock.
\<close>

record rw_mutex =
  rwReaders :: nat
  rwWriter :: bool

definition new_manager_lock :: rw_mutex where
  "new_manager_lock = \<lparr>rwReaders = 0, rwWriter = False\<rparr>"

text \<open>\<open>globalManagerLock\<close>, where \<open>None\<close> is a call that blocks, and the function it returns.\<close>

definition globalManagerLock :: "bool \<Rightarrow> rw_mutex \<Rightarrow> rw_mutex option" where
  "globalManagerLock readonly m =
     (if readonly
      then if rwWriter m then None else Some (m\<lparr>rwReaders := rwReaders m + 1\<rparr>)
      else if rwWriter m \<or> 0 < rwReaders m then None else Some (m\<lparr>rwWriter := True\<rparr>))"

definition manager_unlock :: "bool \<Rightarrow> rw_mutex \<Rightarrow> rw_mutex" where
  "manager_unlock readonly m =
     (if readonly then m\<lparr>rwReaders := rwReaders m - 1\<rparr> else m\<lparr>rwWriter := False\<rparr>)"

interpretation manager: rw_lock globalManagerLock manager_unlock rwReaders "\<lambda>m. if rwWriter m then 1 else 0"
  by unfold_locales (auto simp: globalManagerLock_def manager_unlock_def split: if_splits)

section \<open>The operations of the manager\<close>

primrec seq :: "('s, 'a) code \<Rightarrow> ('a \<Rightarrow> ('s, 'b) code) \<Rightarrow> ('s, 'b) code" where
  "seq (Done r) k = k r"
| "seq (Act f c) k = Act f (\<lambda>s. seq (c s) k)"

lemma run_seq [simp]: "run (seq c k) s = (case run c s of (r, s) \<Rightarrow> run (k r) s)"
  by (induction c arbitrary: s) simp_all

text \<open>The calls of a writing closure: the load, its change of the metrics, the update, the reload.\<close>

definition save_code :: "'w env \<Rightarrow> renovate_job \<Rightarrow> ('w sys, go_error option) code" where
  "save_code E rj =
     Act (\<lambda>s. snd (kube_write (eUpdateStatus E rj) (StatusUpdated rj) s))
       (\<lambda>s. case fst (kube_write (eUpdateStatus E rj) (StatusUpdated rj) s) of
          Some e \<Rightarrow> Done (Some e)
        | None \<Rightarrow> Act id (\<lambda>s. Done (case reloadRenovateJob E rj s of Inl e \<Rightarrow> Some e | Inr _ \<Rightarrow> None)))"

definition closure_code ::
    "'w env \<Rightarrow> renovate_job_identifier \<Rightarrow> (renovate_job \<Rightarrow> metric_op list \<Rightarrow> metric_op list) \<Rightarrow>
     (time \<Rightarrow> renovate_job \<Rightarrow> renovate_job option) \<Rightarrow> ('w sys, go_error option) code" where
  "closure_code E job metrics change =
     Act id (\<lambda>s. case loadRenovateJob E (riName job) (riNamespace job) s of
       Inl err \<Rightarrow> Done (Some err)
     | Inr rj \<Rightarrow>
         (case change (eNow E (syWorld s)) rj of
            None \<Rightarrow> Done None
          | Some rj' \<Rightarrow> Act (\<lambda>s. s\<lparr>syMetrics := metrics rj (syMetrics s)\<rparr>) (\<lambda>s. save_code E rj')))"

lemma run_save_code: "run (save_code E rj) s = save_status E rj s"
  by (simp add: save_code_def save_status_def updateRenovateJobStatus_def split: prod.split option.split sum.split)

lemma run_closure_code:
  "run (closure_code E job metrics change) s =
     (case loadRenovateJob E (riName job) (riNamespace job) s of
        Inl err \<Rightarrow> (Some err, s)
      | Inr rj \<Rightarrow>
          (case change (eNow E (syWorld s)) rj of
             None \<Rightarrow> (None, s)
           | Some rj' \<Rightarrow> save_status E rj' (s\<lparr>syMetrics := metrics rj (syMetrics s)\<rparr>)))"
  by (simp add: closure_code_def run_save_code split: sum.split option.split)

text \<open>
  \<open>retry.RetryOnConflict\<close>: after the first attempt further ones, a pause before each, as long as the
  server reports a conflict; \<open>ds\<close> are the pauses of its backoff. The lock is held throughout.
\<close>

primrec go_retry ::
    "time list \<Rightarrow> 'w env \<Rightarrow> ('w sys \<Rightarrow> go_error option \<times> 'w sys) \<Rightarrow> 'w sys \<Rightarrow> go_error option \<times> 'w sys" where
  "go_retry [] E f s = f s"
| "go_retry (d # ds) E f s =
     (case f s of
        (Some e, s) \<Rightarrow>
          if is_conflict e then go_retry ds E f (s\<lparr>syWorld := eSleep E d (syWorld s)\<rparr>) else (Some e, s)
      | (None, s) \<Rightarrow> (None, s))"

primrec retry_code ::
    "time list \<Rightarrow> 'w env \<Rightarrow> ('w sys, go_error option) code \<Rightarrow> ('w sys, go_error option) code" where
  "retry_code [] E c = c"
| "retry_code (d # ds) E c = seq c (\<lambda>r. case r of
     Some e \<Rightarrow> if is_conflict e
       then Act (\<lambda>s. s\<lparr>syWorld := eSleep E d (syWorld s)\<rparr>) (\<lambda>s. retry_code ds E c) else Done r
   | None \<Rightarrow> Done r)"

lemma run_retry_code: "run (retry_code ds E c) s = go_retry ds E (run c) s"
  by (induction ds arbitrary: s) (simp_all split: prod.split option.split)

datatype manager_op =
    GetOp string string
  | ListOp
  | ListFullOp
  | ProjectsOp renovate_job_identifier
  | ByStatusOp renovate_job_identifier renovate_project_status
  | LogsOp renovate_job_identifier string
  | TokenOp renovate_job_identifier string
  | SignatureOp renovate_job_identifier string string
  | StatusOp string renovate_job_identifier renovate_status_update
  | BatchedOp "project_status \<Rightarrow> bool" renovate_job_identifier renovate_status_update
  | ReconcileOp renovate_job_identifier "string list"
  | ConfigOp string renovate_job_identifier "string option"
  | OptionsOp renovate_job_identifier "renovate_execution_options option"

datatype op_result =
    Loaded "go_error + renovate_job"
  | Listed "go_error + renovate_job_identifier list"
  | ListedFull "go_error + renovate_job list"
  | Projects "go_error + renovate_project_info list"
  | Logs "string \<times> go_error option"
  | Checked "(go_error + bool) go_run"
  | Wrote "go_error option"

fun op_reads :: "manager_op \<Rightarrow> bool" where
  "op_reads (StatusOp _ _ _) = False"
| "op_reads (BatchedOp _ _ _) = False"
| "op_reads (ReconcileOp _ _) = False"
| "op_reads (ConfigOp _ _ _) = False"
| "op_reads (OptionsOp _ _) = False"
| "op_reads _ = True"

text \<open>An operation as one step: the definitions of \<open>Renovate_Manager\<close>.\<close>

fun op_whole :: "'w env \<Rightarrow> manager_op \<Rightarrow> 'w sys \<Rightarrow> op_result \<times> 'w sys" where
  "op_whole E (GetOp n ns) s = (Loaded (GetRenovateJob E n ns s), s)"
| "op_whole E ListOp s = (Listed (ListRenovateJobs E s), s)"
| "op_whole E ListFullOp s = (ListedFull (ListRenovateJobsFull E s), s)"
| "op_whole E (ProjectsOp job) s = (Projects (GetProjectsForRenovateJob E job s), s)"
| "op_whole E (ByStatusOp job st) s = (Projects (GetProjectsByStatus E job st s), s)"
| "op_whole E (LogsOp job p) s = (Logs (GetLogsForProject E job p s), s)"
| "op_whole E (TokenOp job token) s = (Checked (IsWebhookTokenValid E job token s), s)"
| "op_whole E (SignatureOp job sig body) s = (Checked (IsWebhookSignatureValid E job sig body s), s)"
| "op_whole E (StatusOp p job u) s = apfst Wrote (UpdateProjectStatus E p job u s)"
| "op_whole E (BatchedOp fn job u) s = apfst Wrote (UpdateProjectStatusBatched E fn job u s)"
| "op_whole E (ReconcileOp job ps) s = apfst Wrote (ReconcileProjects E job ps s)"
| "op_whole E (ConfigOp p job st) s = apfst Wrote (UpdateProjectConfigStatus E p job st s)"
| "op_whole E (OptionsOp job x) s = apfst Wrote (UpdateExecutionOptions E job x s)"

text \<open>The same operation as the calls it makes.\<close>

fun write_code ::
    "'w env \<Rightarrow> manager_op \<Rightarrow> ('w sys, go_error option) code" where
  "write_code E (StatusOp p job u) = closure_code E job (\<lambda>rj. id)
     (\<lambda>now rj. Some (set_projects rj (upsert_project now p u (projects_of rj))))"
| "write_code E (BatchedOp fn job u) = closure_code E job (\<lambda>rj. id)
     (\<lambda>now rj. Some (set_projects rj (update_projects now fn u (projects_of rj))))"
| "write_code E (ReconcileOp job ps) = closure_code E job
     (\<lambda>rj. fold (DeleteProjectMetrics (riNamespace job) (riName job)) (removed_projects (projects_of rj) ps))
     (\<lambda>now rj. Some (set_projects rj (reconcile_projects now ps (projects_of rj))))"
| "write_code E (ConfigOp p job st) = closure_code E job (\<lambda>rj. id)
     (\<lambda>now rj. map_option (\<lambda>i. set_projects rj ((projects_of rj)
        [i := (projects_of rj ! i)\<lparr>psRenovateResultStatus := st\<rparr>]))
        (find_index (\<lambda>q. psName q = p) (projects_of rj)))"
| "write_code E (OptionsOp job x) = closure_code E job (\<lambda>rj. id)
     (\<lambda>now rj. Some (rj\<lparr>rjStatus := (rjStatus rj)\<lparr>rsExecutionOptions := x\<rparr>\<rparr>))"
| "write_code E _ = Done None"

text \<open>What the reading operations return is computed from the answers of one or several requests.\<close>

definition logs_code :: "'w env \<Rightarrow> renovate_job_identifier \<Rightarrow> string \<Rightarrow> ('w sys, string \<times> go_error option) code" where
  "logs_code E job project =
     Act id (\<lambda>s. case loadRenovateJob E (riName job) (riNamespace job) s of
       Inl err \<Rightarrow> Done (''failed to load renovate job'', Some err)
     | Inr rj \<Rightarrow> Act id (\<lambda>s.
         case GetJobByLabel E \<lparr>seJobName = ExecutorJobName rj project, seJobType = ExecutorJobType,
             seNamespace = riNamespace job, seGeneration = None\<rparr> s of
           Inl err \<Rightarrow> Done (''failed to get job'', Some err)
         | Inr executorJob \<Rightarrow> Act id (\<lambda>s. case eClientset E (syWorld s) of
             Some err \<Rightarrow> Done (''failed to create client'', Some err)
           | None \<Rightarrow> Act id (\<lambda>s. Done (case GetLastJobLog E executorJob s of
               Inl err \<Rightarrow> ([], Some err) | Inr logs \<Rightarrow> (logs, None))))))"

definition check_code ::
    "'w env \<Rightarrow> renovate_job_identifier \<Rightarrow> (string list \<Rightarrow> bool) \<Rightarrow> ('w sys, (go_error + bool) go_run) code" where
  "check_code E job ok =
     Act id (\<lambda>s. case loadRenovateJob E (riName job) (riNamespace job) s of
       Inl err \<Rightarrow> Done (Returns (Inl err))
     | Inr rj \<Rightarrow> Act id (\<lambda>s. Done (case webhook_tokens E rj s of
           Panics m \<Rightarrow> Panics m
         | Returns (Inl err) \<Rightarrow> Returns (Inl err)
         | Returns (Inr None) \<Rightarrow> Returns (Inr False)
         | Returns (Inr (Some tokens)) \<Rightarrow> Returns (Inr (ok tokens)))))"

fun read_code :: "'w env \<Rightarrow> manager_op \<Rightarrow> ('w sys, op_result) code" where
  "read_code E (LogsOp job p) = seq (logs_code E job p) (\<lambda>r. Done (Logs r))"
| "read_code E (TokenOp job token) =
     seq (check_code E job (\<lambda>tokens. token \<in> set tokens)) (\<lambda>r. Done (Checked r))"
| "read_code E (SignatureOp job sig body) =
     seq (check_code E job (list_ex (\<lambda>token. sig = computeHMAC256 body token))) (\<lambda>r. Done (Checked r))"
| "read_code E x = Act id (\<lambda>s. Done (fst (op_whole E x s)))"

definition op_code :: "time list \<Rightarrow> 'w env \<Rightarrow> manager_op \<Rightarrow> ('w sys, op_result) code" where
  "op_code ds E x =
     (if op_reads x then read_code E x
      else seq (retry_code ds E (write_code E x)) (\<lambda>r. Done (Wrote r)))"

lemma reads_seq: "reads c \<Longrightarrow> (\<And>r. reads (k r)) \<Longrightarrow> reads (seq c k)"
  by (induction c) simp_all

lemma reads_code: "reads (logs_code E job p)" "reads (check_code E job ok)"
  by (simp_all add: logs_code_def check_code_def split: sum.split option.split)

lemma op_reads_code: "op_reads x \<Longrightarrow> reads (op_code ds E x)"
  by (cases x) (simp_all add: op_code_def reads_seq reads_code)

lemma run_logs_code: "run (logs_code E job p) s = (GetLogsForProject E job p s, s)"
  by (simp add: logs_code_def GetLogsForProject_def split: sum.split option.split)

lemma run_check_code:
  "run (check_code E job (\<lambda>tokens. token \<in> set tokens)) s = (IsWebhookTokenValid E job token s, s)"
  "run (check_code E job (list_ex (\<lambda>token. sig = computeHMAC256 body token))) s =
     (IsWebhookSignatureValid E job sig body s, s)"
  by (simp_all add: check_code_def IsWebhookTokenValid_def IsWebhookSignatureValid_def split: sum.split)

lemma run_read_code: "op_reads x \<Longrightarrow> run (read_code E x) = op_whole E x"
  by (cases x) (simp_all add: fun_eq_iff run_logs_code run_check_code)

lemma run_write_code:
  "run (write_code E (StatusOp p job u)) = update_status_closure E p job u"
  "run (write_code E (BatchedOp fn job u)) = update_batched_closure E fn job u"
  "run (write_code E (ReconcileOp job ps)) = reconcile_closure E job ps"
  "run (write_code E (ConfigOp p job st)) = config_status_closure E p job st"
  "run (write_code E (OptionsOp job x)) = execution_options_closure E job x"
  by (simp_all add: fun_eq_iff run_closure_code update_status_closure_def update_batched_closure_def
      reconcile_closure_def config_status_closure_def execution_options_closure_def Let_def
      split: sum.split option.split)

lemma run_op_code:
  assumes "eRetryOnConflict E = go_retry ds E"
  shows "run (op_code ds E x) = op_whole E x"
proof -
  have "run (seq (retry_code ds E c) (\<lambda>r. Done (Wrote r))) s = apfst Wrote (eRetryOnConflict E (run c) s)"
    for c s by (simp add: run_retry_code assms split: prod.split)
  then show ?thesis
    by (cases x) (simp_all add: fun_eq_iff op_code_def run_read_code run_write_code UpdateProjectStatus_def
        UpdateProjectStatusBatched_def ReconcileProjects_def UpdateProjectConfigStatus_def
        UpdateExecutionOptions_def del: write_code.simps read_code.simps)
qed

section \<open>One after another\<close>

text \<open>The operations of a list, one after another: the result of each and the last state.\<close>

fun in_turn :: "(nat \<Rightarrow> 's \<Rightarrow> 'r \<times> 's) \<Rightarrow> nat list \<Rightarrow> 's \<Rightarrow> (nat \<times> 'r) list \<times> 's" where
  "in_turn f [] s = ([], s)"
| "in_turn f (i # js) s =
     (case f i s of (r, s) \<Rightarrow> (case in_turn f js s of (rs, s) \<Rightarrow> ((i, r) # rs, s)))"

lemma in_turn_snoc:
  "in_turn f js s = (rs, s1) \<Longrightarrow> f i s1 = (r, s2) \<Longrightarrow> in_turn f (js @ [i]) s = (rs @ [(i, r)], s2)"
  by (induction js arbitrary: s rs) (auto split: prod.splits)

lemma in_turn_ids: "map fst (fst (in_turn f js s)) = js"
  proof (induction js arbitrary: s)
  case (Cons i js)
  then show ?case by (simp split: prod.split) (metis fst_conv)
qed simp

text \<open>Goroutines that run as wholes run one after another.\<close>

lemma wholes_in_turn:
  assumes "whole_step\<^sup>*\<^sup>* (ts0, s0) x"
    and "\<And>i ro c. ts0 i = Waiting ro c \<Longrightarrow> run c = f i"
  shows "\<exists>js rs. in_turn f js s0 = (rs, snd x) \<and> distinct js \<and>
    (\<forall>i. if i \<in> set js then (\<exists>ro c. ts0 i = Waiting ro c) \<and> (\<exists>r. (i, r) \<in> set rs \<and> fst x i = Returned r)
      else fst x i = ts0 i)"
  using assms(1)
proof (induction rule: rtranclp_induct)
  case base
  show ?case by (intro exI [of _ "[]"]) simp
next
  case (step y z)
  then obtain js rs where turn: "in_turn f js s0 = (rs, snd y)" "distinct js"
    and all: "\<forall>i. if i \<in> set js then (\<exists>ro c. ts0 i = Waiting ro c) \<and>
        (\<exists>r. (i, r) \<in> set rs \<and> fst y i = Returned r) else fst y i = ts0 i" by blast
  from step.hyps(2) obtain j ro c r where j: "fst y j = Waiting ro c" "run c (snd y) = (r, snd z)"
    and z: "fst z = (fst y)(j := Returned r)" by (cases rule: whole_step.cases) auto
  have new: "j \<notin> set js" and w: "ts0 j = Waiting ro c"
    using all [THEN spec, of j] j(1) by (auto split: if_splits)
  from in_turn_snoc [OF turn(1)] j(2) assms(2) [OF w]
  have "in_turn f (js @ [j]) s0 = (rs @ [(j, r)], snd z)" by simp
  moreover have "distinct (js @ [j])" using turn(2) new by simp
  moreover have "if i \<in> set (js @ [j]) then (\<exists>ro c. ts0 i = Waiting ro c) \<and>
      (\<exists>q. (i, q) \<in> set (rs @ [(j, r)]) \<and> fst z i = Returned q) else fst z i = ts0 i" for i
    using all [THEN spec, of i] w z by auto
  ultimately show ?case by blast
qed

text \<open>
  C7: Goroutines that call the manager at once get what they would get one after another. Each call takes the lock
  once, and makes its requests to the API server, retries included, while the others act between
  them. In every execution that has come to its end, the results and the last state are those of the calls in some
  order, each as a whole; every execution does come to its end, and none gets stuck before; and while
  one writes, nobody else is inside.
\<close>
theorem manager_calls_serialise:
  assumes "eRetryOnConflict E = go_retry ds E"
    and "\<forall>i. ts0 i = (if i < k then Waiting (op_reads (calls i)) (op_code ds E (calls i)) else Returned none)"
    and "(lock_step globalManagerLock manager_unlock)\<^sup>*\<^sup>* (ts0, new_manager_lock, s0) (ts, m, s)"
  shows "((\<exists>x. lock_step globalManagerLock manager_unlock (ts, m, s) x) \<or>
      (\<exists>js rs. in_turn (\<lambda>i. op_whole E (calls i)) js s0 = (rs, s) \<and> map fst rs = js \<and>
         distinct js \<and> set js = {..<k} \<and>
         (\<forall>i r. i < k \<and> ts i = Returned r \<longrightarrow> (i, r) \<in> set rs) \<and> (\<forall>i. \<exists>r. ts i = Returned r))) \<and>
    (\<nexists>f. f 0 = (ts0, new_manager_lock, s0) \<and>
       (\<forall>n. lock_step globalManagerLock manager_unlock (f n) (f (Suc n)))) \<and>
    (\<forall>i j c ro c'. ts i = Holding False c \<and> ts j = Holding ro c' \<longrightarrow> i = j)"
proof -
  have start: "manager.sim (ts0, new_manager_lock, s0) (ts0, s0)"
    using assms(2) by (intro manager.sim_start) (simp_all add: new_manager_lock_def op_reads_code)
  from manager.sim_steps [OF assms(3) start] obtain a where "manager.sim (ts, m, s) a" by blast
  then have counted: "manager.counted ts m" by (cases a) (simp add: manager.sim_def)
  have "\<exists>js rs. in_turn (\<lambda>i. op_whole E (calls i)) js s0 = (rs, s) \<and> map fst rs = js \<and>
         distinct js \<and> set js = {..<k} \<and>
      (\<forall>i r. i < k \<and> ts i = Returned r \<longrightarrow> (i, r) \<in> set rs) \<and> (\<forall>i. \<exists>r. ts i = Returned r)"
    if stuck: "\<not> (\<exists>x. lock_step globalManagerLock manager_unlock (ts, m, s) x)"
  proof -
    have ended: "\<exists>r. ts i = Returned r" for i using manager.counted_progress [OF counted] stuck by blast
    have steps: "whole_step\<^sup>*\<^sup>* (ts0, s0) (ts, s)" using manager.all_or_next [OF assms(3) start] stuck by blast
    have whole: "run c = op_whole E (calls i)" if "ts0 i = Waiting ro c" for i ro c
      using that assms(2) run_op_code [OF assms(1)] by (auto split: if_splits)
    have "\<exists>js rs. in_turn (\<lambda>i. op_whole E (calls i)) js s0 = (rs, s) \<and> distinct js \<and>
      (\<forall>i. if i \<in> set js then (\<exists>ro c. ts0 i = Waiting ro c) \<and> (\<exists>r. (i, r) \<in> set rs \<and> ts i = Returned r)
        else ts i = ts0 i)"
      by (rule wholes_in_turn [OF steps, unfolded fst_conv snd_conv]) (erule whole)
    then obtain js rs where turn: "in_turn (\<lambda>i. op_whole E (calls i)) js s0 = (rs, s)" "distinct js"
      and all: "\<forall>i. if i \<in> set js then (\<exists>ro c. ts0 i = Waiting ro c) \<and>
          (\<exists>r. (i, r) \<in> set rs \<and> ts i = Returned r) else ts i = ts0 i" by blast
    have rs: "map fst rs = js"
      using in_turn_ids [of "\<lambda>i. op_whole E (calls i)" js s0] turn(1) by simp
    have "i \<in> set js \<longleftrightarrow> i < k" for i
      using all [THEN spec, of i] assms(2) [THEN spec, of i] ended [of i] by (auto split: if_splits)
    then have set: "set js = {..<k}" by auto
    have "(i, r) \<in> set rs" if "i < k" "ts i = Returned r" for i r
      using all [THEN spec, of i] that set by auto
    then show ?thesis using turn rs set ended by blast
  qed
  moreover have "\<nexists>f. f 0 = (ts0, new_manager_lock, s0) \<and>
      (\<forall>n. lock_step globalManagerLock manager_unlock (f n) (f (Suc n)))"
  proof (rule notI, elim exE conjE)
    fix f assume f: "f 0 = (ts0, new_manager_lock, s0)"
      "\<forall>n. lock_step globalManagerLock manager_unlock (f n) (f (Suc n))"
    have "\<forall>i\<ge>k. \<exists>r. fst (f 0) i = Returned r" using f(1) assms(2) by simp
    from lock_steps_end [where f = f, OF this] f(2) show False by blast
  qed
  moreover have "\<forall>i j c ro c'. ts i = Holding False c \<and> ts j = Holding ro c' \<longrightarrow> i = j"
    using manager.writer_alone [OF counted] by blast
  ultimately show ?thesis by blast
qed

section \<open>Two readers and a writer\<close>

lemma ended_stuck:
  assumes "\<forall>i. \<exists>r. ts i = Returned r"
  shows "\<not> lock_step acq rel (ts, m, s) x"
proof
  assume "lock_step acq rel (ts, m, s) x"
  then have "lock_step acq rel (ts, m, s) (fst x, fst (snd x), snd (snd x))" by simp
  from lock_step_next [OF this] obtain i t where "thread_next t (ts i)" by blast
  with assms [THEN spec, of i] show False by (auto elim: thread_next_cases)
qed

text \<open>Both readers are inside at once, the writer comes after them.\<close>

lemma readers_then_writer:
  assumes "ts 0 = Waiting False c0" and "ts 1 = Waiting True c1" and "ts 2 = Waiting True c2"
  shows "\<exists>ts' m s'. (lock_step globalManagerLock manager_unlock)\<^sup>*\<^sup>* (ts, new_manager_lock, s) (ts', m, s') \<and>
    (\<forall>i. if i < 3 then \<exists>r. ts' i = Returned r else ts' i = ts i)"
proof -
  let ?step = "lock_step globalManagerLock manager_unlock"
  let ?m = "\<lambda>n w. \<lparr>rwReaders = n, rwWriter = w\<rparr>"
  let ?h = "ts(1 := Holding True c1, 2 := Holding True c2)"
  have a1: "?step (ts, ?m 0 False, s) (ts(1 := Holding True c1), ?m 1 False, s)"
    by (rule acquires [where ts = ts and i = 1, OF assms(2)]) (simp add: globalManagerLock_def)
  have a2: "?step (ts(1 := Holding True c1), ?m 1 False, s) (?h, ?m 2 False, s)"
    by (rule acquires [where ts = "ts(1 := Holding True c1)" and i = 2 and c = c2])
      (simp_all add: assms globalManagerLock_def)
  obtain r2 s2 where r2: "?step\<^sup>*\<^sup>* (?h, ?m 2 False, s) (?h(2 := Returned r2), manager_unlock True (?m 2 False), s2)"
    using held_runs [where ts = ?h and i = 2 and c = c2] by (metis fun_upd_same)
  let ?t = "?h(2 := Returned r2)"
  have "?t 1 = Holding True c1" by simp
  then obtain r1 s1 where r1: "?step\<^sup>*\<^sup>* (?t, ?m 1 False, s2) (?t(1 := Returned r1), manager_unlock True (?m 1 False), s1)"
    using held_runs [where ts = ?t and i = 1 and c = c1] by metis
  let ?u = "?t(1 := Returned r1)"
  have "?u 0 = Waiting False c0" using assms(1) by simp
  then have a0: "?step (?u, ?m 0 False, s1) (?u(0 := Holding False c0), ?m 0 True, s1)"
    by (rule acquires [where ts = ?u and i = 0]) (simp add: globalManagerLock_def)
  obtain r0 s0 where r0: "?step\<^sup>*\<^sup>* (?u(0 := Holding False c0), ?m 0 True, s1)
      (?u(0 := Holding False c0, 0 := Returned r0), manager_unlock False (?m 0 True), s0)"
    using held_runs [where ts = "?u(0 := Holding False c0)" and i = 0 and c = c0] by (metis fun_upd_same)
  have m: "manager_unlock True (?m 2 False) = ?m 1 False" "manager_unlock True (?m 1 False) = ?m 0 False"
    by (simp_all add: manager_unlock_def)
  from a1 a2 r2 r1 a0 r0 have "?step\<^sup>*\<^sup>* (ts, ?m 0 False, s)
      (?u(0 := Holding False c0, 0 := Returned r0), manager_unlock False (?m 0 True), s0)"
    unfolding m by (meson converse_rtranclp_into_rtranclp rtranclp_trans)
  moreover have "if i < 3 then \<exists>r. (?u(0 := Holding False c0, 0 := Returned r0)) i = Returned r
      else (?u(0 := Holding False c0, 0 := Returned r0)) i = ts i" for i
    by auto
  ultimately show ?thesis unfolding new_manager_lock_def by blast
qed

definition three_calls :: "nat \<Rightarrow> manager_op" where
  "three_calls i = (if i = 0 then OptionsOp example_id None else ListOp)"

definition three_threads :: "nat \<Rightarrow> (memory sys, op_result) thread" where
  "three_threads i = (if i < 3 then Waiting (op_reads (three_calls i)) (op_code [] memory_env (three_calls i))
     else Returned (Wrote None))"

theorem manager_calls_serialise_witness:
  "\<exists>ts m s js rs. (lock_step globalManagerLock manager_unlock)\<^sup>*\<^sup>*
       (three_threads, new_manager_lock, example_sys) (ts, m, s) \<and>
     in_turn (\<lambda>i. op_whole memory_env (three_calls i)) js example_sys = (rs, s) \<and>
     map fst rs = js \<and> distinct js \<and> set js = {..<3} \<and> (\<exists>r. ts 1 = Returned r \<and> (1, r) \<in> set rs)"
proof -
  have "three_threads 0 = Waiting False (op_code [] memory_env (three_calls 0))"
    "three_threads 1 = Waiting True (op_code [] memory_env (three_calls 1))"
    "three_threads 2 = Waiting True (op_code [] memory_env (three_calls 2))"
    by (simp_all add: three_threads_def three_calls_def)
  from readers_then_writer [where ts = three_threads, OF this, of example_sys] obtain ts m s where
    run: "(lock_step globalManagerLock manager_unlock)\<^sup>*\<^sup>* (three_threads, new_manager_lock, example_sys) (ts, m, s)"
    and all: "\<forall>i. if i < 3 then \<exists>r. ts i = Returned r else ts i = three_threads i" by blast
  have ended: "\<forall>i. \<exists>r. ts i = Returned r"
  proof
    fix i
    show "\<exists>r. ts i = Returned r" using all [THEN spec, of i] by (auto simp: three_threads_def split: if_splits)
  qed
  have stuck: "\<nexists>x. lock_step globalManagerLock manager_unlock (ts, m, s) x"
    using ended_stuck [OF ended, of globalManagerLock manager_unlock m s] by simp
  have retry: "eRetryOnConflict memory_env = go_retry [] memory_env"
    by (simp add: memory_env_def fun_eq_iff)
  have threads: "\<forall>i. three_threads i = (if i < 3
      then Waiting (op_reads (three_calls i)) (op_code [] memory_env (three_calls i)) else Returned (Wrote None))"
    by (simp add: three_threads_def)
  from manager_calls_serialise [OF retry threads run] stuck
  obtain js rs where turn: "in_turn (\<lambda>i. op_whole memory_env (three_calls i)) js example_sys = (rs, s)"
    "map fst rs = js" "distinct js" "set js = {..<3}"
    and res: "\<forall>i r. i < 3 \<and> ts i = Returned r \<longrightarrow> (i, r) \<in> set rs"
    by (elim conjE disjE exE) (simp_all del: split_paired_All split_paired_Ex)
  obtain r where "ts 1 = Returned r" using ended by blast
  moreover from this have "(1, r) \<in> set rs" using res by simp
  ultimately show ?thesis using run turn by blast
qed

end
