(* ===== verification/Spec2Isabelle.thy ===== *)
theory Spec2Isabelle
  imports Manager_Properties Executor_Properties Webhook_Properties Discovery_Properties Ui_Properties
    Login_Properties Service_Properties Controller_Properties Run_Properties
    Start_Properties Executor_Progress Object_Sharing Operator Manager_Lock
begin

text \<open>
  A verification library of the Renovate operator (Go, \<open>src/src\<close>). The operator watches custom
  resources, the RenovateJobs; each names a platform and a cron expression. On schedule, or when a
  user or a webhook asks, it discovers the platform's repositories (the projects of the resource), and
  starts a Kubernetes job with Renovate for each of them, as many at a time as the resource allows.

  \<^bold>\<open>The parts and how they interact.\<close> The status of a resource is the shared state: a list of projects,
  each scheduled, running, completed or failed. Four clients write it, all through the manager of
  \<open>internal/crdManager\<close>: the executor, a loop that finishes runs and starts scheduled projects; the
  scheduled run of the reconciler, which replaces the list by what it discovered and marks everything
  that does not run as scheduled; the webhook server and the UI server, which mark projects as
  scheduled. The reconciler keeps one entry of the scheduler per resource, and one syncer that keeps
  the webhooks of the platform's repositories.

  \<^bold>\<open>Foundations.\<close>
  \<^item> \<open>Prelude\<close>: Go's errors as values, results that return or panic, 32- and 64-bit integers, the functions of
    \<open>strings\<close> and \<open>strconv\<close> the code calls, list and map lemmas.
  \<^item> \<open>Sha256\<close>, \<open>Base64\<close>, \<open>Json\<close>, \<open>Json_Text\<close>, \<open>Json_Write\<close>, \<open>Http_Client\<close>, \<open>Url_Query\<close>: what the source uses of the standard
    library. JSON is read byte by byte by the scanner of \<open>encoding/json\<close>, and the decoders of each Go
    struct stand beside the code that has the struct; \<open>Json_Text\<close> and \<open>Json_Write\<close> prove that what is
    written is read back.
  \<^item> \<open>Api_Types\<close>: the resource, \<open>api/v1alpha1/renovatejob_types.go\<close>, one record per struct.

  \<^bold>\<open>The resource and its manager.\<close>
  \<^item> \<open>Project_Status\<close> (\<open>utils/projectStatus.go\<close>): the update functions, the abstract life cycle they refine, and
    the locale \<open>status_updater\<close> with what a client may rely on.
  \<^item> \<open>Config\<close>, \<open>Metrics\<close>, \<open>Health\<close>: the settings module, the metric vectors, the health register (locale
    \<open>stamped_register\<close>, interpreted on both of its halves).
  \<^item> \<open>Kube\<close>: the surroundings. A state \<open>'w sys\<close> is the world, the operator's own state and the log of its
    calls; the record \<open>'w env\<close> has one field for each call of the API server, the clock and the network.
  \<^item> \<open>Job_Names\<close>, \<open>Job_Manager\<close>, \<open>Job_Definitions\<close>: names, labels and generations of Kubernetes jobs and the two
    jobs the operator submits.
  \<^item> \<open>Renovate_Manager\<close> (\<open>crdManager/renovateJobManager.go\<close>): every operation of the manager as a closure under
    \<open>RetryOnConflict\<close>, its effect on the stored resources, and the locale \<open>status_store\<close> through which the
    executor's proof sees the manager. \<open>Memory_Server\<close> is an instance of the environment in which all
    laws hold; the witnesses run on it.
  \<^item> \<open>Manager_Lock\<close>: the lock of the manager. Here an operation is the sequence of its reads and writes, in
    goroutines that act between each other's; the locale \<open>rw_lock\<close>, interpreted on \<open>globalManagerLock\<close>, gives that every execution
    ends as one of whole operations does.
  \<^item> \<open>Object_Sharing\<close>: the same resource on a heap. Everywhere else a loaded resource is a value; here the
    shallow \<open>DeepCopyObject\<close> and the loops that write through its slices are modelled with addresses,
    and it is shown that the copy sees what the value model computes and that the cache sees it too.
  \<^item> \<open>Manager_Properties\<close>: exactness of updates and of reconciling, well-typed resources, and that no operation
    but the executor's own update makes a project run.

  \<^bold>\<open>Running.\<close>
  \<^item> \<open>Log_Parser\<close>, \<open>Executor\<close> (\<open>renovate/executor.go\<close>, \<open>jobHelper.go\<close>): the loop in rounds, a visit of a resource under its
    lock, the pass over the running and the pass over the scheduled projects.
  \<^item> \<open>Executor_Properties\<close>: parallelism, order of the starts, the lock, reading of logs. \<open>Executor_Progress\<close>: no slot stays
    idle, and every scheduled project is started after boundedly many visits.
  \<^item> \<open>Discovery\<close>, \<open>Discovery_Properties\<close> (\<open>discoveryAgent.go\<close>, \<open>podLogs.go\<close>).
  \<^item> \<open>Git_Provider\<close> (\<open>internal/gitprovider\<close>), \<open>Forgejo_Sync\<close> (\<open>internal/forgejo\<close>), \<open>Scheduler\<close> (locale \<open>schedule_table\<close>) and
    \<open>Service_Properties\<close>.
  \<^item> \<open>Controller\<close> (\<open>controllers/renovatejob_controller.go\<close>), \<open>Controller_Properties\<close>, \<open>Run_Properties\<close>: requests of the
    reconciler, the scheduled run, the saved state of the syncers, and an inductive relation of the
    states that requests, runs and anything else the scheduler does can reach.

  \<^bold>\<open>The servers.\<close>
  \<^item> \<open>Http\<close>, \<open>Webhook\<close>, \<open>Webhook_Properties\<close> (\<open>webhook/\<close>): the three platforms' payloads, the authentication, the handlers.
  \<^item> \<open>Ui_Http\<close>, \<open>Group_Validation\<close>, \<open>Ui_Session\<close>, \<open>Ui_Login\<close>, \<open>Ui_Api\<close>, \<open>Ui_Properties\<close>, \<open>Login_Properties\<close> (\<open>ui/\<close>): sealed sessions, both login
    providers, the middleware, the routes and every handler.
  \<^item> \<open>Client_Provider\<close> (\<open>clientProvider/\<close>, \<open>assert/\<close>; locale \<open>client_slot\<close>, interpreted on the four cached clients), \<open>Start_Up\<close>,
    \<open>Start_Properties\<close> (\<open>cmd/main.go\<close>): from the environment of the process to the parts above, composed as \<open>main\<close>
    composes them, and what the settings mean for a job's limits and for a user of the UI.

  \<^item> \<open>Operator\<close>: the process as a whole. A step is a visit of the executor, a run, a request to the reconciler, the
    webhook server or the UI server, the goroutine of a discovery, or something a user does; every part but the executor is
    shown to be quiet, and the limit of every resource holds after any sequence of steps.

  \<^bold>\<open>How the code is read.\<close> A struct is a record, a Go error a value of \<open>go_error\<close>, a result with an error a sum;
  a function that may panic has a result \<open>Panics\<close>. A pointer that is only read is an option. Priorities and the
  parallelism are words of 32 bits, read with \<open>sint\<close>. Times are integers of nanoseconds. Concurrency is
  a sequence of steps: an operation of the manager holds its lock throughout, so it is one step (\<open>Manager_Lock\<close>), and the
  relation \<open>I\<close> of a law says what other clients of the API server may do before and after each call. The order in which
  Go visits a map is unspecified; where it could matter the comment of the definition says which order is used.

  \<^bold>\<open>Parameters and their laws.\<close> Code outside the repository is an argument, and what the proofs use of it is a
  named hypothesis that says what its documentation says:
  \<^item> \<open>kube_laws I E\<close> and \<open>retry_law I E\<close>: the API server answers a read with the resource of that name; an accepted write of
    the status stores the status and nothing else; a refused write changes nothing; every call may be
    surrounded by steps of \<open>I\<close>. With \<open>I\<close> equality there are no other writers. \<open>RetryOnConflict\<close> repeats its closure while it reports
    a conflict and ends with its last result.
  \<^item> \<open>law_http\<close>: a request to a platform does not write resources. \<open>law_object\<close>: a write of an object leaves its
    status alone. \<open>surroundings\<close> collects these, with other clients that are quiet. \<open>aead_law\<close>: opening what was sealed under the same key and
    nonce gives the plaintext, and nothing else opens. \<open>mux_law\<close>: the router picks a route that matches. \<open>cron_laws\<close>: the
    library holds the jobs that were added and not removed. \<open>oauth_lib\<close>, \<open>start_lib\<close>, \<open>client_libs\<close> and the URL parser carry no law.
  \<^item> The in-memory server and concrete functions satisfy each of them in the witnesses.

  \<^bold>\<open>Loops.\<close> Loops over lists are structural. The wait for a discovery job and the loop over the pages of
  the Forgejo API have no bound in the code: they are partial functions whose value is \<open>None\<close> if they
  do not return, and it is proved exactly when they do. \<open>RetryOnConflict\<close> is the relation \<open>retries\<close>. The executor's
  loop takes the number of its rounds, as the process ends it from outside. No other fuel is used.

  \<^bold>\<open>What the properties show.\<close> Of the executor: safety (parallelism, order) and progress. Of
  the store: which operation may start a project, exactness, typing, refinement of the life
  cycle. Of the servers: who may do what, from the bytes of a request to the change of the
  resource. Of schedules and webhooks: agreement with the library in every reachable
  state, what a run leaves, what is restored after a restart. Of the start: when the process
  comes up and what each setting means. Of the whole: no resource ever runs more projects than it
  allows. The last ones state where the code does
  not do what it means to.

  \<^bold>\<open>Not modelled.\<close> Listening on ports and shutting down, the registration of Prometheus collectors and of the scheme,
  command-line flags, log lines, the static files and the templates of the pages, and the work
  queue that calls \<open>Reconcile\<close>: they only call libraries. The concurrency of the fork filter
  is replaced by its requests in list order; data races, such as the one between the cron
  goroutine and \<open>Reconcile\<close> on the map of syncers and the one between requests on the map of the discovery
  agent's locks, are outside a model of atomic steps.
\<close>

end
